theory Spec2Isabelle
  imports Main
begin

section \<open>The chassis frontend of mysql-proxy (src/chassis-frontend.c)\<close>

text \<open>
  The functions of \<^verbatim>\<open>chassis-frontend.c\<close> are embedded as HOL functions.  What a C
  function changes through a pointer argument is returned next to its \<^verbatim>\<open>int\<close>
  result; the diagnostics it prints with \<^verbatim>\<open>g_critical\<close> and the calls it makes
  into other compilation units are returned as a list of events, oldest first.
  Functions of other compilation units (\<^verbatim>\<open>chassis_plugin_load\<close>,
  \<^verbatim>\<open>chassis_get_basedir\<close>, \<^verbatim>\<open>chassis_filemode_check\<close>), of GLib
  (\<^verbatim>\<open>g_path_is_absolute\<close>, \<^verbatim>\<open>g_build_filename\<close>, \<^verbatim>\<open>g_key_file_load_from_file\<close>)
  and of the operating system are parameters of the functions that call them.  The
  option parser of GLib and the functions of \<^verbatim>\<open>chassis-keyfile.c\<close> and
  \<^verbatim>\<open>chassis-options.c\<close>, whose effect on the option slots the properties are about,
  are modelled from the spec where the text says so.
\<close>

subsection \<open>Platform constants and events\<close>

text \<open>
  The preprocessor symbols the file depends on.  \<open>WIN32\<close> is the macro tested by
  \<^verbatim>\<open>#ifdef WIN32\<close> (lines 258, 275), \<open>WIN32_predefined\<close> the compiler's \<^verbatim>\<open>_WIN32\<close>
  (lines 152, 191).  \<^verbatim>\<open>SHARED_LIBRARY_SUFFIX\<close> is \<^verbatim>\<open>G_MODULE_SUFFIX\<close> unless the
  build defines it (lines 283-285).  \<^verbatim>\<open>LUA_PATH\<close> and \<^verbatim>\<open>LUA_CPATH\<close> are the names
  \<^verbatim>\<open>lua.h\<close> gives the two environment variables.
\<close>

record platform =
  WIN32 :: bool
  WIN32_predefined :: bool
  G_DIR_SEPARATOR :: char
  G_MODULE_SUFFIX :: string
  SHARED_LIBRARY_SUFFIX :: string
  LUA_PATH :: string
  LUA_CPATH :: string

text \<open>Lines 275-279: the prefix of a plugin's file name.\<close>

definition G_MODULE_PREFIX :: "platform \<Rightarrow> string" where
  "G_MODULE_PREFIX pf = (if WIN32 pf then ''plugin-'' else ''lib'')"

text \<open>
  A Unix-like build: \<^verbatim>\<open>/\<close> separates directories, modules end in \<^verbatim>\<open>so\<close>, the
  variables have the names Lua 5.1 gives them.
\<close>

definition unix_platform :: platform where
  "unix_platform =
     \<lparr>WIN32 = False, WIN32_predefined = False, G_DIR_SEPARATOR = CHR ''/'',
      G_MODULE_SUFFIX = ''so'', SHARED_LIBRARY_SUFFIX = ''so'', LUA_PATH = ''LUA_PATH'',
      LUA_CPATH = ''LUA_CPATH''\<rparr>"

text \<open>
  An event is a \<^verbatim>\<open>g_critical\<close> diagnostic (its format string and its string
  arguments; \<^verbatim>\<open>G_STRLOC\<close> and \<^verbatim>\<open>g_strerror(errno)\<close> are left as their names) or a
  call into another compilation unit with the string passed to it.
\<close>

datatype event =
    Critical string "string list"
  | Call_chassis_plugin_load string
  | Call_chassis_get_basedir string
  | Call_chassis_filemode_check string
  | Call_g_key_file_load_from_file string

subsection \<open>Options and plugins\<close>

text \<open>
  Modelled from the spec: \<^verbatim>\<open>GOptionEntry\<close> and \<^verbatim>\<open>GOptionArg\<close> are declared by GLib,
  not under src/.  The spec (3): an option descriptor has a long name, an optional
  single-character short form, an argument kind (flag, string, int, string list, file
  name), a writable target slot and help texts.  The field names are those the source
  uses for the entries it passes on.  An entry names its target slot by its address
  (\<^verbatim>\<open>arg_data\<close>); a \<open>short_name\<close> of \<open>None\<close> is the character 0; the help texts play
  no part in what follows and are left out.  The memory the slots live in maps an
  address to the value stored there; an address that holds \<^verbatim>\<open>NULL\<close> (an unset
  option) is unmapped.
\<close>

datatype GOptionArg =
    G_OPTION_ARG_NONE
  | G_OPTION_ARG_STRING
  | G_OPTION_ARG_INT
  | G_OPTION_ARG_FILENAME
  | G_OPTION_ARG_STRING_ARRAY

record GOptionEntry =
  long_name :: string
  short_name :: "char option"
  arg :: GOptionArg
  arg_data :: nat

datatype slot_value = Int_val int | Str_val string | Strv_val "string list"

type_synonym memory = "nat \<rightharpoonup> slot_value"

text \<open>
  Modelled from the spec: \<^verbatim>\<open>chassis_plugin\<close> and \<^verbatim>\<open>chassis_plugin_get_options\<close> are
  declared in \<^verbatim>\<open>chassis-plugin.h\<close>, not under src/.  The spec (3, 4.4): a plugin has
  an identity (its name) and an optional option schema, whose absence is not an error.
  So a loaded plugin is its \<^verbatim>\<open>name\<close> field (line 327) and what
  \<^verbatim>\<open>chassis_plugin_get_options\<close> returns for it (line 325; \<^verbatim>\<open>NULL\<close> is \<open>None\<close>).
\<close>

record chassis_plugin =
  name :: string
  chassis_plugin_get_options :: "GOptionEntry list option"

subsection \<open>The base directory (lines 112-140)\<close>

text \<open>
  \<^verbatim>\<open>chassis_frontend_init_basedir\<close>.  \<open>base_dir\<close> is \<^verbatim>\<open>*_base_dir\<close> on entry
  (\<open>None\<close> for \<^verbatim>\<open>NULL\<close>); the second component of the result is \<^verbatim>\<open>*_base_dir\<close> on
  return.  \<open>path_is_absolute\<close> is GLib's \<^verbatim>\<open>g_path_is_absolute\<close> and \<open>get_basedir\<close> is
  \<^verbatim>\<open>chassis_get_basedir\<close> of \<^verbatim>\<open>chassis-path.c\<close>.
\<close>

definition chassis_frontend_init_basedir ::
  "(string \<Rightarrow> bool) \<Rightarrow> (string \<Rightarrow> string option) \<Rightarrow> string \<Rightarrow> string option \<Rightarrow>
   int \<times> string option \<times> event list" where
  "chassis_frontend_init_basedir path_is_absolute get_basedir prg_name base_dir =
     (case base_dir of
        Some d \<Rightarrow>
          (if \<not> path_is_absolute d then
             (- 1, Some d,
              [Critical ''%s: --basedir option must be an absolute path, but was %s''
                 [''G_STRLOC'', d]])
           else (0, Some d, []))
      | None \<Rightarrow>
          (case get_basedir prg_name of
             None \<Rightarrow>
               (- 1, None,
                [Call_chassis_get_basedir prg_name,
                 Critical ''%s: Failed to get base directory'' [''G_STRLOC'']])
           | Some d \<Rightarrow> (0, Some d, [Call_chassis_get_basedir prg_name])))"

text \<open>\<^verbatim>\<open>g_path_is_absolute\<close> on a Unix-like platform: the path starts with \<^verbatim>\<open>/\<close>.\<close>

definition unix_path_is_absolute :: "string \<Rightarrow> bool" where
  "unix_path_is_absolute p = (case p of [] \<Rightarrow> False | c # _ \<Rightarrow> c = CHR ''/'')"

subsection \<open>The environment of the Lua interpreter (lines 150-251)\<close>

text \<open>
  The process environment is a state of any type \<open>'w\<close> with three operations.
  \<open>putenv key value w\<close> is lines 152-156: \<^verbatim>\<open>_putenv_s\<close> where \<^verbatim>\<open>_WIN32\<close> is set, else
  \<^verbatim>\<open>g_setenv(key, value, 1) ? 0 : -1\<close>; it gives \<open>r\<close> and the new environment.
  \<open>getenv\<close> is the C library's and \<open>g_getenv\<close> is GLib's (\<open>None\<close> for \<^verbatim>\<open>NULL\<close>); the
  comment of lines 145-148 says why the two may disagree.
\<close>

record 'w environment =
  putenv :: "string \<Rightarrow> string \<Rightarrow> 'w \<Rightarrow> int \<times> 'w"
  getenv :: "string \<Rightarrow> 'w \<Rightarrow> string option"
  g_getenv :: "string \<Rightarrow> 'w \<Rightarrow> string option"

text \<open>Lines 150-172.\<close>

definition chassis_frontend_lua_setenv ::
  "'w environment \<Rightarrow> string \<Rightarrow> string \<Rightarrow> 'w \<Rightarrow> int \<times> 'w \<times> event list" where
  "chassis_frontend_lua_setenv env key val w =
     (case putenv env key val w of
        (r, w') \<Rightarrow>
          (r, w',
           if r = 0 then
             (case getenv env key w' of
                None \<Rightarrow>
                  [Critical ''%s: setting %s = %s failed: (getenv() == NULL)''
                     [''G_STRLOC'', key, val]]
              | Some v \<Rightarrow>
                  if v \<noteq> val then
                    [Critical ''%s: setting %s = %s failed: (getenv() == %s)''
                       [''G_STRLOC'', key, val, v]]
                  else [])
           else []))"

text \<open>
  Lines 177-196.  \<open>build_filename\<close> is GLib's \<^verbatim>\<open>g_build_filename\<close>, taking the list of
  its arguments before the closing \<^verbatim>\<open>NULL\<close>.
\<close>

definition chassis_frontend_get_default_lua_path ::
  "(string list \<Rightarrow> string) \<Rightarrow> string \<Rightarrow> string \<Rightarrow> string" where
  "chassis_frontend_get_default_lua_path build_filename base_dir prg_name =
     build_filename [base_dir, ''lib'', prg_name, ''lua'', ''?.lua'']"

definition chassis_frontend_get_default_lua_cpath ::
  "platform \<Rightarrow> (string list \<Rightarrow> string) \<Rightarrow> string \<Rightarrow> string \<Rightarrow> string" where
  "chassis_frontend_get_default_lua_cpath pf build_filename base_dir prg_name =
     (if WIN32_predefined pf then
        build_filename [base_dir, ''bin'', ''lua-?.'' @ G_MODULE_SUFFIX pf]
      else build_filename [base_dir, ''lib'', prg_name, ''lua'', ''?.'' @ G_MODULE_SUFFIX pf])"

text \<open>
  Lines 201-226 and 231-251.  The result is the returned \<^verbatim>\<open>int\<close>, the environment
  afterwards and the diagnostics printed.
\<close>

definition chassis_frontend_init_lua_path ::
  "platform \<Rightarrow> 'w environment \<Rightarrow> (string list \<Rightarrow> string) \<Rightarrow> string option \<Rightarrow> string \<Rightarrow>
   string \<Rightarrow> 'w \<Rightarrow> int \<times> 'w \<times> event list" where
  "chassis_frontend_init_lua_path pf env build_filename set_path base_dir prg_name w =
     (case set_path of
        Some p \<Rightarrow>
          (case chassis_frontend_lua_setenv env (LUA_PATH pf) p w of
             (r, w', evs) \<Rightarrow>
               (0, w',
                evs @
                (if 0 \<noteq> r then
                   [Critical ''%s: setting %s = %s failed: %s''
                      [''G_STRLOC'', LUA_PATH pf, p, ''g_strerror(errno)'']]
                 else [])))
      | None \<Rightarrow>
          (if g_getenv env (LUA_PATH pf) w = None then
             (case chassis_frontend_lua_setenv env (LUA_PATH pf)
                     (chassis_frontend_get_default_lua_path build_filename base_dir prg_name) w of
                (r, w', evs) \<Rightarrow>
                  (0, w',
                   evs @
                   (if r \<noteq> 0 then
                      [Critical ''%s: setting %s = %s failed: %s''
                         [''G_STRLOC'', LUA_PATH pf,
                          chassis_frontend_get_default_lua_path build_filename base_dir prg_name,
                          ''g_strerror(errno)'']]
                    else [])))
           else (0, w, [])))"

definition chassis_frontend_init_lua_cpath ::
  "platform \<Rightarrow> 'w environment \<Rightarrow> (string list \<Rightarrow> string) \<Rightarrow> string option \<Rightarrow> string \<Rightarrow>
   string \<Rightarrow> 'w \<Rightarrow> int \<times> 'w \<times> event list" where
  "chassis_frontend_init_lua_cpath pf env build_filename set_path base_dir prg_name w =
     (case set_path of
        Some p \<Rightarrow>
          (case chassis_frontend_lua_setenv env (LUA_CPATH pf) p w of
             (r, w', evs) \<Rightarrow>
               (0, w',
                evs @
                (if r \<noteq> 0 then
                   [Critical ''%s: setting %s = %s failed: %s''
                      [''G_STRLOC'', LUA_CPATH pf, p, ''g_strerror(errno)'']]
                 else [])))
      | None \<Rightarrow>
          (if g_getenv env (LUA_CPATH pf) w = None then
             (case chassis_frontend_lua_setenv env (LUA_CPATH pf)
                     (chassis_frontend_get_default_lua_cpath pf build_filename base_dir prg_name)
                     w of
                (r, w', evs) \<Rightarrow>
                  (0, w',
                   evs @
                   (if r \<noteq> 0 then
                      [Critical ''%s: setting %s = %s failed: %s''
                         [''G_STRLOC'', LUA_CPATH pf,
                          chassis_frontend_get_default_lua_cpath pf build_filename base_dir
                            prg_name,
                          ''g_strerror(errno)'']]
                    else [])))
           else (0, w, [])))"

subsection \<open>Loading plugins (lines 269-312)\<close>

text \<open>
  Lines 294-299: \<^verbatim>\<open>g_strdup_printf("%s%c%s%s.%s", plugin_dir, G_DIR_SEPARATOR,
  G_MODULE_PREFIX, plugin_names[i], SHARED_LIBRARY_SUFFIX)\<close>.
\<close>

definition plugin_filename :: "platform \<Rightarrow> string \<Rightarrow> string \<Rightarrow> string" where
  "plugin_filename pf plugin_dir plugin_name =
     plugin_dir @ [G_DIR_SEPARATOR pf] @ G_MODULE_PREFIX pf @ plugin_name @ ''.'' @
     SHARED_LIBRARY_SUFFIX pf"

text \<open>Whether \<^verbatim>\<open>chassis_plugin_load\<close> returns a plugin for the file built from a name.\<close>

definition loads :: "platform \<Rightarrow> (string \<Rightarrow> chassis_plugin option) \<Rightarrow> string \<Rightarrow> string \<Rightarrow> bool" where
  "loads pf load plugin_dir plugin_name = (load (plugin_filename pf plugin_dir plugin_name) \<noteq> None)"

text \<open>A name the loop does not pass over (line 290).\<close>

definition requested :: "string \<Rightarrow> bool" where
  "requested plugin_name = (plugin_name \<noteq> [])"

text \<open>
  The loop of lines 273-310 from index \<open>i\<close> on; \<open>plugin_names\<close> is the rest of the
  \<^verbatim>\<open>NULL\<close>-terminated array, \<open>plugins\<close> the \<^verbatim>\<open>GPtrArray\<close> as it is now.
  \<open>load\<close> is \<^verbatim>\<open>chassis_plugin_load\<close>, \<open>None\<close> its \<^verbatim>\<open>NULL\<close>.
\<close>

fun load_plugins_loop ::
  "platform \<Rightarrow> (string \<Rightarrow> chassis_plugin option) \<Rightarrow> string \<Rightarrow> string list \<Rightarrow>
   chassis_plugin list \<Rightarrow> int \<times> chassis_plugin list \<times> event list" where
  "load_plugins_loop pf load plugin_dir [] plugins = (0, plugins, [])"
| "load_plugins_loop pf load plugin_dir (n # plugin_names) plugins =
     (if n = '''' then load_plugins_loop pf load plugin_dir plugin_names plugins
      else
        (case load (plugin_filename pf plugin_dir n) of
           None \<Rightarrow>
             (- 1, plugins,
              [Call_chassis_plugin_load (plugin_filename pf plugin_dir n),
               Critical ''setting --plugin-dir=<dir> might help'' []])
         | Some p \<Rightarrow>
             (case load_plugins_loop pf load plugin_dir plugin_names (plugins @ [p]) of
                (r, plugins', evs) \<Rightarrow>
                  (r, plugins', Call_chassis_plugin_load (plugin_filename pf plugin_dir n) # evs))))"

text \<open>
  \<^verbatim>\<open>chassis_frontend_load_plugins\<close>: \<open>plugin_names = None\<close> is the \<^verbatim>\<open>NULL\<close> array,
  for which the loop condition of line 273 fails at once.
\<close>

definition chassis_frontend_load_plugins ::
  "platform \<Rightarrow> (string \<Rightarrow> chassis_plugin option) \<Rightarrow> chassis_plugin list \<Rightarrow> string \<Rightarrow>
   string list option \<Rightarrow> int \<times> chassis_plugin list \<times> event list" where
  "chassis_frontend_load_plugins pf load plugins plugin_dir plugin_names =
     (case plugin_names of
        None \<Rightarrow> (0, plugins, [])
      | Some ns \<Rightarrow> load_plugins_loop pf load plugin_dir ns plugins)"

subsection \<open>The option parser and the key file\<close>

text \<open>
  Modelled from the spec: \<^verbatim>\<open>GOptionContext\<close> and the functions on it are GLib's, not
  under src/.  The spec (2, 4.3): the registry is an ordered collection of option
  descriptors that starts empty and is extended by groups, each a named bundle of
  descriptors.  So a context is the main entries, the option groups in the order they
  were added (a group is its name and its entries) and the two settings the source
  changes (lines 373-374).  Adding entries or a group has no result in the source
  (lines 332-333, 372) and cannot fail.
\<close>

record GOptionContext =
  main_entries :: "GOptionEntry list"
  option_groups :: "(string \<times> GOptionEntry list) list"
  help_enabled :: bool
  ignore_unknown_options :: bool

text \<open>
  Modelled from the spec: \<^verbatim>\<open>g_option_context_new\<close> and the four functions after it
  are GLib's.  A new context has no entries, has help enabled and rejects unknown
  options; the others add to a list or set a field.
\<close>

definition g_option_context_new :: GOptionContext where
  "g_option_context_new =
     \<lparr>main_entries = [], option_groups = [], help_enabled = True,
      ignore_unknown_options = False\<rparr>"

definition g_option_context_add_main_entries ::
  "GOptionContext \<Rightarrow> GOptionEntry list \<Rightarrow> GOptionContext" where
  "g_option_context_add_main_entries ctx entries =
     ctx\<lparr>main_entries := main_entries ctx @ entries\<rparr>"

definition g_option_context_add_group ::
  "GOptionContext \<Rightarrow> string \<times> GOptionEntry list \<Rightarrow> GOptionContext" where
  "g_option_context_add_group ctx grp = ctx\<lparr>option_groups := option_groups ctx @ [grp]\<rparr>"

definition g_option_context_set_help_enabled :: "GOptionContext \<Rightarrow> bool \<Rightarrow> GOptionContext" where
  "g_option_context_set_help_enabled ctx b = ctx\<lparr>help_enabled := b\<rparr>"

definition g_option_context_set_ignore_unknown_options ::
  "GOptionContext \<Rightarrow> bool \<Rightarrow> GOptionContext" where
  "g_option_context_set_ignore_unknown_options ctx b = ctx\<lparr>ignore_unknown_options := b\<rparr>"

text \<open>
  Modelled from the spec: every entry the parser knows, the main entries first, then
  each group's.
\<close>

definition context_entries :: "GOptionContext \<Rightarrow> GOptionEntry list" where
  "context_entries ctx = main_entries ctx @ concat (map snd (option_groups ctx))"

text \<open>
  Decimal numbers: \<open>string_of_nat\<close> prints as \<^verbatim>\<open>%d\<close> does, \<open>int_of_string\<close> reads an
  optional minus sign and one or more digits.
\<close>

fun string_of_nat :: "nat \<Rightarrow> string" where
  "string_of_nat n =
     (if n < 10 then [''0123456789'' ! n]
      else string_of_nat (n div 10) @ [''0123456789'' ! (n mod 10)])"

definition string_of_int :: "int \<Rightarrow> string" where
  "string_of_int i = (if i < 0 then CHR ''-'' # string_of_nat (nat (- i)) else string_of_nat (nat i))"

definition digit_of_char :: "char \<Rightarrow> nat option" where
  "digit_of_char c =
     (if c \<in> set ''0123456789'' then Some (length (takeWhile (\<lambda>d. d \<noteq> c) ''0123456789''))
      else None)"

fun nat_of_digits :: "nat \<Rightarrow> string \<Rightarrow> nat option" where
  "nat_of_digits acc [] = Some acc"
| "nat_of_digits acc (c # cs) =
     (case digit_of_char c of None \<Rightarrow> None | Some d \<Rightarrow> nat_of_digits (10 * acc + d) cs)"

definition int_of_string :: "string \<Rightarrow> int option" where
  "int_of_string s =
     (case s of
        [] \<Rightarrow> None
      | c # cs \<Rightarrow>
          if c = CHR ''-'' then
            (if cs = [] then None else map_option (\<lambda>n. - int n) (nat_of_digits 0 cs))
          else map_option int (nat_of_digits 0 s))"

text \<open>
  Modelled from the spec: \<^verbatim>\<open>g_option_context_parse\<close> is GLib's and not under src/.
  The spec (4.3) gives it GNU-style long options (\<^verbatim>\<open>--name=value\<close> or
  \<^verbatim>\<open>--name value\<close>), single-character short options and flags that take no value;
  an unknown option is tolerated (left in \<open>argv\<close>) or rejected according to the
  context's \<open>ignore_unknown_options\<close>; a recognised option is taken out of \<open>argv\<close>
  and its value written to its target slot, the last occurrence winning except for a
  list-valued option, whose occurrences within one parse are collected in order.  The
  help options and the marker \<^verbatim>\<open>--\<close> that ends the options are not part of the
  model, nor are several short options in one element.

  \<open>classify\<close> decides what an element of \<open>argv\<close> is.  An entry that takes no value
  matches \<^verbatim>\<open>--name\<close> only; one that takes a value matches \<^verbatim>\<open>--name\<close> (value in the
  next element) and \<^verbatim>\<open>--name=value\<close>.  A short option is \<^verbatim>\<open>-c\<close>; any other element
  that starts with \<^verbatim>\<open>-\<close> and is longer than that character counts as an option no
  entry recognises.
\<close>

datatype argument =
    Not_an_option
  | Unknown_option
  | Option GOptionEntry "string option"

definition long_matches :: "string \<Rightarrow> GOptionEntry \<Rightarrow> bool" where
  "long_matches text e =
     (if arg e = G_OPTION_ARG_NONE then text = long_name e
      else text = long_name e \<or> take (length (long_name e) + 1) text = long_name e @ ''='')"

definition classify :: "GOptionEntry list \<Rightarrow> string \<Rightarrow> argument" where
  "classify entries a =
     (case a of
        c1 # c2 # cs \<Rightarrow>
          if c1 = CHR ''-'' \<and> c2 = CHR ''-'' \<and> cs \<noteq> [] then
            (case find (long_matches cs) entries of
               None \<Rightarrow> Unknown_option
             | Some e \<Rightarrow>
                 if cs = long_name e then Option e None
                 else Option e (Some (drop (length (long_name e) + 1) cs)))
          else if c1 = CHR ''-'' \<and> c2 \<noteq> CHR ''-'' then
            (if cs = [] then
               (case find (\<lambda>e. short_name e = Some c2) entries of
                  None \<Rightarrow> Unknown_option
                | Some e \<Rightarrow> Option e None)
             else Unknown_option)
          else Not_an_option
      | _ \<Rightarrow> Not_an_option)"

text \<open>
  An element of \<open>argv\<close> that none of the given entries recognises: an option no entry
  matches, or not an option at all.
\<close>

definition unrecognised :: "GOptionEntry list \<Rightarrow> string \<Rightarrow> bool" where
  "unrecognised entries a =
     (case classify entries a of
        Not_an_option \<Rightarrow> True
      | Unknown_option \<Rightarrow> True
      | Option e inline \<Rightarrow> False)"

text \<open>
  An element of \<open>argv\<close> that a parse can deal with on its own: one that no entry
  recognises, a recognised flag, or a recognised option with its value after \<^verbatim>\<open>=\<close>,
  the value being a number if the option is one of kind int.  What is left out is a
  recognised option that takes the next element as its value, and a value that is not
  a number.
\<close>

definition acceptable :: "GOptionEntry list \<Rightarrow> string \<Rightarrow> bool" where
  "acceptable entries a =
     (case classify entries a of
        Not_an_option \<Rightarrow> True
      | Unknown_option \<Rightarrow> True
      | Option e inline \<Rightarrow>
          if arg e = G_OPTION_ARG_NONE then True
          else
            (case inline of
               None \<Rightarrow> False
             | Some v \<Rightarrow> if arg e = G_OPTION_ARG_INT then int_of_string v \<noteq> None else True))"

text \<open>
  Modelled from the spec: the part of \<^verbatim>\<open>g_option_context_parse\<close> that writes one
  value to an entry's slot.  \<open>started\<close> holds the slots of the list-valued options
  already met in this parse: the first occurrence starts a new list, later ones append
  to it.  A value that does not convert to the entry's kind is an error.
\<close>

definition parse_arg ::
  "GOptionEntry \<Rightarrow> string \<Rightarrow> nat list \<Rightarrow> memory \<Rightarrow> (nat list \<times> memory) option" where
  "parse_arg e v started m =
     (case arg e of
        G_OPTION_ARG_NONE \<Rightarrow> Some (started, m(arg_data e \<mapsto> Int_val 1))
      | G_OPTION_ARG_STRING \<Rightarrow> Some (started, m(arg_data e \<mapsto> Str_val v))
      | G_OPTION_ARG_FILENAME \<Rightarrow> Some (started, m(arg_data e \<mapsto> Str_val v))
      | G_OPTION_ARG_INT \<Rightarrow>
          (case int_of_string v of
             None \<Rightarrow> None
           | Some i \<Rightarrow> Some (started, m(arg_data e \<mapsto> Int_val i)))
      | G_OPTION_ARG_STRING_ARRAY \<Rightarrow>
          (if arg_data e \<in> set started then
             (case m (arg_data e) of
                Some (Strv_val vs) \<Rightarrow> Some (started, m(arg_data e \<mapsto> Strv_val (vs @ [v])))
              | _ \<Rightarrow> Some (started, m(arg_data e \<mapsto> Strv_val [v])))
           else Some (arg_data e # started, m(arg_data e \<mapsto> Strv_val [v]))))"

definition keep_argument ::
  "string \<Rightarrow> (string list \<times> memory) option \<Rightarrow> (string list \<times> memory) option" where
  "keep_argument a r = (case r of None \<Rightarrow> None | Some (rest, m) \<Rightarrow> Some (a # rest, m))"

text \<open>
  Modelled from the spec: the loop of \<^verbatim>\<open>g_option_context_parse\<close> over the elements
  of \<open>argv\<close> after the program name, left to right.  The result is the elements left
  in \<open>argv\<close> and the memory, or \<open>None\<close> for a parse error.
\<close>

fun parse_args ::
  "GOptionEntry list \<Rightarrow> bool \<Rightarrow> nat list \<Rightarrow> string list \<Rightarrow> memory \<Rightarrow>
   (string list \<times> memory) option" where
  "parse_args entries ign started [] m = Some ([], m)"
| "parse_args entries ign started (a # as) m =
     (case classify entries a of
        Not_an_option \<Rightarrow> keep_argument a (parse_args entries ign started as m)
      | Unknown_option \<Rightarrow>
          if ign then keep_argument a (parse_args entries ign started as m) else None
      | Option e inline \<Rightarrow>
          if arg e = G_OPTION_ARG_NONE then
            parse_args entries ign started as (m(arg_data e \<mapsto> Int_val 1))
          else
            (case inline of
               Some v \<Rightarrow>
                 (case parse_arg e v started m of
                    None \<Rightarrow> None
                  | Some (started', m') \<Rightarrow> parse_args entries ign started' as m')
             | None \<Rightarrow>
                 (case as of
                    [] \<Rightarrow> None
                  | v # as' \<Rightarrow>
                      (case parse_arg e v started m of
                         None \<Rightarrow> None
                       | Some (started', m') \<Rightarrow> parse_args entries ign started' as' m'))))"

text \<open>
  Modelled from the spec: \<^verbatim>\<open>g_option_context_parse\<close> itself.  \<open>argv[0]\<close> is the
  program name and is not parsed.  On an error nothing is written (\<open>None\<close>).
\<close>

definition g_option_context_parse ::
  "GOptionContext \<Rightarrow> string list \<Rightarrow> memory \<Rightarrow> (string list \<times> memory) option" where
  "g_option_context_parse ctx argv m =
     (case argv of
        [] \<Rightarrow> Some ([], m)
      | prg # as \<Rightarrow>
          keep_argument prg
            (parse_args (context_entries ctx) (ignore_unknown_options ctx) [] as m))"

text \<open>
  Modelled from the spec: \<^verbatim>\<open>GKeyFile\<close> is GLib's, not under src/.  The spec (1, 4.2):
  the file is parsed into a mapping from section to key to value, and list-valued
  entries are separated by a configurable single character.  So a loaded key file is
  the list separator and, for each group (section), its keys and their values as text.
\<close>

record GKeyFile =
  list_separator :: char
  groups :: "string \<rightharpoonup> (string \<rightharpoonup> string)"

text \<open>
  Modelled from the spec: the value a key's text stands for, for an option of the given
  kind; a list is split at the separator.  The spec does not give the texts of a flag:
  here they are \<^verbatim>\<open>true\<close> and \<^verbatim>\<open>false\<close>.
\<close>

fun split_list :: "char \<Rightarrow> string \<Rightarrow> string list" where
  "split_list sep [] = [[]]"
| "split_list sep (c # cs) =
     (if c = sep then [] # split_list sep cs
      else (case split_list sep cs of [] \<Rightarrow> [[c]] | x # xs \<Rightarrow> (c # x) # xs))"

definition keyfile_value :: "char \<Rightarrow> GOptionArg \<Rightarrow> string \<Rightarrow> slot_value option" where
  "keyfile_value sep kind raw =
     (case kind of
        G_OPTION_ARG_NONE \<Rightarrow>
          (if raw = ''true'' then Some (Int_val 1)
           else if raw = ''false'' then Some (Int_val 0)
           else None)
      | G_OPTION_ARG_STRING \<Rightarrow> Some (Str_val raw)
      | G_OPTION_ARG_FILENAME \<Rightarrow> Some (Str_val raw)
      | G_OPTION_ARG_INT \<Rightarrow> map_option Int_val (int_of_string raw)
      | G_OPTION_ARG_STRING_ARRAY \<Rightarrow> Some (Strv_val (split_list sep raw)))"

text \<open>
  Modelled from the spec: \<^verbatim>\<open>chassis_keyfile_to_options\<close> is defined in
  \<^verbatim>\<open>chassis-keyfile.c\<close>, which is not under src/.  The spec (2, 4.3): config-file
  values are overlaid for unset options; a value not supplied on the command line and
  present in the section is copied into the target slot; a value supplied on the
  command line is never overwritten.  So an entry whose slot is set is passed over, and
  so is an entry whose long name is not a key of the section.  The spec does not say
  when the overlay fails (line 347 tests for it): here it fails, with \<open>- 1\<close>, at the
  first value that does not convert to its option's kind.
\<close>

fun keyfile_to_options_loop ::
  "char \<Rightarrow> (string \<rightharpoonup> string) \<Rightarrow> GOptionEntry list \<Rightarrow> memory \<Rightarrow> int \<times> memory" where
  "keyfile_to_options_loop sep section [] m = (0, m)"
| "keyfile_to_options_loop sep section (e # entries) m =
     (if m (arg_data e) \<noteq> None then keyfile_to_options_loop sep section entries m
      else
        (case section (long_name e) of
           None \<Rightarrow> keyfile_to_options_loop sep section entries m
         | Some raw \<Rightarrow>
             (case keyfile_value sep (arg e) raw of
                None \<Rightarrow> (- 1, m)
              | Some v \<Rightarrow> keyfile_to_options_loop sep section entries (m(arg_data e \<mapsto> v)))))"

definition chassis_keyfile_to_options ::
  "GKeyFile \<Rightarrow> string \<Rightarrow> GOptionEntry list \<Rightarrow> memory \<Rightarrow> int \<times> memory" where
  "chassis_keyfile_to_options keyfile ini_group_name config_entries m =
     (case groups keyfile ini_group_name of
        None \<Rightarrow> (0, m)
      | Some section \<Rightarrow>
          keyfile_to_options_loop (list_separator keyfile) section config_entries m)"

text \<open>
  Modelled from the spec: \<^verbatim>\<open>chassis_keyfile_resolve_path\<close> is defined in
  \<^verbatim>\<open>chassis-keyfile.c\<close>, which is not under src/.  The spec (3, 4.1): a value typed
  as a filesystem path is rewritten to an absolute path anchored at the base directory
  if it was relative; an absolute value passes through unchanged; the join uses the
  platform's path separator.
\<close>

definition normalize_path :: "platform \<Rightarrow> (string \<Rightarrow> bool) \<Rightarrow> string \<Rightarrow> string \<Rightarrow> string" where
  "normalize_path pf path_is_absolute val base_dir =
     (if path_is_absolute val then val else base_dir @ [G_DIR_SEPARATOR pf] @ val)"

fun chassis_keyfile_resolve_path ::
  "platform \<Rightarrow> (string \<Rightarrow> bool) \<Rightarrow> string \<Rightarrow> GOptionEntry list \<Rightarrow> memory \<Rightarrow> memory" where
  "chassis_keyfile_resolve_path pf path_is_absolute base_dir [] m = m"
| "chassis_keyfile_resolve_path pf path_is_absolute base_dir (e # config_entries) m =
     chassis_keyfile_resolve_path pf path_is_absolute base_dir config_entries
       (if arg e = G_OPTION_ARG_FILENAME then
          (case m (arg_data e) of
             Some (Str_val p) \<Rightarrow>
               m(arg_data e \<mapsto> Str_val (normalize_path pf path_is_absolute p base_dir))
           | _ \<Rightarrow> m)
        else m)"

subsection \<open>Registering the plugins' options (lines 314-358)\<close>

text \<open>
  The loop of lines 321-355 over the plugins from index \<open>i\<close> on.  The state is the
  option context, \<open>argv\<close> and the memory of the option slots; \<open>keyfile\<close> is \<open>None\<close>
  for \<^verbatim>\<open>NULL\<close>.  The group added for a plugin is named by the plugin's \<open>name\<close>
  (line 329); its description and help text are left out.  The section passed to
  \<^verbatim>\<open>chassis_keyfile_to_options\<close> is the literal of line 347.
\<close>

fun init_plugins_loop ::
  "platform \<Rightarrow> (string \<Rightarrow> bool) \<Rightarrow> GKeyFile option \<Rightarrow> string \<Rightarrow> chassis_plugin list \<Rightarrow>
   GOptionContext \<Rightarrow> string list \<Rightarrow> memory \<Rightarrow>
   int \<times> GOptionContext \<times> string list \<times> memory \<times> event list" where
  "init_plugins_loop pf path_is_absolute keyfile base_dir [] option_ctx argv m =
     (0, option_ctx, argv, m, [])"
| "init_plugins_loop pf path_is_absolute keyfile base_dir (p # plugins) option_ctx argv m =
     (case chassis_plugin_get_options p of
        None \<Rightarrow> init_plugins_loop pf path_is_absolute keyfile base_dir plugins option_ctx argv m
      | Some config_entries \<Rightarrow>
          (case g_option_context_parse
                  (g_option_context_add_group option_ctx (name p, config_entries)) argv m of
             None \<Rightarrow>
               (- 1, g_option_context_add_group option_ctx (name p, config_entries), argv, m,
                [Critical ''%s'' [''gerr->message'']])
           | Some (argv', m') \<Rightarrow>
               (case (case keyfile of
                        None \<Rightarrow> (0, m')
                      | Some kf \<Rightarrow>
                          chassis_keyfile_to_options kf ''mysql-proxy'' config_entries m') of
                  (r, m'') \<Rightarrow>
                    if r \<noteq> 0 then
                      (- 1, g_option_context_add_group option_ctx (name p, config_entries),
                       argv', m'', [])
                    else
                      init_plugins_loop pf path_is_absolute keyfile base_dir plugins
                        (g_option_context_add_group option_ctx (name p, config_entries)) argv'
                        (chassis_keyfile_resolve_path pf path_is_absolute base_dir
                           config_entries m''))))"

definition chassis_frontend_init_plugins ::
  "platform \<Rightarrow> (string \<Rightarrow> bool) \<Rightarrow> chassis_plugin list \<Rightarrow> GOptionContext \<Rightarrow> string list \<Rightarrow>
   GKeyFile option \<Rightarrow> string \<Rightarrow> memory \<Rightarrow>
   int \<times> GOptionContext \<times> string list \<times> memory \<times> event list" where
  "chassis_frontend_init_plugins pf path_is_absolute plugins option_ctx argv keyfile base_dir m =
     init_plugins_loop pf path_is_absolute keyfile base_dir plugins option_ctx argv m"

subsection \<open>The base options (lines 359-385 and 415-426)\<close>

text \<open>
  Modelled from the spec: \<^verbatim>\<open>chassis_options_new\<close>, \<^verbatim>\<open>chassis_options_add\<close> and
  \<^verbatim>\<open>chassis_options_to_g_option_entries\<close> are defined in \<^verbatim>\<open>chassis-options.c\<close>,
  which is not under src/.  The spec (2): the registry is an ordered collection of
  option descriptors, starting empty.
\<close>

definition chassis_options_new :: "GOptionEntry list" where
  "chassis_options_new = []"

definition chassis_options_add ::
  "GOptionEntry list \<Rightarrow> string \<Rightarrow> char option \<Rightarrow> GOptionArg \<Rightarrow> nat \<Rightarrow> GOptionEntry list" where
  "chassis_options_add opts long short kind data =
     opts @ [\<lparr>long_name = long, short_name = short, arg = kind, arg_data = data\<rparr>]"

definition chassis_options_to_g_option_entries :: "GOptionEntry list \<Rightarrow> GOptionEntry list" where
  "chassis_options_to_g_option_entries opts = opts"

text \<open>Lines 415-426; \<open>print_version\<close> and \<open>config_file\<close> are the addresses of the slots.\<close>

definition chassis_options_set_cmdline_only_options ::
  "GOptionEntry list \<Rightarrow> nat \<Rightarrow> nat \<Rightarrow> int \<times> GOptionEntry list" where
  "chassis_options_set_cmdline_only_options opts print_version config_file =
     (0,
      chassis_options_add
        (chassis_options_add opts ''version'' (Some (CHR ''V'')) G_OPTION_ARG_NONE print_version)
        ''defaults-file'' None G_OPTION_ARG_STRING config_file)"

text \<open>Lines 359-385.\<close>

definition chassis_frontend_init_base_options ::
  "GOptionContext \<Rightarrow> string list \<Rightarrow> memory \<Rightarrow> nat \<Rightarrow> nat \<Rightarrow>
   int \<times> GOptionContext \<times> string list \<times> memory" where
  "chassis_frontend_init_base_options option_ctx argv m print_version config_file =
     (let opts = snd (chassis_options_set_cmdline_only_options chassis_options_new
                        print_version config_file);
          base_main_entries = chassis_options_to_g_option_entries opts;
          ctx1 = g_option_context_add_main_entries option_ctx base_main_entries;
          ctx2 = g_option_context_set_help_enabled ctx1 False;
          ctx3 = g_option_context_set_ignore_unknown_options ctx2 True
      in case g_option_context_parse ctx3 argv m of
           None \<Rightarrow> (- 1, ctx3, argv, m)
         | Some (argv', m') \<Rightarrow> (0, ctx3, argv', m'))"

subsection \<open>Opening the configuration file (lines 387-410)\<close>

text \<open>
  \<open>filemode_check\<close> is \<^verbatim>\<open>chassis_filemode_check\<close> of \<^verbatim>\<open>chassis-filemode.c\<close>.
  \<open>load_from_file\<close> is GLib's \<^verbatim>\<open>g_key_file_load_from_file\<close>: the groups it reads
  from the file, or the message of the error it sets.  The result is the key file
  returned (\<open>None\<close> for \<^verbatim>\<open>NULL\<close>) and the events in the order they happen.
\<close>

definition chassis_frontend_open_config_file ::
  "(string \<Rightarrow> int) \<Rightarrow> (string \<Rightarrow> string + (string \<rightharpoonup> (string \<rightharpoonup> string))) \<Rightarrow> string \<Rightarrow>
   GKeyFile option \<times> event list" where
  "chassis_frontend_open_config_file filemode_check load_from_file filename =
     (if filemode_check filename \<noteq> 0 then (None, [Call_chassis_filemode_check filename])
      else
        (case load_from_file filename of
           Inl message \<Rightarrow>
             (None,
              [Call_chassis_filemode_check filename,
               Call_g_key_file_load_from_file filename,
               Critical ''%s: loading configuration from %s failed: %s''
                 [''G_STRLOC'', filename, message]])
         | Inr gs \<Rightarrow>
             (Some \<lparr>list_separator = CHR '','', groups = gs\<rparr>,
              [Call_chassis_filemode_check filename,
               Call_g_key_file_load_from_file filename])))"

subsection \<open>Writing the pid file (lines 443-482)\<close>

text \<open>
  The file system maps a path to the file there, a file being its permission bits and
  its contents.  Whether the two system calls succeed is decided outside the program:
  \<open>open_errno\<close> is \<open>None\<close> when \<^verbatim>\<open>open(pid_file, O_WRONLY|O_TRUNC|O_CREAT, 0600)\<close>
  succeeds and \<open>Some errno\<close> when it returns \<open>- 1\<close>, which leaves the file system as it
  was.  \<open>write_result\<close> is \<open>Inl errno\<close> when \<^verbatim>\<open>write\<close> returns a negative number and
  \<open>Inr n\<close> when it returns \<open>n\<close>, having written the first \<open>n\<close> bytes.  \<open>pid\<close> is what
  \<^verbatim>\<open>getpid\<close> returns, and \<open>umask\<close> what the process's file mode creation mask
  makes of the mode asked for.  \<open>file_error_from_errno\<close> is GLib's
  \<^verbatim>\<open>g_file_error_from_errno\<close>, which gives the code of the error from \<open>errno\<close>
  (lines 456 and 469).
\<close>

record regular_file =
  mode :: nat
  contents :: string

text \<open>
  A successful \<^verbatim>\<open>open\<close> with \<^verbatim>\<open>O_TRUNC|O_CREAT\<close>: a file that is there is emptied,
  keeping its mode; otherwise an empty file is created with the mode asked for, as
  masked.
\<close>

definition open_trunc_creat ::
  "(nat \<Rightarrow> nat) \<Rightarrow> nat \<Rightarrow> string \<Rightarrow> (string \<rightharpoonup> regular_file) \<Rightarrow> (string \<rightharpoonup> regular_file)" where
  "open_trunc_creat umask m path fs =
     fs(path \<mapsto>
        (case fs path of
           None \<Rightarrow> \<lparr>mode = umask m, contents = []\<rparr>
         | Some f \<Rightarrow> f\<lparr>contents := []\<rparr>))"

text \<open>A successful \<^verbatim>\<open>write\<close> of \<open>data\<close> at the end of the file.\<close>

definition write_file :: "string \<Rightarrow> string \<Rightarrow> (string \<rightharpoonup> regular_file) \<Rightarrow> (string \<rightharpoonup> regular_file)" where
  "write_file path data fs =
     (case fs path of None \<Rightarrow> fs | Some f \<Rightarrow> fs(path \<mapsto> f\<lparr>contents := contents f @ data\<rparr>))"

text \<open>
  An error of the domain \<^verbatim>\<open>G_FILE_ERROR\<close>: its code, the format of its message and
  the string arguments of the format.
\<close>

datatype GError = G_FILE_ERROR nat string "string list"

text \<open>Lines 443-482; the mode \<^verbatim>\<open>0600\<close> is 384.\<close>

definition chassis_frontend_write_pidfile ::
  "(nat \<Rightarrow> nat) \<Rightarrow> (nat \<Rightarrow> nat) \<Rightarrow> int \<Rightarrow> nat option \<Rightarrow> nat + nat \<Rightarrow> string \<Rightarrow>
   (string \<rightharpoonup> regular_file) \<Rightarrow> int \<times> GError option \<times> (string \<rightharpoonup> regular_file)" where
  "chassis_frontend_write_pidfile file_error_from_errno umask pid open_errno write_result pid_file
     fs =
     (case open_errno of
        Some errno \<Rightarrow>
          (- 1,
           Some (G_FILE_ERROR (file_error_from_errno errno) ''%s: open(%s) failed: %s''
                   [''G_STRLOC'', pid_file, ''g_strerror(errno)'']),
           fs)
      | None \<Rightarrow>
          (case write_result of
             Inl errno \<Rightarrow>
               (- 1,
                Some (G_FILE_ERROR (file_error_from_errno errno)
                        ''%s: write(%s) of %s failed: %s''
                        [''G_STRLOC'', pid_file, string_of_int pid, ''g_strerror(errno)'']),
                open_trunc_creat umask 384 pid_file fs)
           | Inr n \<Rightarrow>
               (0, None,
                write_file pid_file (take n (string_of_int pid))
                  (open_trunc_creat umask 384 pid_file fs))))"

subsection \<open>Sample inputs\<close>

text \<open>A module directory in which only \<^verbatim>\<open>/p/liba.so\<close> and \<^verbatim>\<open>/p/libfoo.so\<close> load.\<close>

definition plugin_a :: chassis_plugin where
  "plugin_a = \<lparr>name = ''a'', chassis_plugin_get_options = None\<rparr>"

definition plugin_foo :: chassis_plugin where
  "plugin_foo = \<lparr>name = ''foo'', chassis_plugin_get_options = None\<rparr>"

definition load_a_foo :: "string \<Rightarrow> chassis_plugin option" where
  "load_a_foo filename =
     (if filename = ''/p/liba.so'' then Some plugin_a
      else if filename = ''/p/libfoo.so'' then Some plugin_foo
      else None)"

text \<open>An installation under \<^verbatim>\<open>/opt/proxy\<close>: the base directory of its program only.\<close>

definition basedir_of_opt_proxy :: "string \<Rightarrow> string option" where
  "basedir_of_opt_proxy prg_name =
     (if prg_name = ''/opt/proxy/bin/mysql-proxy'' then Some ''/opt/proxy'' else None)"

text \<open>
  Two environments over a map from variable names to values: one in which setting a
  variable always fails, one in which it reports success and stores nothing.
\<close>

definition failing_environment :: "(string \<rightharpoonup> string) environment" where
  "failing_environment =
     \<lparr>putenv = (\<lambda>key val w. (- 1, w)), getenv = (\<lambda>key w. w key),
      g_getenv = (\<lambda>key w. w key)\<rparr>"

definition forgetful_environment :: "(string \<rightharpoonup> string) environment" where
  "forgetful_environment =
     \<lparr>putenv = (\<lambda>key val w. (0, w)), getenv = (\<lambda>key w. w key),
      g_getenv = (\<lambda>key w. w key)\<rparr>"

text \<open>
  Three configuration files: one that fails the permission check, one that passes it and
  does not parse, one that passes it and holds a \<^verbatim>\<open>[mysql-proxy]\<close> section.
\<close>

definition sample_filemode_check :: "string \<Rightarrow> int" where
  "sample_filemode_check filename = (if filename = ''/etc/world-writable.cnf'' then - 1 else 0)"

definition sample_load_from_file :: "string \<Rightarrow> string + (string \<rightharpoonup> (string \<rightharpoonup> string))" where
  "sample_load_from_file filename =
     (if filename = ''/etc/proxy.cnf'' then
        Inr [''mysql-proxy'' \<mapsto> [''proxy-address'' \<mapsto> '':4040'']]
      else Inl ''Key file does not start with a group'')"

text \<open>
  Two plugins with options.  \<^verbatim>\<open>proxy\<close> has a string option in slot 10 and a file name
  option in slot 11; \<^verbatim>\<open>admin\<close> has a string option in slot 20.
\<close>

definition plugin_proxy :: chassis_plugin where
  "plugin_proxy =
     \<lparr>name = ''proxy'',
      chassis_plugin_get_options =
        Some [\<lparr>long_name = ''proxy-address'', short_name = None, arg = G_OPTION_ARG_STRING,
                arg_data = 10\<rparr>,
              \<lparr>long_name = ''proxy-lua-script'', short_name = None,
                arg = G_OPTION_ARG_FILENAME, arg_data = 11\<rparr>]\<rparr>"

definition plugin_admin :: chassis_plugin where
  "plugin_admin =
     \<lparr>name = ''admin'',
      chassis_plugin_get_options =
        Some [\<lparr>long_name = ''admin-address'', short_name = None, arg = G_OPTION_ARG_STRING,
                arg_data = 20\<rparr>]\<rparr>"

text \<open>
  A key file with a \<^verbatim>\<open>[mysql-proxy]\<close> section and a section named after each of
  the two plugins.
\<close>

definition sample_keyfile :: GKeyFile where
  "sample_keyfile =
     \<lparr>list_separator = CHR '','',
      groups =
        [''mysql-proxy'' \<mapsto>
           [''proxy-address'' \<mapsto> '':4040'', ''proxy-lua-script'' \<mapsto> ''lua/rw.lua'',
            ''admin-address'' \<mapsto> '':4041''],
         ''proxy'' \<mapsto> [''proxy-address'' \<mapsto> '':5050''],
         ''admin'' \<mapsto> [''admin-address'' \<mapsto> '':5051'']]\<rparr>"

text \<open>The same key file without the sections named after the plugins.\<close>

definition sample_keyfile_main_only :: GKeyFile where
  "sample_keyfile_main_only =
     \<lparr>list_separator = CHR '','',
      groups =
        [''mysql-proxy'' \<mapsto>
           [''proxy-address'' \<mapsto> '':4040'', ''proxy-lua-script'' \<mapsto> ''lua/rw.lua'',
            ''admin-address'' \<mapsto> '':4041'']]\<rparr>"

text \<open>
  Some values of \<^verbatim>\<open>g_file_error_from_errno\<close> on Linux: \<^verbatim>\<open>ENOENT\<close> (2) gives
  \<^verbatim>\<open>G_FILE_ERROR_NOENT\<close> (4), \<^verbatim>\<open>EACCES\<close> (13) gives \<^verbatim>\<open>G_FILE_ERROR_ACCES\<close> (2),
  \<^verbatim>\<open>ENOSPC\<close> (28) gives \<^verbatim>\<open>G_FILE_ERROR_NOSPC\<close> (12); the others are taken to
  \<^verbatim>\<open>G_FILE_ERROR_FAILED\<close> (24) here.
\<close>

definition sample_file_error_from_errno :: "nat \<Rightarrow> nat" where
  "sample_file_error_from_errno errno =
     (if errno = 2 then 4 else if errno = 13 then 2 else if errno = 28 then 12 else 24)"

section \<open>Properties\<close>

subsection \<open>Loading plugins\<close>

text \<open>What the loop returns, for any list of names and any loader.\<close>

lemma load_plugins_loop_eq:
  "load_plugins_loop pf load dir ns plugins =
     (if list_all (loads pf load dir) (filter requested ns) then 0 else - 1,
      plugins @ map (\<lambda>n. the (load (plugin_filename pf dir n)))
        (takeWhile (loads pf load dir) (filter requested ns)),
      map (\<lambda>n. Call_chassis_plugin_load (plugin_filename pf dir n))
        (takeWhile (loads pf load dir) (filter requested ns)) @
      (case dropWhile (loads pf load dir) (filter requested ns) of
         [] \<Rightarrow> []
       | n # _ \<Rightarrow> [Call_chassis_plugin_load (plugin_filename pf dir n),
                   Critical ''setting --plugin-dir=<dir> might help'' []]))"
proof (induction ns arbitrary: plugins)
  case Nil
  show ?case by simp
next
  case (Cons n ns)
  show ?case
  proof (cases "n = []")
    case True
    then show ?thesis using Cons.IH [of plugins] by (simp add: requested_def)
  next
    case False
    show ?thesis
    proof (cases "load (plugin_filename pf dir n)")
      case None
      then show ?thesis using False by (simp add: requested_def loads_def)
    next
      case (Some p)
      then show ?thesis using False Cons.IH [of "plugins @ [p]"]
        by (simp add: requested_def loads_def)
    qed
  qed
qed

lemma takeWhile_list_all: "list_all P xs \<Longrightarrow> takeWhile P xs = xs"
  by (induction xs) auto

lemma dropWhile_list_all: "list_all P xs \<Longrightarrow> dropWhile P xs = []"
  by (induction xs) auto

text \<open>
  C6.  \<^verbatim>\<open>chassis_frontend_load_plugins\<close> loads nothing and succeeds for a \<^verbatim>\<open>NULL\<close>
  or empty list of names.  It passes over every empty name; when the file of every
  other name loads, it returns 0 having appended, in the order of the request, the
  plugin loaded for each non-empty name, and having called \<^verbatim>\<open>chassis_plugin_load\<close>
  once for each of them: for \<^verbatim>\<open>["", "foo"]\<close> that is the one plugin for \<^verbatim>\<open>foo\<close>.
\<close>

theorem load_plugins_one_per_nonempty_name:
  "chassis_frontend_load_plugins pf load plugins dir None = (0, plugins, []) \<and>
   chassis_frontend_load_plugins pf load plugins dir (Some []) = (0, plugins, []) \<and>
   (list_all (loads pf load dir) (filter (\<lambda>n. n \<noteq> []) ns) \<longrightarrow>
    chassis_frontend_load_plugins pf load plugins dir (Some ns) =
      (0,
       plugins @ map (\<lambda>n. the (load (plugin_filename pf dir n))) (filter (\<lambda>n. n \<noteq> []) ns),
       map (\<lambda>n. Call_chassis_plugin_load (plugin_filename pf dir n)) (filter (\<lambda>n. n \<noteq> []) ns)))"
proof (intro conjI impI)
  show "chassis_frontend_load_plugins pf load plugins dir None = (0, plugins, [])"
    by (simp add: chassis_frontend_load_plugins_def)
  show "chassis_frontend_load_plugins pf load plugins dir (Some []) = (0, plugins, [])"
    by (simp add: chassis_frontend_load_plugins_def)
next
  have r: "(\<lambda>n. n \<noteq> []) = requested" by (simp add: requested_def fun_eq_iff)
  assume "list_all (loads pf load dir) (filter (\<lambda>n. n \<noteq> []) ns)"
  then have all: "list_all (loads pf load dir) (filter requested ns)" by (simp add: r)
  show "chassis_frontend_load_plugins pf load plugins dir (Some ns) =
      (0,
       plugins @ map (\<lambda>n. the (load (plugin_filename pf dir n))) (filter (\<lambda>n. n \<noteq> []) ns),
       map (\<lambda>n. Call_chassis_plugin_load (plugin_filename pf dir n)) (filter (\<lambda>n. n \<noteq> []) ns))"
    using all
    by (simp add: chassis_frontend_load_plugins_def load_plugins_loop_eq r
        takeWhile_list_all [OF all] dropWhile_list_all [OF all])
qed

text \<open>
  C6 on the names \<^verbatim>\<open>["", "foo"]\<close>.
\<close>

theorem load_plugins_one_per_nonempty_name_witness:
  "chassis_frontend_load_plugins unix_platform load_a_foo [] ''/p'' (Some ['''', ''foo'']) =
     (0, [plugin_foo], [Call_chassis_plugin_load ''/p/libfoo.so''])"
  using load_plugins_one_per_nonempty_name [of unix_platform load_a_foo "[]" "''/p''" "['''', ''foo'']"]
  by (simp add: loads_def plugin_filename_def unix_platform_def G_MODULE_PREFIX_def load_a_foo_def)

text \<open>
  C3, as stated, fails: when \<^verbatim>\<open>liba.so\<close> loads and \<^verbatim>\<open>libb.so\<close> does not, the call
  for \<^verbatim>\<open>["a", "b", "foo"]\<close> on an empty collection returns \<open>- 1\<close> and leaves the
  plugin for \<^verbatim>\<open>a\<close> in the collection.
\<close>

theorem load_plugins_no_partial_set_counterexample:
  "chassis_frontend_load_plugins unix_platform load_a_foo [] ''/p'' (Some [''a'', ''b'', ''foo'']) =
     (- 1, [plugin_a],
      [Call_chassis_plugin_load ''/p/liba.so'', Call_chassis_plugin_load ''/p/libb.so'',
       Critical ''setting --plugin-dir=<dir> might help'' []])"
  by (simp add: chassis_frontend_load_plugins_def plugin_filename_def unix_platform_def
      G_MODULE_PREFIX_def load_a_foo_def)

text \<open>
  C3, amended.  If the file of a requested, non-empty name does not load,
  \<^verbatim>\<open>chassis_frontend_load_plugins\<close> returns \<open>- 1\<close>; the collection then holds what it
  held before the call followed by the plugins of the non-empty names before the first
  one that failed, in the order of the request.  Nothing is taken out again.
\<close>

theorem load_plugins_failure_keeps_loaded_prefix:
  assumes "n \<in> set ns" and "n \<noteq> []" and "load (plugin_filename pf dir n) = None"
  shows "fst (chassis_frontend_load_plugins pf load plugins dir (Some ns)) = - 1 \<and>
         fst (snd (chassis_frontend_load_plugins pf load plugins dir (Some ns))) =
           plugins @ map (\<lambda>n. the (load (plugin_filename pf dir n)))
             (takeWhile (loads pf load dir) (filter (\<lambda>n. n \<noteq> []) ns))"
proof -
  have r: "(\<lambda>n. n \<noteq> []) = requested" by (simp add: requested_def fun_eq_iff)
  have "n \<in> set (filter requested ns)" "\<not> loads pf load dir n"
    using assms by (simp_all add: requested_def loads_def)
  then have "\<not> list_all (loads pf load dir) (filter requested ns)"
    unfolding list_all_iff by blast
  then show ?thesis
    by (simp add: chassis_frontend_load_plugins_def load_plugins_loop_eq r)
qed

text \<open>
  C3, amended, on the sample directory: \<^verbatim>\<open>b\<close> does not load, and the plugin of
  \<^verbatim>\<open>a\<close> stays.
\<close>

theorem load_plugins_failure_keeps_loaded_prefix_witness:
  "fst (chassis_frontend_load_plugins unix_platform load_a_foo [] ''/p'' (Some [''a'', ''b'', ''foo''])) = - 1 \<and>
   fst (snd (chassis_frontend_load_plugins unix_platform load_a_foo [] ''/p'' (Some [''a'', ''b'', ''foo'']))) = [plugin_a]"
  using load_plugins_failure_keeps_loaded_prefix [of "''b''" "[''a'', ''b'', ''foo'']" load_a_foo unix_platform "''/p''" "[]"]
  by (simp add: loads_def plugin_filename_def unix_platform_def G_MODULE_PREFIX_def load_a_foo_def)

text \<open>
  C8.  The file name passed to \<^verbatim>\<open>chassis_plugin_load\<close> for a non-empty plugin name
  is the directory, the path separator, the platform's prefix, the name and the
  platform's suffix, which is a dot and \<^verbatim>\<open>SHARED_LIBRARY_SUFFIX\<close>; on a Unix-like
  platform that is \<^verbatim>\<open><dir>/lib<name>.so\<close>.  Every file the function tries to load
  is built so from a non-empty requested name.
\<close>

theorem plugin_file_name_is_dir_prefix_name_suffix:
  "(n \<noteq> [] \<longrightarrow>
      chassis_frontend_load_plugins pf load plugins dir (Some [n]) =
        (case load (dir @ [G_DIR_SEPARATOR pf] @ G_MODULE_PREFIX pf @ n @ ''.'' @ SHARED_LIBRARY_SUFFIX pf) of
           None \<Rightarrow>
             (- 1, plugins,
              [Call_chassis_plugin_load
                 (dir @ [G_DIR_SEPARATOR pf] @ G_MODULE_PREFIX pf @ n @ ''.'' @ SHARED_LIBRARY_SUFFIX pf),
               Critical ''setting --plugin-dir=<dir> might help'' []])
         | Some p \<Rightarrow>
             (0, plugins @ [p],
              [Call_chassis_plugin_load
                 (dir @ [G_DIR_SEPARATOR pf] @ G_MODULE_PREFIX pf @ n @ ''.'' @ SHARED_LIBRARY_SUFFIX pf)]))) \<and>
   (\<forall>f. Call_chassis_plugin_load f \<in>
          set (snd (snd (chassis_frontend_load_plugins pf load plugins dir (Some ns)))) \<longrightarrow>
        (\<exists>n\<in>set ns. n \<noteq> [] \<and>
           f = dir @ [G_DIR_SEPARATOR pf] @ G_MODULE_PREFIX pf @ n @ ''.'' @ SHARED_LIBRARY_SUFFIX pf))"
proof (intro conjI impI allI)
  assume "n \<noteq> []"
  then show "chassis_frontend_load_plugins pf load plugins dir (Some [n]) =
        (case load (dir @ [G_DIR_SEPARATOR pf] @ G_MODULE_PREFIX pf @ n @ ''.'' @ SHARED_LIBRARY_SUFFIX pf) of
           None \<Rightarrow>
             (- 1, plugins,
              [Call_chassis_plugin_load
                 (dir @ [G_DIR_SEPARATOR pf] @ G_MODULE_PREFIX pf @ n @ ''.'' @ SHARED_LIBRARY_SUFFIX pf),
               Critical ''setting --plugin-dir=<dir> might help'' []])
         | Some p \<Rightarrow>
             (0, plugins @ [p],
              [Call_chassis_plugin_load
                 (dir @ [G_DIR_SEPARATOR pf] @ G_MODULE_PREFIX pf @ n @ ''.'' @ SHARED_LIBRARY_SUFFIX pf)]))"
    by (simp add: chassis_frontend_load_plugins_def plugin_filename_def split: option.splits)
next
  fix f
  let ?ok = "loads pf load dir"
  let ?ns = "filter requested ns"
  assume "Call_chassis_plugin_load f \<in>
          set (snd (snd (chassis_frontend_load_plugins pf load plugins dir (Some ns))))"
  then have "f \<in> plugin_filename pf dir ` set (takeWhile ?ok ?ns) \<or>
    (\<exists>n rest. dropWhile ?ok ?ns = n # rest \<and> f = plugin_filename pf dir n)"
    by (cases "dropWhile ?ok ?ns")
       (auto simp add: chassis_frontend_load_plugins_def load_plugins_loop_eq)
  then have "f \<in> plugin_filename pf dir ` set ?ns"
  proof
    assume "f \<in> plugin_filename pf dir ` set (takeWhile ?ok ?ns)"
    then obtain n where "n \<in> set (takeWhile ?ok ?ns)" and f: "f = plugin_filename pf dir n"
      by blast
    then have "n \<in> set ?ns" by (meson set_takeWhileD)
    then show ?thesis using f by blast
  next
    assume "\<exists>n rest. dropWhile ?ok ?ns = n # rest \<and> f = plugin_filename pf dir n"
    then obtain n rest where d: "dropWhile ?ok ?ns = n # rest" and f: "f = plugin_filename pf dir n"
      by blast
    have "n \<in> set (dropWhile ?ok ?ns)" using d by simp
    then have "n \<in> set ?ns" by (rule set_dropWhileD)
    then show ?thesis using f by blast
  qed
  then show "\<exists>n\<in>set ns. n \<noteq> [] \<and>
           f = dir @ [G_DIR_SEPARATOR pf] @ G_MODULE_PREFIX pf @ n @ ''.'' @ SHARED_LIBRARY_SUFFIX pf"
    by (auto simp add: plugin_filename_def requested_def)
qed

text \<open>
  C8 on a Unix-like platform: \<^verbatim>\<open>foo\<close> in \<^verbatim>\<open>/p\<close> is \<^verbatim>\<open>/p/libfoo.so\<close>.
\<close>

theorem plugin_file_name_is_dir_prefix_name_suffix_witness:
  "chassis_frontend_load_plugins unix_platform load_a_foo [] ''/p'' (Some [''foo'']) =
     (0, [plugin_foo], [Call_chassis_plugin_load ''/p/libfoo.so''])"
  using plugin_file_name_is_dir_prefix_name_suffix [of "''foo''" unix_platform load_a_foo "[]" "''/p''" "[]"]
  by (simp add: unix_platform_def G_MODULE_PREFIX_def load_a_foo_def)

subsection \<open>The base directory\<close>

text \<open>
  C2.  For an explicit base directory that is not absolute,
  \<^verbatim>\<open>chassis_frontend_init_basedir\<close> returns \<open>- 1\<close>, leaves \<^verbatim>\<open>*_base_dir\<close> as it was
  and does not call \<^verbatim>\<open>chassis_get_basedir\<close>.  For an absolute one it returns 0,
  leaves \<^verbatim>\<open>*_base_dir\<close> as it was and does nothing else.  When \<^verbatim>\<open>*_base_dir\<close> is
  \<^verbatim>\<open>NULL\<close> it calls \<^verbatim>\<open>chassis_get_basedir\<close> on the program name, stores what that
  returns and returns \<open>- 1\<close> exactly when it returned \<^verbatim>\<open>NULL\<close>.
\<close>

theorem init_basedir_explicit_must_be_absolute:
  "(\<not> path_is_absolute d \<longrightarrow>
      fst (chassis_frontend_init_basedir path_is_absolute get_basedir prg_name (Some d)) = - 1 \<and>
      fst (snd (chassis_frontend_init_basedir path_is_absolute get_basedir prg_name (Some d))) =
        Some d \<and>
      (\<forall>x. Call_chassis_get_basedir x \<notin>
         set (snd (snd (chassis_frontend_init_basedir path_is_absolute get_basedir prg_name
                          (Some d)))))) \<and>
   (path_is_absolute d \<longrightarrow>
      chassis_frontend_init_basedir path_is_absolute get_basedir prg_name (Some d) =
        (0, Some d, [])) \<and>
   fst (chassis_frontend_init_basedir path_is_absolute get_basedir prg_name None) =
     (if get_basedir prg_name = None then - 1 else 0) \<and>
   fst (snd (chassis_frontend_init_basedir path_is_absolute get_basedir prg_name None)) =
     get_basedir prg_name \<and>
   Call_chassis_get_basedir prg_name \<in>
     set (snd (snd (chassis_frontend_init_basedir path_is_absolute get_basedir prg_name None)))"
  by (simp add: chassis_frontend_init_basedir_def split: option.splits)

text \<open>
  C2 on a relative directory, an absolute one, and no directory for a program whose
  base directory is found and for one whose base directory is not.
\<close>

theorem init_basedir_explicit_must_be_absolute_witness:
  "chassis_frontend_init_basedir unix_path_is_absolute basedir_of_opt_proxy
     ''/opt/proxy/bin/mysql-proxy'' (Some ''share/proxy'') =
     (- 1, Some ''share/proxy'',
      [Critical ''%s: --basedir option must be an absolute path, but was %s''
         [''G_STRLOC'', ''share/proxy'']]) \<and>
   chassis_frontend_init_basedir unix_path_is_absolute basedir_of_opt_proxy
     ''/opt/proxy/bin/mysql-proxy'' (Some ''/srv/proxy'') = (0, Some ''/srv/proxy'', []) \<and>
   fst (chassis_frontend_init_basedir unix_path_is_absolute basedir_of_opt_proxy
     ''/opt/proxy/bin/mysql-proxy'' None) = 0 \<and>
   fst (snd (chassis_frontend_init_basedir unix_path_is_absolute basedir_of_opt_proxy
     ''/opt/proxy/bin/mysql-proxy'' None)) = Some ''/opt/proxy'' \<and>
   fst (chassis_frontend_init_basedir unix_path_is_absolute basedir_of_opt_proxy
     ''mysql-proxy'' None) = - 1"
  using init_basedir_explicit_must_be_absolute
          [of unix_path_is_absolute "''share/proxy''" basedir_of_opt_proxy
              "''/opt/proxy/bin/mysql-proxy''"]
        init_basedir_explicit_must_be_absolute
          [of unix_path_is_absolute "''/srv/proxy''" basedir_of_opt_proxy
              "''/opt/proxy/bin/mysql-proxy''"]
        init_basedir_explicit_must_be_absolute
          [of unix_path_is_absolute "''/srv/proxy''" basedir_of_opt_proxy "''mysql-proxy''"]
  by (simp add: unix_path_is_absolute_def basedir_of_opt_proxy_def
      chassis_frontend_init_basedir_def)

subsection \<open>Opening the configuration file\<close>

text \<open>
  C7.  \<^verbatim>\<open>chassis_frontend_open_config_file\<close> checks the file's mode first: a file that
  fails the check gives \<^verbatim>\<open>NULL\<close> and is never handed to the parser; a file that does
  not parse gives \<^verbatim>\<open>NULL\<close>; a key file is returned only when the check passed and the
  parser succeeded, and it holds what the parser read.
\<close>

theorem open_config_file_checks_before_parsing:
  "(filemode_check filename \<noteq> 0 \<longrightarrow>
      chassis_frontend_open_config_file filemode_check load_from_file filename =
        (None, [Call_chassis_filemode_check filename])) \<and>
   (load_from_file filename = Inl message \<longrightarrow>
      fst (chassis_frontend_open_config_file filemode_check load_from_file filename) = None) \<and>
   (fst (chassis_frontend_open_config_file filemode_check load_from_file filename) = Some kf \<longrightarrow>
      filemode_check filename = 0 \<and> load_from_file filename = Inr (groups kf)) \<and>
   take 1 (snd (chassis_frontend_open_config_file filemode_check load_from_file filename)) =
     [Call_chassis_filemode_check filename] \<and>
   (Call_g_key_file_load_from_file f \<in>
      set (snd (chassis_frontend_open_config_file filemode_check load_from_file filename)) \<longrightarrow>
    filemode_check filename = 0)"
  by (auto simp add: chassis_frontend_open_config_file_def split: sum.splits)

text \<open>
  C7 on a file that fails the check, a file that does not parse and a file that does.
\<close>

theorem open_config_file_checks_before_parsing_witness:
  "chassis_frontend_open_config_file sample_filemode_check sample_load_from_file
     ''/etc/world-writable.cnf'' = (None, [Call_chassis_filemode_check ''/etc/world-writable.cnf'']) \<and>
   fst (chassis_frontend_open_config_file sample_filemode_check sample_load_from_file
     ''/etc/broken.cnf'') = None \<and>
   fst (chassis_frontend_open_config_file sample_filemode_check sample_load_from_file
     ''/etc/proxy.cnf'') =
     Some \<lparr>list_separator = CHR '','',
           groups = [''mysql-proxy'' \<mapsto> [''proxy-address'' \<mapsto> '':4040'']]\<rparr>"
  using open_config_file_checks_before_parsing
          [of sample_filemode_check "''/etc/world-writable.cnf''" sample_load_from_file]
        open_config_file_checks_before_parsing
          [of sample_filemode_check "''/etc/broken.cnf''" sample_load_from_file
              "''Key file does not start with a group''"]
  by (simp add: sample_filemode_check_def sample_load_from_file_def
      chassis_frontend_open_config_file_def)

subsection \<open>The environment of the Lua interpreter\<close>

text \<open>
  C9.  \<^verbatim>\<open>chassis_frontend_init_lua_path\<close> and \<^verbatim>\<open>chassis_frontend_init_lua_cpath\<close>
  return 0 for every input and every behaviour of the environment.  When setting the
  variable fails, the failure is a diagnostic and the result is still 0; when setting
  it succeeds and reading it back gives something else, there is a diagnostic and the
  result is still 0.
\<close>

theorem init_lua_paths_always_return_0:
  "fst (chassis_frontend_init_lua_path pf env build_filename set_path base_dir prg_name w) = 0 \<and>
   fst (chassis_frontend_init_lua_cpath pf env build_filename set_path base_dir prg_name w) = 0 \<and>
   (fst (putenv env (LUA_PATH pf) p w) \<noteq> 0 \<longrightarrow>
      chassis_frontend_init_lua_path pf env build_filename (Some p) base_dir prg_name w =
        (0, snd (putenv env (LUA_PATH pf) p w),
         [Critical ''%s: setting %s = %s failed: %s''
            [''G_STRLOC'', LUA_PATH pf, p, ''g_strerror(errno)'']])) \<and>
   (fst (putenv env (LUA_CPATH pf) p w) \<noteq> 0 \<longrightarrow>
      chassis_frontend_init_lua_cpath pf env build_filename (Some p) base_dir prg_name w =
        (0, snd (putenv env (LUA_CPATH pf) p w),
         [Critical ''%s: setting %s = %s failed: %s''
            [''G_STRLOC'', LUA_CPATH pf, p, ''g_strerror(errno)'']])) \<and>
   (fst (putenv env (LUA_PATH pf) p w) = 0 \<and>
    getenv env (LUA_PATH pf) (snd (putenv env (LUA_PATH pf) p w)) \<noteq> Some p \<longrightarrow>
      fst (chassis_frontend_init_lua_path pf env build_filename (Some p) base_dir prg_name w) = 0 \<and>
      snd (snd (chassis_frontend_init_lua_path pf env build_filename (Some p) base_dir prg_name w))
        \<noteq> []) \<and>
   (fst (putenv env (LUA_CPATH pf) p w) = 0 \<and>
    getenv env (LUA_CPATH pf) (snd (putenv env (LUA_CPATH pf) p w)) \<noteq> Some p \<longrightarrow>
      fst (chassis_frontend_init_lua_cpath pf env build_filename (Some p) base_dir prg_name w) = 0 \<and>
      snd (snd (chassis_frontend_init_lua_cpath pf env build_filename (Some p) base_dir prg_name w))
        \<noteq> [])"
proof (intro conjI impI)
  show "fst (chassis_frontend_init_lua_path pf env build_filename set_path base_dir prg_name w) = 0"
    by (simp add: chassis_frontend_init_lua_path_def split: option.splits prod.splits)
  show "fst (chassis_frontend_init_lua_cpath pf env build_filename set_path base_dir prg_name w) = 0"
    by (simp add: chassis_frontend_init_lua_cpath_def split: option.splits prod.splits)
next
  assume "fst (putenv env (LUA_PATH pf) p w) \<noteq> 0"
  then show "chassis_frontend_init_lua_path pf env build_filename (Some p) base_dir prg_name w =
        (0, snd (putenv env (LUA_PATH pf) p w),
         [Critical ''%s: setting %s = %s failed: %s''
            [''G_STRLOC'', LUA_PATH pf, p, ''g_strerror(errno)'']])"
    by (cases "putenv env (LUA_PATH pf) p w")
       (simp add: chassis_frontend_init_lua_path_def chassis_frontend_lua_setenv_def)
next
  assume "fst (putenv env (LUA_CPATH pf) p w) \<noteq> 0"
  then show "chassis_frontend_init_lua_cpath pf env build_filename (Some p) base_dir prg_name w =
        (0, snd (putenv env (LUA_CPATH pf) p w),
         [Critical ''%s: setting %s = %s failed: %s''
            [''G_STRLOC'', LUA_CPATH pf, p, ''g_strerror(errno)'']])"
    by (cases "putenv env (LUA_CPATH pf) p w")
       (simp add: chassis_frontend_init_lua_cpath_def chassis_frontend_lua_setenv_def)
next
  assume a: "fst (putenv env (LUA_PATH pf) p w) = 0 \<and>
    getenv env (LUA_PATH pf) (snd (putenv env (LUA_PATH pf) p w)) \<noteq> Some p"
  show "fst (chassis_frontend_init_lua_path pf env build_filename (Some p) base_dir prg_name w) = 0"
    by (simp add: chassis_frontend_init_lua_path_def split: option.splits prod.splits)
  show "snd (snd (chassis_frontend_init_lua_path pf env build_filename (Some p) base_dir prg_name w))
        \<noteq> []"
    using a
    by (cases "putenv env (LUA_PATH pf) p w")
       (auto simp add: chassis_frontend_init_lua_path_def chassis_frontend_lua_setenv_def split: option.splits)
next
  assume a: "fst (putenv env (LUA_CPATH pf) p w) = 0 \<and>
    getenv env (LUA_CPATH pf) (snd (putenv env (LUA_CPATH pf) p w)) \<noteq> Some p"
  show "fst (chassis_frontend_init_lua_cpath pf env build_filename (Some p) base_dir prg_name w) = 0"
    by (simp add: chassis_frontend_init_lua_cpath_def split: option.splits prod.splits)
  show "snd (snd (chassis_frontend_init_lua_cpath pf env build_filename (Some p) base_dir prg_name w))
        \<noteq> []"
    using a
    by (cases "putenv env (LUA_CPATH pf) p w")
       (auto simp add: chassis_frontend_init_lua_cpath_def chassis_frontend_lua_setenv_def split: option.splits)
qed

text \<open>
  C9 on an environment in which setting a variable fails and on one in which the
  variable set is not there when read back.
\<close>

theorem init_lua_paths_always_return_0_witness:
  "chassis_frontend_init_lua_path unix_platform failing_environment concat (Some ''/lua/?.lua'') ''/opt/proxy''
     ''mysql-proxy'' Map.empty =
     (0, Map.empty,
      [Critical ''%s: setting %s = %s failed: %s''
         [''G_STRLOC'', ''LUA_PATH'', ''/lua/?.lua'', ''g_strerror(errno)'']]) \<and>
   chassis_frontend_init_lua_cpath unix_platform forgetful_environment concat (Some ''/lua/?.so'')
     ''/opt/proxy'' ''mysql-proxy'' Map.empty =
     (0, Map.empty,
      [Critical ''%s: setting %s = %s failed: (getenv() == NULL)''
         [''G_STRLOC'', ''LUA_CPATH'', ''/lua/?.so'']])"
  using init_lua_paths_always_return_0
          [of unix_platform failing_environment concat "Some ''/lua/?.lua''" "''/opt/proxy''"
              "''mysql-proxy''" Map.empty "''/lua/?.lua''"]
  by (simp add: failing_environment_def forgetful_environment_def unix_platform_def
      chassis_frontend_init_lua_cpath_def chassis_frontend_lua_setenv_def)

subsection \<open>Writing the pid file\<close>

text \<open>
  C10.  When \<^verbatim>\<open>open\<close> succeeds and \<^verbatim>\<open>write\<close> fails,
  \<^verbatim>\<open>chassis_frontend_write_pidfile\<close> returns \<open>- 1\<close> with the error set (its code is
  what \<^verbatim>\<open>g_file_error_from_errno\<close> makes of \<open>errno\<close>) and the pid
  file is left there, empty: created with mode \<^verbatim>\<open>0600\<close> (as masked) if it was not
  there, emptied if it was.  If there was no file, or a file that was not empty, the
  file system is not what it was before the call.
\<close>

theorem write_pidfile_not_atomic:
  "chassis_frontend_write_pidfile file_error_from_errno umask pid None (Inl errno) pid_file fs =
     (- 1,
      Some (G_FILE_ERROR (file_error_from_errno errno) ''%s: write(%s) of %s failed: %s''
              [''G_STRLOC'', pid_file, string_of_int pid, ''g_strerror(errno)'']),
      fs(pid_file \<mapsto>
         (case fs pid_file of
            None \<Rightarrow> \<lparr>mode = umask 384, contents = []\<rparr>
          | Some f \<Rightarrow> f\<lparr>contents := []\<rparr>))) \<and>
   (fs pid_file = None \<or> (\<exists>f. fs pid_file = Some f \<and> contents f \<noteq> []) \<longrightarrow>
      snd (snd (chassis_frontend_write_pidfile file_error_from_errno umask pid None (Inl errno) pid_file fs)) \<noteq> fs)"
proof (intro conjI impI)
  let ?fs' = "fs(pid_file \<mapsto>
         (case fs pid_file of
            None \<Rightarrow> \<lparr>mode = umask 384, contents = []\<rparr>
          | Some f \<Rightarrow> f\<lparr>contents := []\<rparr>))"
  show eq: "chassis_frontend_write_pidfile file_error_from_errno umask pid None (Inl errno) pid_file fs =
     (- 1,
      Some (G_FILE_ERROR (file_error_from_errno errno) ''%s: write(%s) of %s failed: %s''
              [''G_STRLOC'', pid_file, string_of_int pid, ''g_strerror(errno)'']),
      ?fs')"
    by (simp add: chassis_frontend_write_pidfile_def open_trunc_creat_def)
  assume "fs pid_file = None \<or> (\<exists>f. fs pid_file = Some f \<and> contents f \<noteq> [])"
  then have "?fs' pid_file \<noteq> fs pid_file"
  proof
    assume "fs pid_file = None"
    then show ?thesis by simp
  next
    assume "\<exists>f. fs pid_file = Some f \<and> contents f \<noteq> []"
    then obtain f where f: "fs pid_file = Some f" and ne: "contents f \<noteq> []"
      by blast
    have "contents (f\<lparr>contents := []\<rparr>) = []" by simp
    then have "f\<lparr>contents := []\<rparr> \<noteq> f" using ne by metis
    then show ?thesis using f by simp
  qed
  then have "?fs' \<noteq> fs" by metis
  then show "snd (snd (chassis_frontend_write_pidfile file_error_from_errno umask pid None (Inl errno) pid_file fs)) \<noteq> fs"
    by (simp add: eq)
qed

text \<open>
  C10 on a pid file that held \<^verbatim>\<open>1234\<close>: the write fails for lack of space and
  the file is left empty.
\<close>

theorem write_pidfile_not_atomic_witness:
  "chassis_frontend_write_pidfile sample_file_error_from_errno id 4711 None (Inl 28) ''/run/proxy.pid''
     [''/run/proxy.pid'' \<mapsto> \<lparr>mode = 420, contents = ''1234''\<rparr>] =
     (- 1,
      Some (G_FILE_ERROR 12 ''%s: write(%s) of %s failed: %s''
              [''G_STRLOC'', ''/run/proxy.pid'', ''4711'', ''g_strerror(errno)'']),
      [''/run/proxy.pid'' \<mapsto> \<lparr>mode = 420, contents = []\<rparr>]) \<and>
   snd (snd (chassis_frontend_write_pidfile sample_file_error_from_errno id 4711 None (Inl 28) ''/run/proxy.pid''
     [''/run/proxy.pid'' \<mapsto> \<lparr>mode = 420, contents = ''1234''\<rparr>])) \<noteq>
     [''/run/proxy.pid'' \<mapsto> \<lparr>mode = 420, contents = ''1234''\<rparr>]"
proof -
  have pid: "string_of_int 4711 = ''4711''" by (simp add: string_of_int_def)
  have old: "\<exists>f. [''/run/proxy.pid'' \<mapsto> \<lparr>mode = 420, contents = ''1234''\<rparr>] ''/run/proxy.pid'' = Some f \<and>
    contents f \<noteq> []" by simp
  note t = write_pidfile_not_atomic
             [of sample_file_error_from_errno id 4711 28 "''/run/proxy.pid''"
                 "[''/run/proxy.pid'' \<mapsto> \<lparr>mode = 420, contents = ''1234''\<rparr>]"]
  have 1: "chassis_frontend_write_pidfile sample_file_error_from_errno id 4711 None (Inl 28) ''/run/proxy.pid''
     [''/run/proxy.pid'' \<mapsto> \<lparr>mode = 420, contents = ''1234''\<rparr>] =
     (- 1,
      Some (G_FILE_ERROR 12 ''%s: write(%s) of %s failed: %s''
              [''G_STRLOC'', ''/run/proxy.pid'', ''4711'', ''g_strerror(errno)'']),
      [''/run/proxy.pid'' \<mapsto> \<lparr>mode = 420, contents = []\<rparr>])"
    using t [THEN conjunct1] by (simp add: pid sample_file_error_from_errno_def)
  have 2: "snd (snd (chassis_frontend_write_pidfile sample_file_error_from_errno id 4711 None (Inl 28) ''/run/proxy.pid''
     [''/run/proxy.pid'' \<mapsto> \<lparr>mode = 420, contents = ''1234''\<rparr>])) \<noteq>
     [''/run/proxy.pid'' \<mapsto> \<lparr>mode = 420, contents = ''1234''\<rparr>]"
    using t [THEN conjunct2] old by blast
  show ?thesis using 1 2 by (rule conjI)
qed

subsection \<open>Registering the plugins' options\<close>

text \<open>The definitions unfolded to run the sample inputs.\<close>

lemmas init_plugins_sample_defs =
  chassis_frontend_init_plugins_def plugin_proxy_def plugin_admin_def
  g_option_context_parse_def g_option_context_add_group_def g_option_context_new_def
  context_entries_def keep_argument_def chassis_keyfile_to_options_def sample_keyfile_def
  keyfile_value_def normalize_path_def unix_platform_def unix_path_is_absolute_def
  classify_def long_matches_def parse_arg_def

text \<open>
  The memory after a parse, and whether the parse succeeds, grow with the memory before
  it: if every set slot of \<open>m\<close> holds the same value in \<open>n\<close>, the same is true after
  parsing the same arguments, and what is left in \<open>argv\<close> is the same.
\<close>

lemma parse_arg_started:
  assumes "parse_arg e v started m = Some (s1, m1)" and "\<forall>a\<in>set started. m a \<noteq> None"
  shows "\<forall>a\<in>set s1. m1 a \<noteq> None"
  using assms
  by (cases "arg e")
     (auto simp add: parse_arg_def split: option.splits if_splits slot_value.splits)

lemma parse_arg_mono:
  assumes le: "m \<subseteq>\<^sub>m n" and st: "\<forall>a\<in>set started. m a \<noteq> None"
  shows "rel_option (rel_prod (=) map_le) (parse_arg e v started m) (parse_arg e v started n)"
proof -
  have upd: "\<And>x. m(arg_data e \<mapsto> x) \<subseteq>\<^sub>m n(arg_data e \<mapsto> x)"
    using le by (simp add: map_le_def)
  show ?thesis
  proof (cases "arg e")
    case G_OPTION_ARG_NONE
    then show ?thesis using upd by (simp add: parse_arg_def)
  next
    case G_OPTION_ARG_STRING
    then show ?thesis using upd by (simp add: parse_arg_def)
  next
    case G_OPTION_ARG_INT
    then show ?thesis using upd by (simp add: parse_arg_def split: option.splits)
  next
    case G_OPTION_ARG_FILENAME
    then show ?thesis using upd by (simp add: parse_arg_def)
  next
    case G_OPTION_ARG_STRING_ARRAY
    show ?thesis
    proof (cases "arg_data e \<in> set started")
      case True
      then obtain x where mx: "m (arg_data e) = Some x" using st by auto
      then have nx: "n (arg_data e) = Some x" using le by (auto simp add: map_le_def dom_def)
      show ?thesis
        using G_OPTION_ARG_STRING_ARRAY True mx nx upd
        by (cases x) (simp_all add: parse_arg_def)
    next
      case False
      then show ?thesis
        using G_OPTION_ARG_STRING_ARRAY upd by (simp add: parse_arg_def)
    qed
  qed
qed

lemma keep_argument_mono:
  "rel_option (rel_prod (=) map_le) x y \<Longrightarrow>
   rel_option (rel_prod (=) map_le) (keep_argument a x) (keep_argument a y)"
  by (cases x; cases y) (auto simp add: keep_argument_def)

lemma parse_args_mono:
  assumes "m \<subseteq>\<^sub>m n" and "\<forall>a\<in>set started. m a \<noteq> None"
  shows "rel_option (rel_prod (=) map_le)
           (parse_args es ign started args m) (parse_args es ign started args n)"
  using assms
proof (induction args arbitrary: started m n rule: length_induct)
  case (1 args)
  note IH = "1.IH" [rule_format]
  show ?case
  proof (cases args)
    case Nil
    then show ?thesis using "1.prems" by simp
  next
    case (Cons a as)
    have rest: "\<And>s m' n'. m' \<subseteq>\<^sub>m n' \<Longrightarrow> \<forall>a\<in>set s. m' a \<noteq> None \<Longrightarrow>
        rel_option (rel_prod (=) map_le) (parse_args es ign s as m') (parse_args es ign s as n')"
      using IH [of as] Cons by simp
    show ?thesis
    proof (cases "classify es a")
      case Not_an_option
      then show ?thesis
        using Cons keep_argument_mono [OF rest [OF "1.prems"]] by simp
    next
      case Unknown_option
      then show ?thesis
        using Cons keep_argument_mono [OF rest [OF "1.prems"]] by (cases ign) simp_all
    next
      case (Option e inline)
      show ?thesis
      proof (cases "arg e = G_OPTION_ARG_NONE")
        case True
        have "m(arg_data e \<mapsto> Int_val 1) \<subseteq>\<^sub>m n(arg_data e \<mapsto> Int_val 1)"
          using "1.prems"(1) by (simp add: map_le_def)
        moreover have "\<forall>a\<in>set started. (m(arg_data e \<mapsto> Int_val 1)) a \<noteq> None"
          using "1.prems"(2) by simp
        ultimately show ?thesis using Cons Option True rest by simp
      next
        case False
        note pa = parse_arg_mono [OF "1.prems", of e _]
        show ?thesis
        proof (cases inline)
          case (Some v)
          show ?thesis
          proof (cases "parse_arg e v started m")
            case None
            then have "parse_arg e v started n = None" using pa [of v] by simp
            then show ?thesis using None Cons Option False Some by simp
          next
            case (Some sm)
            obtain s1 m1 where sm: "sm = (s1, m1)" by (cases sm)
            obtain n1 where n1: "parse_arg e v started n = Some (s1, n1)" "m1 \<subseteq>\<^sub>m n1"
              using pa [of v] Some sm by (cases "parse_arg e v started n") auto
            have s1: "\<forall>a\<in>set s1. m1 a \<noteq> None"
              using Some sm "1.prems"(2) parse_arg_started by blast
            show ?thesis
              using Cons Option False \<open>inline = Some v\<close> Some sm n1 rest [OF n1(2) s1]
              by simp
          qed
        next
          case None
          show ?thesis
          proof (cases as)
            case Nil
            then show ?thesis using Cons Option False None by simp
          next
            case (Cons v as')
            have rest': "\<And>s m' n'. m' \<subseteq>\<^sub>m n' \<Longrightarrow> \<forall>a\<in>set s. m' a \<noteq> None \<Longrightarrow>
              rel_option (rel_prod (=) map_le)
                (parse_args es ign s as' m') (parse_args es ign s as' n')"
              using IH [of as'] Cons \<open>args = a # as\<close> by simp
            show ?thesis
            proof (cases "parse_arg e v started m")
              case None
              then have "parse_arg e v started n = None" using pa [of v] by simp
              then show ?thesis
                using None Cons \<open>args = a # as\<close> Option False \<open>inline = None\<close> by simp
            next
              case (Some sm)
              obtain s1 m1 where sm: "sm = (s1, m1)" by (cases sm)
              obtain n1 where n1: "parse_arg e v started n = Some (s1, n1)" "m1 \<subseteq>\<^sub>m n1"
                using pa [of v] Some sm by (cases "parse_arg e v started n") auto
              have s1: "\<forall>a\<in>set s1. m1 a \<noteq> None"
                using Some sm "1.prems"(2) parse_arg_started by blast
              show ?thesis
                using Cons \<open>args = a # as\<close> Option False \<open>inline = None\<close> Some sm n1
                  rest' [OF n1(2) s1]
                by simp
            qed
          qed
        qed
      qed
    qed
  qed
qed

lemma g_option_context_parse_mono:
  assumes "m \<subseteq>\<^sub>m n"
  shows "rel_option (rel_prod (=) map_le)
           (g_option_context_parse ctx argv m) (g_option_context_parse ctx argv n)"
proof (cases argv)
  case Nil
  then show ?thesis using assms by (simp add: g_option_context_parse_def)
next
  case (Cons prg as)
  have "rel_option (rel_prod (=) map_le)
          (parse_args (context_entries ctx) (ignore_unknown_options ctx) [] as m)
          (parse_args (context_entries ctx) (ignore_unknown_options ctx) [] as n)"
    using assms by (intro parse_args_mono) simp_all
  then show ?thesis
    using Cons by (simp add: g_option_context_parse_def keep_argument_mono)
qed

lemma keyfile_to_options_loop_extends:
  "keyfile_to_options_loop sep section es n = (r, n') \<Longrightarrow> n \<subseteq>\<^sub>m n'"
proof (induction es arbitrary: n)
  case Nil
  then show ?case by simp
next
  case (Cons e es)
  show ?case
  proof (cases "n (arg_data e) \<noteq> None")
    case True
    then show ?thesis using Cons by simp
  next
    case False
    show ?thesis
    proof (cases "section (long_name e)")
      case None
      then show ?thesis using Cons False by simp
    next
      case (Some raw)
      show ?thesis
      proof (cases "keyfile_value sep (arg e) raw")
        case None
        then show ?thesis using Cons.prems False Some by simp
      next
        case (Some v)
        have "keyfile_to_options_loop sep section es (n(arg_data e \<mapsto> v)) = (r, n')"
          using Cons.prems False \<open>section (long_name e) = Some raw\<close> Some by simp
        then have "n(arg_data e \<mapsto> v) \<subseteq>\<^sub>m n'" by (rule Cons.IH)
        moreover have "n \<subseteq>\<^sub>m n(arg_data e \<mapsto> v)"
          using False by (auto simp add: map_le_def)
        ultimately show ?thesis by (rule map_le_trans [rotated])
      qed
    qed
  qed
qed

lemma chassis_keyfile_to_options_extends:
  "chassis_keyfile_to_options kf grp es n = (r, n') \<Longrightarrow> n \<subseteq>\<^sub>m n'"
  by (auto simp add: chassis_keyfile_to_options_def split: option.splits
      dest: keyfile_to_options_loop_extends)

lemma chassis_keyfile_resolve_path_mono:
  "m \<subseteq>\<^sub>m n \<Longrightarrow>
   chassis_keyfile_resolve_path pf ia base es m \<subseteq>\<^sub>m chassis_keyfile_resolve_path pf ia base es n"
proof (induction es arbitrary: m n)
  case Nil
  then show ?case by simp
next
  case (Cons e es)
  let ?step = "\<lambda>m. (if arg e = G_OPTION_ARG_FILENAME then
          (case m (arg_data e) of
             Some (Str_val p) \<Rightarrow> m(arg_data e \<mapsto> Str_val (normalize_path pf ia p base))
           | _ \<Rightarrow> m)
        else m)"
  have "?step m \<subseteq>\<^sub>m ?step n"
  proof (cases "m (arg_data e)")
    case None
    then show ?thesis using Cons.prems
      by (auto simp add: map_le_def split: option.splits slot_value.splits)
  next
    case (Some x)
    then have "n (arg_data e) = Some x"
      using Cons.prems by (auto simp add: map_le_def dom_def)
    then show ?thesis using Some Cons.prems
      by (cases x) (auto simp add: map_le_def)
  qed
  then show ?case using Cons.IH [of "?step m" "?step n"] by simp
qed


text \<open>
  An option given as \<^verbatim>\<open>--name=value\<close> on the command line, for a string option of
  the one plugin registered, is in its slot after the run without a key file.
\<close>

lemma resolve_path_other_slot:
  "\<not> (\<exists>x\<in>set es. arg x = G_OPTION_ARG_FILENAME \<and> arg_data x = a) \<Longrightarrow>
   chassis_keyfile_resolve_path pf ia base es m a = m a"
proof (induction es arbitrary: m)
  case Nil
  show ?case by simp
next
  case (Cons e es)
  then have rest: "\<And>m. chassis_keyfile_resolve_path pf ia base es m a = m a"
    by simp
  show ?case
  proof (cases "arg e = G_OPTION_ARG_FILENAME")
    case True
    then have "arg_data e \<noteq> a" using Cons.prems by auto
    then show ?thesis using True rest
      by (auto split: option.splits slot_value.splits)
  next
    case False
    then show ?thesis using rest by simp
  qed
qed





text \<open>
  In tolerant mode the parser leaves an \<open>argv\<close> it recognises nothing of as it is.  An
  element no entry of a list recognises is recognised by no entry of a part of the list.
\<close>

lemma find_None_subset:
  "find P full = None \<Longrightarrow> set sub \<subseteq> set full \<Longrightarrow> find P sub = None"
  by (auto simp add: find_None_iff)

lemma classify_subset:
  assumes "unrecognised full a" and "set sub \<subseteq> set full"
  shows "classify sub a = classify full a"
proof (cases a)
  case Nil
  then show ?thesis by (simp add: classify_def)
next
  case (Cons c1 r1)
  show ?thesis
  proof (cases r1)
    case Nil
    then show ?thesis using Cons by (simp add: classify_def)
  next
    case (Cons c2 cs)
    show ?thesis
    proof (cases "c1 = CHR ''-'' \<and> c2 = CHR ''-'' \<and> cs \<noteq> []")
      case True
      then have "find (long_matches cs) full = None"
        using assms(1) \<open>a = c1 # r1\<close> Cons
        by (auto simp add: unrecognised_def classify_def split: option.splits if_splits)
      then have "find (long_matches cs) sub = None"
        using assms(2) by (rule find_None_subset)
      then show ?thesis
        using True \<open>find (long_matches cs) full = None\<close> \<open>a = c1 # r1\<close> Cons
        by (simp add: classify_def)
    next
      case False
      note notlong = False
      show ?thesis
      proof (cases "c1 = CHR ''-'' \<and> c2 \<noteq> CHR ''-'' \<and> cs = []")
        case True
        then have "find (\<lambda>e. short_name e = Some c2) full = None"
          using assms(1) \<open>a = c1 # r1\<close> Cons
          by (auto simp add: unrecognised_def classify_def split: option.splits if_splits)
        then have "find (\<lambda>e. short_name e = Some c2) sub = None"
          using assms(2) by (rule find_None_subset)
        then show ?thesis
          using True \<open>find (\<lambda>e. short_name e = Some c2) full = None\<close> \<open>a = c1 # r1\<close> Cons
          by (simp add: classify_def)
      next
        case False
        then show ?thesis
          using notlong \<open>a = c1 # r1\<close> Cons by (auto simp add: classify_def)
      qed
    qed
  qed
qed

lemma unrecognised_subset:
  assumes "unrecognised full a" and "set sub \<subseteq> set full"
  shows "unrecognised sub a"
  using assms classify_subset [OF assms] by (simp add: unrecognised_def)

lemma parse_args_unrecognised:
  "list_all (unrecognised es) args \<Longrightarrow> parse_args es True started args m = Some (args, m)"
proof (induction args)
  case Nil
  show ?case by simp
next
  case (Cons a as)
  then have "unrecognised es a" and rest: "parse_args es True started as m = Some (as, m)"
    by simp_all
  then show ?case
    by (cases "classify es a") (simp_all add: unrecognised_def keep_argument_def)
qed

lemma g_option_context_parse_unrecognised:
  assumes "ignore_unknown_options ctx" and "list_all (unrecognised (context_entries ctx)) args"
  shows "g_option_context_parse ctx (prg # args) m = Some (prg # args, m)"
  using assms
  by (simp add: g_option_context_parse_def parse_args_unrecognised keep_argument_def)

lemma list_all_unrecognised_subset:
  "list_all (unrecognised full) args \<Longrightarrow> set sub \<subseteq> set full \<Longrightarrow>
   list_all (unrecognised sub) args"
  unfolding list_all_iff using unrecognised_subset by blast

lemma init_plugins_loop_ignore_unknown:
  "ignore_unknown_options (fst (snd (init_plugins_loop pf ia kf base ps ctx argv m))) =
   ignore_unknown_options ctx"
proof (induction ps arbitrary: ctx argv m)
  case Nil
  show ?case by simp
next
  case (Cons p ps)
  show ?case
  proof (cases "chassis_plugin_get_options p")
    case None
    then show ?thesis using Cons.IH by simp
  next
    case (Some es)
    let ?ctx = "g_option_context_add_group ctx (name p, es)"
    have flag: "ignore_unknown_options ?ctx = ignore_unknown_options ctx"
      by (simp add: g_option_context_add_group_def)
    show ?thesis
    proof (cases "g_option_context_parse ?ctx argv m")
      case None
      then show ?thesis using Some flag by simp
    next
      case (Some r)
      obtain argv1 m1 where r: "r = (argv1, m1)" by (cases r)
      obtain k m2 where o: "(case kf of None \<Rightarrow> (0, m1)
          | Some kf \<Rightarrow> chassis_keyfile_to_options kf ''mysql-proxy'' es m1) = (k, m2)"
        by (cases "(case kf of None \<Rightarrow> (0, m1)
          | Some kf \<Rightarrow> chassis_keyfile_to_options kf ''mysql-proxy'' es m1)")
      show ?thesis
        using \<open>chassis_plugin_get_options p = Some es\<close> Some r o flag
          Cons.IH [of ?ctx argv1 "chassis_keyfile_resolve_path pf ia base es m2"]
        by (cases "k = 0") simp_all
    qed
  qed
qed

lemma init_plugins_loop_unrecognised:
  assumes "ignore_unknown_options ctx"
    and "list_all (unrecognised (context_entries ctx @
           concat (List.map_filter chassis_plugin_get_options ps))) args"
  shows "fst (snd (snd (init_plugins_loop pf ia kf base ps ctx (prg # args) m))) = prg # args \<and>
         snd (snd (snd (snd (init_plugins_loop pf ia kf base ps ctx (prg # args) m)))) = [] \<and>
         (kf = None \<longrightarrow> fst (init_plugins_loop pf ia kf base ps ctx (prg # args) m) = 0)"
  using assms
proof (induction ps arbitrary: ctx m)
  case Nil
  show ?case by simp
next
  case (Cons p ps)
  show ?case
  proof (cases "chassis_plugin_get_options p")
    case None
    then show ?thesis using Cons by (simp add: List.map_filter_simps)
  next
    case (Some es)
    let ?ctx = "g_option_context_add_group ctx (name p, es)"
    have flag: "ignore_unknown_options ?ctx"
      using Cons.prems(1) by (simp add: g_option_context_add_group_def)
    have entries: "context_entries ?ctx = context_entries ctx @ es"
      by (simp add: context_entries_def g_option_context_add_group_def)
    have all: "list_all (unrecognised (context_entries ?ctx @
           concat (List.map_filter chassis_plugin_get_options ps))) args"
      using Cons.prems(2) Some by (simp add: entries List.map_filter_simps)
    then have "list_all (unrecognised (context_entries ?ctx)) args"
      by (rule list_all_unrecognised_subset) auto
    then have parse: "g_option_context_parse ?ctx (prg # args) m = Some (prg # args, m)"
      using flag by (intro g_option_context_parse_unrecognised)
    obtain k m2 where o: "(case kf of None \<Rightarrow> (0, m)
        | Some kf \<Rightarrow> chassis_keyfile_to_options kf ''mysql-proxy'' es m) = (k, m2)"
      by (cases "(case kf of None \<Rightarrow> (0, m)
        | Some kf \<Rightarrow> chassis_keyfile_to_options kf ''mysql-proxy'' es m)")
    show ?thesis
    proof (cases "k = 0")
      case True
      then show ?thesis
        using Some parse o Cons.IH [OF flag all, of "chassis_keyfile_resolve_path pf ia base es m2"]
        by (cases kf) simp_all
    next
      case False
      then obtain kf' where "kf = Some kf'" using o by (cases kf) auto
      then show ?thesis using Some parse o False by simp
    qed
  qed
qed

text \<open>
  A parse that ignores unknown options fails only at a recognised option that takes a
  value; what a parse leaves in \<open>argv\<close> was in \<open>argv\<close>.
\<close>

lemma keep_argument_None: "keep_argument a r = None \<longleftrightarrow> r = None"
  by (cases r) (auto simp add: keep_argument_def)

lemma parse_args_tolerant_failure:
  "parse_args es True started args m = None \<Longrightarrow>
   \<exists>a\<in>set args. \<exists>e inline. classify es a = Option e inline \<and> arg e \<noteq> G_OPTION_ARG_NONE"
proof (induction args arbitrary: started m rule: length_induct)
  case (1 args)
  note IH = "1.IH" [rule_format]
  show ?case
  proof (cases args)
    case Nil
    then show ?thesis using "1.prems" by simp
  next
    case (Cons a as)
    have rest: "\<And>s m'. parse_args es True s as m' = None \<Longrightarrow>
        \<exists>a\<in>set as. \<exists>e inline. classify es a = Option e inline \<and> arg e \<noteq> G_OPTION_ARG_NONE"
      using IH [of as] Cons by simp
    show ?thesis
    proof (cases "classify es a")
      case Not_an_option
      then have "parse_args es True started as m = None"
        using "1.prems" Cons by (simp add: keep_argument_None)
      then show ?thesis using rest Cons by auto
    next
      case Unknown_option
      then have "parse_args es True started as m = None"
        using "1.prems" Cons by (simp add: keep_argument_None)
      then show ?thesis using rest Cons by auto
    next
      case (Option e inline)
      show ?thesis
      proof (cases "arg e = G_OPTION_ARG_NONE")
        case True
        then have "parse_args es True started as (m(arg_data e \<mapsto> Int_val 1)) = None"
          using "1.prems" Cons Option by simp
        then show ?thesis using rest Cons by auto
      next
        case False
        then show ?thesis using Option Cons by auto
      qed
    qed
  qed
qed

lemma init_base_options_failure:
  assumes "fst (chassis_frontend_init_base_options ctx argv m pv cf) \<noteq> 0"
  shows "\<exists>a\<in>set (tl argv). \<exists>e inline.
           classify (context_entries (fst (snd (chassis_frontend_init_base_options ctx argv m pv cf)))) a =
             Option e inline \<and> arg e \<noteq> G_OPTION_ARG_NONE"
proof -
  let ?ctx3 = "g_option_context_set_ignore_unknown_options
      (g_option_context_set_help_enabled
         (g_option_context_add_main_entries ctx
            (snd (chassis_options_set_cmdline_only_options chassis_options_new pv cf))) False) True"
  have flag: "ignore_unknown_options ?ctx3"
    by (simp add: g_option_context_set_ignore_unknown_options_def)
  have ctx: "fst (snd (chassis_frontend_init_base_options ctx argv m pv cf)) = ?ctx3"
    by (simp add: chassis_frontend_init_base_options_def chassis_options_to_g_option_entries_def
        Let_def split: option.splits)
  have none: "g_option_context_parse ?ctx3 argv m = None"
    using assms
    by (simp add: chassis_frontend_init_base_options_def chassis_options_to_g_option_entries_def
        Let_def split: option.splits)
  then obtain prg as where argv: "argv = prg # as"
    by (cases argv) (simp_all add: g_option_context_parse_def)
  then have "parse_args (context_entries ?ctx3) True [] as m = None"
    using none flag by (simp add: g_option_context_parse_def keep_argument_None)
  then have "\<exists>a\<in>set as. \<exists>e inline. classify (context_entries ?ctx3) a = Option e inline \<and>
      arg e \<noteq> G_OPTION_ARG_NONE"
    by (rule parse_args_tolerant_failure)
  then show ?thesis using argv ctx by simp
qed

lemma keep_argument_Some:
  "keep_argument a r = Some (rest, m) \<Longrightarrow> \<exists>rest'. rest = a # rest' \<and> r = Some (rest', m)"
  by (cases r) (auto simp add: keep_argument_def)

lemma parse_args_leaves_elements:
  "parse_args es ign started args m = Some (rest, m') \<Longrightarrow> set rest \<subseteq> set args"
proof (induction args arbitrary: started m rest rule: length_induct)
  case (1 args)
  note IH = "1.IH" [rule_format]
  show ?case
  proof (cases args)
    case Nil
    then show ?thesis using "1.prems" by simp
  next
    case (Cons a as)
    have tail: "\<And>s m0 r. parse_args es ign s as m0 = Some (r, m') \<Longrightarrow> set r \<subseteq> set as"
      using IH [of as] Cons by simp
    show ?thesis
    proof (cases "classify es a")
      case Not_an_option
      then obtain r where "rest = a # r" "parse_args es ign started as m = Some (r, m')"
        using "1.prems" Cons keep_argument_Some by fastforce
      then show ?thesis using tail Cons by auto
    next
      case Unknown_option
      then obtain r where "rest = a # r" "parse_args es ign started as m = Some (r, m')"
        using "1.prems" Cons keep_argument_Some by (cases ign) fastforce+
      then show ?thesis using tail Cons by auto
    next
      case (Option e inline)
      show ?thesis
      proof (cases "arg e = G_OPTION_ARG_NONE")
        case True
        then have "parse_args es ign started as (m(arg_data e \<mapsto> Int_val 1)) = Some (rest, m')"
          using "1.prems" Cons Option by simp
        then show ?thesis using tail Cons by auto
      next
        case False
        show ?thesis
        proof (cases inline)
          case (Some v)
          then obtain s1 m1 where "parse_args es ign s1 as m1 = Some (rest, m')"
            using "1.prems" Cons Option False by (auto split: option.splits)
          then show ?thesis using tail Cons by auto
        next
          case None
          then obtain v as' s1 m1 where as': "as = v # as'"
            and p: "parse_args es ign s1 as' m1 = Some (rest, m')"
            using "1.prems" Cons Option False by (auto split: option.splits list.splits)
          have "set rest \<subseteq> set as'"
            using IH [of as'] p as' Cons by simp
          then show ?thesis using as' Cons by auto
        qed
      qed
    qed
  qed
qed

lemma g_option_context_parse_leaves_elements:
  assumes "g_option_context_parse ctx argv m = Some (rest, m')"
  shows "set (tl rest) \<subseteq> set (tl argv)"
proof (cases argv)
  case Nil
  then show ?thesis using assms by (simp add: g_option_context_parse_def)
next
  case (Cons prg as)
  then obtain r where "rest = prg # r"
    and "parse_args (context_entries ctx) (ignore_unknown_options ctx) [] as m = Some (r, m')"
    using assms keep_argument_Some by (fastforce simp add: g_option_context_parse_def)
  then show ?thesis using Cons parse_args_leaves_elements by fastforce
qed

lemma g_option_context_parse_tolerant_failure:
  assumes "ignore_unknown_options ctx" and "g_option_context_parse ctx argv m = None"
  shows "\<exists>a\<in>set (tl argv). \<exists>e inline.
           classify (context_entries ctx) a = Option e inline \<and> arg e \<noteq> G_OPTION_ARG_NONE"
proof -
  obtain prg as where argv: "argv = prg # as"
    using assms(2) by (cases argv) (simp_all add: g_option_context_parse_def)
  then have "parse_args (context_entries ctx) True [] as m = None"
    using assms by (simp add: g_option_context_parse_def keep_argument_None)
  then have "\<exists>a\<in>set as. \<exists>e inline. classify (context_entries ctx) a = Option e inline \<and>
      arg e \<noteq> G_OPTION_ARG_NONE"
    by (rule parse_args_tolerant_failure)
  then show ?thesis using argv by simp
qed

lemma init_plugins_loop_tolerant_failure:
  assumes "ignore_unknown_options ctx"
    and "snd (snd (snd (snd (init_plugins_loop pf ia kf base ps ctx argv m)))) \<noteq> []"
  shows "\<exists>a\<in>set (tl argv). \<exists>e inline.
           classify (context_entries (fst (snd (init_plugins_loop pf ia kf base ps ctx argv m)))) a =
             Option e inline \<and> arg e \<noteq> G_OPTION_ARG_NONE"
  using assms
proof (induction ps arbitrary: ctx argv m)
  case Nil
  then show ?case by simp
next
  case (Cons p ps)
  show ?case
  proof (cases "chassis_plugin_get_options p")
    case None
    then show ?thesis using Cons by simp
  next
    case (Some es)
    let ?ctx = "g_option_context_add_group ctx (name p, es)"
    have flag: "ignore_unknown_options ?ctx"
      using Cons.prems(1) by (simp add: g_option_context_add_group_def)
    show ?thesis
    proof (cases "g_option_context_parse ?ctx argv m")
      case None
      then have "\<exists>a\<in>set (tl argv). \<exists>e inline.
           classify (context_entries ?ctx) a = Option e inline \<and> arg e \<noteq> G_OPTION_ARG_NONE"
        using flag by (intro g_option_context_parse_tolerant_failure)
      then show ?thesis using Some None by simp
    next
      case (Some r)
      obtain argv1 m1 where r: "r = (argv1, m1)" by (cases r)
      have sub: "set (tl argv1) \<subseteq> set (tl argv)"
        using Some r g_option_context_parse_leaves_elements by blast
      obtain k m2 where o: "(case kf of None \<Rightarrow> (0, m1)
          | Some kf \<Rightarrow> chassis_keyfile_to_options kf ''mysql-proxy'' es m1) = (k, m2)"
        by (cases "(case kf of None \<Rightarrow> (0, m1)
          | Some kf \<Rightarrow> chassis_keyfile_to_options kf ''mysql-proxy'' es m1)")
      show ?thesis
      proof (cases "k = 0")
        case True
        let ?rec = "init_plugins_loop pf ia kf base ps ?ctx argv1
            (chassis_keyfile_resolve_path pf ia base es m2)"
        have eq: "init_plugins_loop pf ia kf base (p # ps) ctx argv m = ?rec"
          using \<open>chassis_plugin_get_options p = Some es\<close> Some r o True by simp
        then have "snd (snd (snd (snd ?rec))) \<noteq> []" using Cons.prems(2) by simp
        from Cons.IH [OF flag this]
        show ?thesis using sub unfolding eq by blast
      next
        case False
        then show ?thesis
          using Cons.prems(2) \<open>chassis_plugin_get_options p = Some es\<close> Some r o by simp
      qed
    qed
  qed
qed

text \<open>
  Acceptable arguments: an argument that is no option, that no entry recognises, that
  is a flag, or that is an option written \<^verbatim>\<open>--name=value\<close> whose value converts.  A
  pass over acceptable arguments succeeds and leaves, in order, exactly the arguments
  that no entry of that pass recognises.
\<close>

lemma find_Some_append: "find P xs = Some x \<Longrightarrow> find P (xs @ ys) = Some x"
  by (induction xs) (auto split: if_splits)

lemma classify_prefix:
  assumes "classify es a = Option e inline"
  shows "classify (es @ es') a = Option e inline"
proof (cases a)
  case Nil
  then show ?thesis using assms by (simp add: classify_def)
next
  case (Cons c1 r1)
  show ?thesis
  proof (cases r1)
    case Nil
    then show ?thesis using assms Cons by (simp add: classify_def)
  next
    case (Cons c2 cs)
    show ?thesis
    proof (cases "c1 = CHR ''-'' \<and> c2 = CHR ''-'' \<and> cs \<noteq> []")
      case True
      then obtain x where x: "find (long_matches cs) es = Some x"
        using assms \<open>a = c1 # r1\<close> Cons
        by (cases "find (long_matches cs) es") (auto simp add: classify_def)
      then have "find (long_matches cs) (es @ es') = Some x"
        by (rule find_Some_append)
      then show ?thesis using assms True x \<open>a = c1 # r1\<close> Cons
        by (simp add: classify_def)
    next
      case False
      note notlong = False
      show ?thesis
      proof (cases "c1 = CHR ''-'' \<and> c2 \<noteq> CHR ''-'' \<and> cs = []")
        case True
        then obtain x where x: "find (\<lambda>e. short_name e = Some c2) es = Some x"
          using assms \<open>a = c1 # r1\<close> Cons
          by (cases "find (\<lambda>e. short_name e = Some c2) es") (auto simp add: classify_def)
        then have "find (\<lambda>e. short_name e = Some c2) (es @ es') = Some x"
          by (rule find_Some_append)
        then show ?thesis using assms True x \<open>a = c1 # r1\<close> Cons
          by (simp add: classify_def)
      next
        case False
        then show ?thesis
          using assms notlong \<open>a = c1 # r1\<close> Cons
          by (auto simp add: classify_def split: if_splits)
      qed
    qed
  qed
qed

lemma classify_not_recognised_cases:
  "unrecognised es a \<or> (\<exists>e inline. classify es a = Option e inline)"
  by (cases "classify es a") (simp_all add: unrecognised_def)

lemma acceptable_unrecognised: "unrecognised es a \<Longrightarrow> acceptable es a"
  by (cases "classify es a") (simp_all add: unrecognised_def acceptable_def)

lemma acceptable_prefix:
  assumes "acceptable (es @ es') a"
  shows "acceptable es a"
proof (cases "classify es a")
  case Not_an_option
  then show ?thesis by (simp add: acceptable_def)
next
  case Unknown_option
  then show ?thesis by (simp add: acceptable_def)
next
  case (Option e inline)
  then have "classify (es @ es') a = Option e inline" by (rule classify_prefix)
  then show ?thesis using assms Option by (simp add: acceptable_def)
qed

lemma unrecognised_prefix:
  assumes "unrecognised (es @ es') a"
  shows "unrecognised es a"
proof (cases "classify es a")
  case Not_an_option
  then show ?thesis by (simp add: unrecognised_def)
next
  case Unknown_option
  then show ?thesis by (simp add: unrecognised_def)
next
  case (Option e inline)
  then have "classify (es @ es') a = Option e inline" by (rule classify_prefix)
  then show ?thesis using assms by (simp add: unrecognised_def)
qed

lemma filter_unrecognised_prefix:
  "filter (unrecognised (es @ es')) (filter (unrecognised es) args) =
   filter (unrecognised (es @ es')) args"
proof -
  have "\<And>a. (unrecognised es a \<and> unrecognised (es @ es') a) = unrecognised (es @ es') a"
    using unrecognised_prefix by blast
  then show ?thesis by (simp add: conj_commute)
qed

lemma parse_arg_acceptable:
  assumes "arg e \<noteq> G_OPTION_ARG_INT \<or> int_of_string v \<noteq> None"
  shows "\<exists>s' m'. parse_arg e v started m = Some (s', m')"
  using assms by (cases "arg e") (auto simp add: parse_arg_def split: option.splits slot_value.splits)

lemma parse_args_acceptable:
  "list_all (acceptable es) args \<Longrightarrow>
   \<exists>m'. parse_args es True started args m = Some (filter (unrecognised es) args, m')"
proof (induction args arbitrary: started m)
  case Nil
  show ?case by simp
next
  case (Cons a as)
  then have acc: "acceptable es a" and rest: "list_all (acceptable es) as" by simp_all
  note IH = Cons.IH [OF rest]
  show ?case
  proof (cases "classify es a")
    case Not_an_option
    then have u: "unrecognised es a" by (simp add: unrecognised_def)
    obtain m' where "parse_args es True started as m = Some (filter (unrecognised es) as, m')"
      using IH by blast
    then show ?thesis using Not_an_option u by (simp add: keep_argument_def)
  next
    case Unknown_option
    then have u: "unrecognised es a" by (simp add: unrecognised_def)
    obtain m' where "parse_args es True started as m = Some (filter (unrecognised es) as, m')"
      using IH by blast
    then show ?thesis using Unknown_option u by (simp add: keep_argument_def)
  next
    case (Option e inline)
    then have u: "\<not> unrecognised es a" by (simp add: unrecognised_def)
    show ?thesis
    proof (cases "arg e = G_OPTION_ARG_NONE")
      case True
      obtain m' where "parse_args es True started as (m(arg_data e \<mapsto> Int_val 1)) =
          Some (filter (unrecognised es) as, m')"
        using IH by blast
      then show ?thesis using Option True u by simp
    next
      case False
      then obtain v where v: "inline = Some v"
        and ok: "arg e \<noteq> G_OPTION_ARG_INT \<or> int_of_string v \<noteq> None"
        using acc Option by (cases inline) (auto simp add: acceptable_def split: if_splits)
      obtain s' m1 where p: "parse_arg e v started m = Some (s', m1)"
        using parse_arg_acceptable [OF ok] by blast
      obtain m' where "parse_args es True s' as m1 = Some (filter (unrecognised es) as, m')"
        using IH by blast
      then show ?thesis using Option False v p u by simp
    qed
  qed
qed

lemma g_option_context_parse_acceptable:
  assumes "ignore_unknown_options ctx" and "list_all (acceptable (context_entries ctx)) args"
  shows "\<exists>m'. g_option_context_parse ctx (prg # args) m =
           Some (prg # filter (unrecognised (context_entries ctx)) args, m')"
proof -
  obtain m' where "parse_args (context_entries ctx) True [] args m =
      Some (filter (unrecognised (context_entries ctx)) args, m')"
    using parse_args_acceptable [OF assms(2)] by blast
  then show ?thesis using assms(1)
    by (simp add: g_option_context_parse_def keep_argument_def)
qed

lemma list_all_acceptable_prefix:
  "list_all (acceptable (es @ es')) args \<Longrightarrow> list_all (acceptable es) args"
  unfolding list_all_iff using acceptable_prefix by blast

lemma init_plugins_loop_acceptable:
  assumes "ignore_unknown_options ctx"
    and "list_all (acceptable (context_entries ctx @
           concat (List.map_filter chassis_plugin_get_options ps))) args"
  shows "\<exists>args'. fst (snd (snd (init_plugins_loop pf ia kf base ps ctx (prg # args) m))) = prg # args' \<and>
           filter (unrecognised (context_entries ctx @
             concat (List.map_filter chassis_plugin_get_options ps))) args' =
           filter (unrecognised (context_entries ctx @
             concat (List.map_filter chassis_plugin_get_options ps))) args \<and>
           snd (snd (snd (snd (init_plugins_loop pf ia kf base ps ctx (prg # args) m)))) = [] \<and>
           (kf = None \<longrightarrow> fst (init_plugins_loop pf ia kf base ps ctx (prg # args) m) = 0)"
  using assms
proof (induction ps arbitrary: ctx args m)
  case Nil
  show ?case by simp
next
  case (Cons p ps)
  show ?case
  proof (cases "chassis_plugin_get_options p")
    case None
    then show ?thesis using Cons by (simp add: List.map_filter_simps)
  next
    case (Some es)
    let ?ctx = "g_option_context_add_group ctx (name p, es)"
    let ?P = "concat (List.map_filter chassis_plugin_get_options ps)"
    have flag: "ignore_unknown_options ?ctx"
      using Cons.prems(1) by (simp add: g_option_context_add_group_def)
    have entries: "context_entries ?ctx = context_entries ctx @ es"
      by (simp add: context_entries_def g_option_context_add_group_def)
    have all: "list_all (acceptable (context_entries ?ctx @ ?P)) args"
      using Cons.prems(2) Some by (simp add: entries List.map_filter_simps)
    then have "list_all (acceptable (context_entries ?ctx)) args"
      by (rule list_all_acceptable_prefix)
    then obtain m1 where parse: "g_option_context_parse ?ctx (prg # args) m =
        Some (prg # filter (unrecognised (context_entries ?ctx)) args, m1)"
      using g_option_context_parse_acceptable [OF flag] by blast
    let ?args1 = "filter (unrecognised (context_entries ?ctx)) args"
    have all1: "list_all (acceptable (context_entries ?ctx @ ?P)) ?args1"
      using all by (simp add: list_all_iff)
    obtain k m2 where o: "(case kf of None \<Rightarrow> (0, m1)
        | Some kf \<Rightarrow> chassis_keyfile_to_options kf ''mysql-proxy'' es m1) = (k, m2)"
      by (cases "(case kf of None \<Rightarrow> (0, m1)
        | Some kf \<Rightarrow> chassis_keyfile_to_options kf ''mysql-proxy'' es m1)")
    have full: "context_entries ctx @
        concat (List.map_filter chassis_plugin_get_options (p # ps)) = context_entries ?ctx @ ?P"
      using Some by (simp add: entries List.map_filter_simps)
    have fl: "filter (unrecognised (context_entries ?ctx @ ?P)) ?args1 =
        filter (unrecognised (context_entries ?ctx @ ?P)) args"
      by (rule filter_unrecognised_prefix)
    show ?thesis
    proof (cases "k = 0")
      case True
      let ?rec = "init_plugins_loop pf ia kf base ps ?ctx (prg # ?args1)
          (chassis_keyfile_resolve_path pf ia base es m2)"
      have eq: "init_plugins_loop pf ia kf base (p # ps) ctx (prg # args) m = ?rec"
        using Some parse o True by simp
      from Cons.IH [OF flag all1, of "chassis_keyfile_resolve_path pf ia base es m2"]
      obtain args' where r: "fst (snd (snd ?rec)) = prg # args'"
        "filter (unrecognised (context_entries ?ctx @ ?P)) args' =
         filter (unrecognised (context_entries ?ctx @ ?P)) ?args1"
        "snd (snd (snd (snd ?rec))) = []"
        "kf = None \<longrightarrow> fst ?rec = 0"
        by blast
      show ?thesis
        unfolding eq full using r fl by auto
    next
      case False
      then obtain kf' where kf': "kf = Some kf'" using o by (cases kf) auto
      have eq: "init_plugins_loop pf ia kf base (p # ps) ctx (prg # args) m =
          (- 1, ?ctx, prg # ?args1, m2, [])"
        using Some parse o False by simp
      show ?thesis
        unfolding eq full using fl kf' by simp
    qed
  qed
qed

lemma init_base_options_acceptable:
  assumes "list_all
      (acceptable
         (main_entries ctx @
          snd (chassis_options_set_cmdline_only_options chassis_options_new print_version
                 config_file) @
          concat (map snd (option_groups ctx))))
      cmd"
  shows "\<exists>ctx' m'. chassis_frontend_init_base_options ctx (prg # cmd) m print_version config_file =
      (0, ctx',
       prg # filter
         (unrecognised
            (main_entries ctx @
             snd (chassis_options_set_cmdline_only_options chassis_options_new print_version
                    config_file) @
             concat (map snd (option_groups ctx))))
         cmd,
       m') \<and>
     ignore_unknown_options ctx' \<and>
     context_entries ctx' =
       main_entries ctx @
       snd (chassis_options_set_cmdline_only_options chassis_options_new print_version
              config_file) @
       concat (map snd (option_groups ctx))"
proof -
  let ?base = "snd (chassis_options_set_cmdline_only_options chassis_options_new print_version
                 config_file)"
  let ?ctx3 = "g_option_context_set_ignore_unknown_options
      (g_option_context_set_help_enabled (g_option_context_add_main_entries ctx ?base) False) True"
  have flag: "ignore_unknown_options ?ctx3"
    by (simp add: g_option_context_set_ignore_unknown_options_def)
  have entries: "context_entries ?ctx3 =
      main_entries ctx @ ?base @ concat (map snd (option_groups ctx))"
    by (simp add: context_entries_def g_option_context_set_ignore_unknown_options_def
        g_option_context_set_help_enabled_def g_option_context_add_main_entries_def)
  have "list_all (acceptable (context_entries ?ctx3)) cmd"
    using assms unfolding entries .
  then obtain m' where "g_option_context_parse ?ctx3 (prg # cmd) m =
      Some (prg # filter (unrecognised (context_entries ?ctx3)) cmd, m')"
    using g_option_context_parse_acceptable [OF flag] by blast
  then have "chassis_frontend_init_base_options ctx (prg # cmd) m print_version config_file =
      (0, ?ctx3, prg # filter (unrecognised (context_entries ?ctx3)) cmd, m')"
    by (simp add: chassis_frontend_init_base_options_def chassis_options_to_g_option_entries_def
        Let_def)
  then show ?thesis using flag entries by simp
qed

lemma both_passes_acceptable:
  assumes "list_all
      (acceptable
         (main_entries ctx @
          snd (chassis_options_set_cmdline_only_options chassis_options_new print_version
                 config_file) @
          concat (map snd (option_groups ctx)) @
          concat (List.map_filter chassis_plugin_get_options plugins)))
      cmd"
  shows "fst (chassis_frontend_init_base_options ctx (prg # cmd) m print_version config_file) = 0 \<and>
    fst (snd (snd (chassis_frontend_init_base_options ctx (prg # cmd) m print_version
                     config_file))) =
      prg # filter
        (unrecognised
           (main_entries ctx @
            snd (chassis_options_set_cmdline_only_options chassis_options_new print_version
                   config_file) @
            concat (map snd (option_groups ctx))))
        cmd \<and>
    fst (snd (snd (chassis_frontend_init_plugins pf path_is_absolute plugins
           (fst (snd (chassis_frontend_init_base_options ctx (prg # cmd) m print_version
                        config_file)))
           (fst (snd (snd (chassis_frontend_init_base_options ctx (prg # cmd) m print_version
                             config_file))))
           keyfile base_dir
           (snd (snd (snd (chassis_frontend_init_base_options ctx (prg # cmd) m print_version
                             config_file))))))) =
      prg # tl (fst (snd (snd (chassis_frontend_init_plugins pf path_is_absolute plugins
           (fst (snd (chassis_frontend_init_base_options ctx (prg # cmd) m print_version
                        config_file)))
           (fst (snd (snd (chassis_frontend_init_base_options ctx (prg # cmd) m print_version
                             config_file))))
           keyfile base_dir
           (snd (snd (snd (chassis_frontend_init_base_options ctx (prg # cmd) m print_version
                             config_file)))))))) \<and>
    filter
      (unrecognised
         (main_entries ctx @
          snd (chassis_options_set_cmdline_only_options chassis_options_new print_version
                 config_file) @
          concat (map snd (option_groups ctx)) @
          concat (List.map_filter chassis_plugin_get_options plugins)))
      (tl (fst (snd (snd (chassis_frontend_init_plugins pf path_is_absolute plugins
           (fst (snd (chassis_frontend_init_base_options ctx (prg # cmd) m print_version
                        config_file)))
           (fst (snd (snd (chassis_frontend_init_base_options ctx (prg # cmd) m print_version
                             config_file))))
           keyfile base_dir
           (snd (snd (snd (chassis_frontend_init_base_options ctx (prg # cmd) m print_version
                             config_file))))))))) =
    filter
      (unrecognised
         (main_entries ctx @
          snd (chassis_options_set_cmdline_only_options chassis_options_new print_version
                 config_file) @
          concat (map snd (option_groups ctx)) @
          concat (List.map_filter chassis_plugin_get_options plugins)))
      cmd \<and>
    snd (snd (snd (snd (chassis_frontend_init_plugins pf path_is_absolute plugins
           (fst (snd (chassis_frontend_init_base_options ctx (prg # cmd) m print_version
                        config_file)))
           (fst (snd (snd (chassis_frontend_init_base_options ctx (prg # cmd) m print_version
                             config_file))))
           keyfile base_dir
           (snd (snd (snd (chassis_frontend_init_base_options ctx (prg # cmd) m print_version
                             config_file)))))))) = [] \<and>
    (keyfile = None \<longrightarrow>
     fst (chassis_frontend_init_plugins pf path_is_absolute plugins
           (fst (snd (chassis_frontend_init_base_options ctx (prg # cmd) m print_version
                        config_file)))
           (fst (snd (snd (chassis_frontend_init_base_options ctx (prg # cmd) m print_version
                             config_file))))
           keyfile base_dir
           (snd (snd (snd (chassis_frontend_init_base_options ctx (prg # cmd) m print_version
                             config_file))))) = 0)"
proof -
  let ?EB = "main_entries ctx @
          snd (chassis_options_set_cmdline_only_options chassis_options_new print_version
                 config_file) @
          concat (map snd (option_groups ctx))"
  let ?P = "concat (List.map_filter chassis_plugin_get_options plugins)"
  let ?B = "chassis_frontend_init_base_options ctx (prg # cmd) m print_version config_file"
  have all: "list_all (acceptable (?EB @ ?P)) cmd" using assms by simp
  then have "list_all (acceptable ?EB) cmd" by (rule list_all_acceptable_prefix)
  then have "\<exists>ctx' m'. ?B = (0, ctx', prg # filter (unrecognised ?EB) cmd, m') \<and>
     ignore_unknown_options ctx' \<and> context_entries ctx' = ?EB"
    by (rule init_base_options_acceptable)
  then obtain ctx' m' where B: "?B = (0, ctx', prg # filter (unrecognised ?EB) cmd, m')"
    and flag: "ignore_unknown_options ctx'" and entries: "context_entries ctx' = ?EB"
    by blast
  let ?cmd1 = "filter (unrecognised ?EB) cmd"
  let ?R = "init_plugins_loop pf path_is_absolute keyfile base_dir plugins ctx' (prg # ?cmd1) m'"
  have "list_all (acceptable (context_entries ctx' @ ?P)) ?cmd1"
    using all by (simp add: entries list_all_iff)
  from init_plugins_loop_acceptable [OF flag this, of pf path_is_absolute keyfile base_dir prg m']
  obtain cmd' where r: "fst (snd (snd ?R)) = prg # cmd'"
    "filter (unrecognised (context_entries ctx' @ ?P)) cmd' =
     filter (unrecognised (context_entries ctx' @ ?P)) ?cmd1"
    "snd (snd (snd (snd ?R))) = []"
    "keyfile = None \<longrightarrow> fst ?R = 0"
    by blast
  have fl: "filter (unrecognised (?EB @ ?P)) ?cmd1 = filter (unrecognised (?EB @ ?P)) cmd"
    by (rule filter_unrecognised_prefix)
  have "filter (unrecognised (?EB @ ?P)) cmd' = filter (unrecognised (?EB @ ?P)) cmd"
    using r(2) fl by (simp add: entries)
  then show ?thesis
    using B r(1,3,4) by (simp add: chassis_frontend_init_plugins_def)
qed

text \<open>The definitions unfolded to run the base pass on a sample input.\<close>

lemmas base_options_sample_defs =
  g_option_context_set_ignore_unknown_options_def g_option_context_set_help_enabled_def
  g_option_context_add_main_entries_def chassis_frontend_init_base_options_def
  chassis_options_set_cmdline_only_options_def chassis_options_add_def
  chassis_options_new_def chassis_options_to_g_option_entries_def

text \<open>
  C4, as stated, fails: on the context that \<^verbatim>\<open>chassis_frontend_init_base_options\<close>
  leaves, \<^verbatim>\<open>chassis_frontend_init_plugins\<close> registers the groups of both plugins,
  parses after each and returns 0 with no parse error, although \<^verbatim>\<open>--bogus\<close>, which no
  entry recognises, is still in \<open>argv\<close>.
\<close>

theorem unknown_option_rejected_by_final_pass_counterexample:
  "fst (chassis_frontend_init_base_options g_option_context_new [''mysql-proxy'', ''--bogus'']
          Map.empty 1 2) = 0 \<and>
   fst (snd (snd (chassis_frontend_init_base_options g_option_context_new
          [''mysql-proxy'', ''--bogus''] Map.empty 1 2))) = [''mysql-proxy'', ''--bogus''] \<and>
   fst (chassis_frontend_init_plugins unix_platform unix_path_is_absolute
          [plugin_proxy, plugin_admin]
          (fst (snd (chassis_frontend_init_base_options g_option_context_new
                       [''mysql-proxy'', ''--bogus''] Map.empty 1 2)))
          [''mysql-proxy'', ''--bogus''] None ''/opt/proxy'' Map.empty) = 0 \<and>
   fst (snd (snd (chassis_frontend_init_plugins unix_platform unix_path_is_absolute
          [plugin_proxy, plugin_admin]
          (fst (snd (chassis_frontend_init_base_options g_option_context_new
                       [''mysql-proxy'', ''--bogus''] Map.empty 1 2)))
          [''mysql-proxy'', ''--bogus''] None ''/opt/proxy'' Map.empty))) =
     [''mysql-proxy'', ''--bogus''] \<and>
   snd (snd (snd (snd (chassis_frontend_init_plugins unix_platform unix_path_is_absolute
          [plugin_proxy, plugin_admin]
          (fst (snd (chassis_frontend_init_base_options g_option_context_new
                       [''mysql-proxy'', ''--bogus''] Map.empty 1 2)))
          [''mysql-proxy'', ''--bogus''] None ''/opt/proxy'' Map.empty)))) = []"
  by (simp add: init_plugins_sample_defs base_options_sample_defs)

text \<open>
  C4, amended.  Unknown options are tolerated by the base pass and by the passes of
  \<^verbatim>\<open>chassis_frontend_init_plugins\<close>, also amid options that are recognised.

  \<^item> When no entry of the context, of the base options or of any plugin recognises any
    element of \<open>argv\<close> after the program name, \<^verbatim>\<open>chassis_frontend_init_base_options\<close>
    returns 0, leaves \<open>argv\<close> and the option slots as they were and leaves the context
    ignoring unknown options; on that context \<^verbatim>\<open>chassis_frontend_init_plugins\<close>
    leaves \<open>argv\<close> as it was, reports no parse error, and returns 0 when there is no
    key file.
  \<^item> When every element \<open>cmd\<close> of \<open>argv\<close> after the program name is acceptable to the
    entries of the context, of the base options and of the plugins (it is no option, or
    none of them recognises it, or it is a flag, or it is written \<^verbatim>\<open>--name=value\<close>
    with a value that converts), the base pass returns 0 and leaves in \<open>argv\<close>, in
    order, exactly the elements that no entry of the context or of the base options
    recognises; \<^verbatim>\<open>chassis_frontend_init_plugins\<close>, run on the context, the \<open>argv\<close> and
    the slots that the base pass leaves, reports no parse error, keeps the program name,
    returns 0 when there is no key file, and the elements of \<open>cmd\<close> that no entry
    recognises are all still in \<open>argv\<close>, in order.
  \<^item> \<^verbatim>\<open>chassis_frontend_init_plugins\<close> never changes whether the context ignores
    unknown options, and \<^verbatim>\<open>chassis_frontend_init_base_options\<close> always leaves it
    ignoring them.
  \<^item> The base pass fails, and a pass of \<^verbatim>\<open>chassis_frontend_init_plugins\<close> on a context
    that ignores unknown options reports a parse error, only when an element of
    \<open>argv\<close> is an option that an entry then registered recognises and that takes a
    value.
\<close>

theorem unknown_options_tolerated_by_every_pass:
  "(list_all
      (unrecognised
         (context_entries ctx @
          snd (chassis_options_set_cmdline_only_options chassis_options_new print_version
                 config_file) @
          concat (List.map_filter chassis_plugin_get_options plugins)))
      args \<longrightarrow>
    chassis_frontend_init_base_options ctx (prg # args) m print_version config_file =
      (0,
       fst (snd (chassis_frontend_init_base_options ctx (prg # args) m print_version config_file)),
       prg # args, m) \<and>
    ignore_unknown_options
      (fst (snd (chassis_frontend_init_base_options ctx (prg # args) m print_version
                   config_file))) \<and>
    fst (chassis_frontend_init_plugins pf path_is_absolute plugins
           (fst (snd (chassis_frontend_init_base_options ctx (prg # args) m print_version
                        config_file)))
           (prg # args) None base_dir m) = 0 \<and>
    fst (snd (snd (chassis_frontend_init_plugins pf path_is_absolute plugins
           (fst (snd (chassis_frontend_init_base_options ctx (prg # args) m print_version
                        config_file)))
           (prg # args) keyfile base_dir m))) = prg # args \<and>
    snd (snd (snd (snd (chassis_frontend_init_plugins pf path_is_absolute plugins
           (fst (snd (chassis_frontend_init_base_options ctx (prg # args) m print_version
                        config_file)))
           (prg # args) keyfile base_dir m)))) = []) \<and>
   (list_all
      (acceptable
         (main_entries ctx @
          snd (chassis_options_set_cmdline_only_options chassis_options_new print_version
                 config_file) @
          concat (map snd (option_groups ctx)) @
          concat (List.map_filter chassis_plugin_get_options plugins)))
      cmd \<longrightarrow>
    (let B = chassis_frontend_init_base_options ctx (prg # cmd) m print_version config_file;
         R = chassis_frontend_init_plugins pf path_is_absolute plugins (fst (snd B))
               (fst (snd (snd B))) keyfile base_dir (snd (snd (snd B)))
     in fst B = 0 \<and>
        fst (snd (snd B)) =
          prg # filter
            (unrecognised
               (main_entries ctx @
                snd (chassis_options_set_cmdline_only_options chassis_options_new print_version
                       config_file) @
                concat (map snd (option_groups ctx))))
            cmd \<and>
        fst (snd (snd R)) = prg # tl (fst (snd (snd R))) \<and>
        filter
          (unrecognised
             (main_entries ctx @
              snd (chassis_options_set_cmdline_only_options chassis_options_new print_version
                     config_file) @
              concat (map snd (option_groups ctx)) @
              concat (List.map_filter chassis_plugin_get_options plugins)))
          (tl (fst (snd (snd R)))) =
        filter
          (unrecognised
             (main_entries ctx @
              snd (chassis_options_set_cmdline_only_options chassis_options_new print_version
                     config_file) @
              concat (map snd (option_groups ctx)) @
              concat (List.map_filter chassis_plugin_get_options plugins)))
          cmd \<and>
        snd (snd (snd (snd R))) = [] \<and>
        (keyfile = None \<longrightarrow> fst R = 0))) \<and>
   ignore_unknown_options
     (fst (snd (chassis_frontend_init_plugins pf path_is_absolute plugins ctx argv keyfile
                  base_dir m))) =
   ignore_unknown_options ctx \<and>
   ignore_unknown_options
     (fst (snd (chassis_frontend_init_base_options ctx argv m print_version config_file))) \<and>
   (fst (chassis_frontend_init_base_options ctx argv m print_version config_file) \<noteq> 0 \<longrightarrow>
    (\<exists>a\<in>set (tl argv). \<exists>e inline.
       classify
         (context_entries
            (fst (snd (chassis_frontend_init_base_options ctx argv m print_version config_file))))
         a = Option e inline \<and>
       arg e \<noteq> G_OPTION_ARG_NONE)) \<and>
   (ignore_unknown_options ctx \<and>
    snd (snd (snd (snd (chassis_frontend_init_plugins pf path_is_absolute plugins ctx argv
                          keyfile base_dir m)))) \<noteq> [] \<longrightarrow>
    (\<exists>a\<in>set (tl argv). \<exists>e inline.
       classify
         (context_entries
            (fst (snd (chassis_frontend_init_plugins pf path_is_absolute plugins ctx argv
                         keyfile base_dir m))))
         a = Option e inline \<and>
       arg e \<noteq> G_OPTION_ARG_NONE))"
proof (intro conjI impI)
  assume "fst (chassis_frontend_init_base_options ctx argv m print_version config_file) \<noteq> 0"
  then show "\<exists>a\<in>set (tl argv). \<exists>e inline.
       classify
         (context_entries
            (fst (snd (chassis_frontend_init_base_options ctx argv m print_version config_file))))
         a = Option e inline \<and>
       arg e \<noteq> G_OPTION_ARG_NONE"
    by (rule init_base_options_failure)
next
  assume "ignore_unknown_options ctx \<and>
    snd (snd (snd (snd (chassis_frontend_init_plugins pf path_is_absolute plugins ctx argv
                          keyfile base_dir m)))) \<noteq> []"
  then show "\<exists>a\<in>set (tl argv). \<exists>e inline.
       classify
         (context_entries
            (fst (snd (chassis_frontend_init_plugins pf path_is_absolute plugins ctx argv
                         keyfile base_dir m))))
         a = Option e inline \<and>
       arg e \<noteq> G_OPTION_ARG_NONE"
    unfolding chassis_frontend_init_plugins_def
    using init_plugins_loop_tolerant_failure by blast
next
  assume "list_all
      (acceptable
         (main_entries ctx @
          snd (chassis_options_set_cmdline_only_options chassis_options_new print_version
                 config_file) @
          concat (map snd (option_groups ctx)) @
          concat (List.map_filter chassis_plugin_get_options plugins)))
      cmd"
  from both_passes_acceptable [OF this, of prg m pf path_is_absolute keyfile base_dir]
  show "let B = chassis_frontend_init_base_options ctx (prg # cmd) m print_version config_file;
         R = chassis_frontend_init_plugins pf path_is_absolute plugins (fst (snd B))
               (fst (snd (snd B))) keyfile base_dir (snd (snd (snd B)))
     in fst B = 0 \<and>
        fst (snd (snd B)) =
          prg # filter
            (unrecognised
               (main_entries ctx @
                snd (chassis_options_set_cmdline_only_options chassis_options_new print_version
                       config_file) @
                concat (map snd (option_groups ctx))))
            cmd \<and>
        fst (snd (snd R)) = prg # tl (fst (snd (snd R))) \<and>
        filter
          (unrecognised
             (main_entries ctx @
              snd (chassis_options_set_cmdline_only_options chassis_options_new print_version
                     config_file) @
              concat (map snd (option_groups ctx)) @
              concat (List.map_filter chassis_plugin_get_options plugins)))
          (tl (fst (snd (snd R)))) =
        filter
          (unrecognised
             (main_entries ctx @
              snd (chassis_options_set_cmdline_only_options chassis_options_new print_version
                     config_file) @
              concat (map snd (option_groups ctx)) @
              concat (List.map_filter chassis_plugin_get_options plugins)))
          cmd \<and>
        snd (snd (snd (snd R))) = [] \<and>
        (keyfile = None \<longrightarrow> fst R = 0)"
    unfolding Let_def by blast
next
  show "ignore_unknown_options
     (fst (snd (chassis_frontend_init_plugins pf path_is_absolute plugins ctx argv keyfile
                  base_dir m))) =
   ignore_unknown_options ctx"
    by (simp add: chassis_frontend_init_plugins_def init_plugins_loop_ignore_unknown)
next
  show "ignore_unknown_options
     (fst (snd (chassis_frontend_init_base_options ctx argv m print_version config_file)))"
    by (simp add: chassis_frontend_init_base_options_def Let_def
        g_option_context_set_ignore_unknown_options_def split: option.splits)
next
  let ?base = "snd (chassis_options_set_cmdline_only_options chassis_options_new print_version
                 config_file)"
  let ?plug = "concat (List.map_filter chassis_plugin_get_options plugins)"
  let ?ctx3 = "g_option_context_set_ignore_unknown_options
      (g_option_context_set_help_enabled (g_option_context_add_main_entries ctx ?base) False) True"
  let ?B = "chassis_frontend_init_base_options ctx (prg # args) m print_version config_file"
  assume all: "list_all (unrecognised (context_entries ctx @ ?base @ ?plug)) args"
  have flag: "ignore_unknown_options ?ctx3"
    by (simp add: g_option_context_set_ignore_unknown_options_def)
  have entries: "set (context_entries ?ctx3) = set (context_entries ctx @ ?base)"
    by (auto simp add: context_entries_def g_option_context_set_ignore_unknown_options_def
        g_option_context_set_help_enabled_def g_option_context_add_main_entries_def)
  have "list_all (unrecognised (context_entries ?ctx3)) args"
    using all by (rule list_all_unrecognised_subset) (auto simp add: entries)
  then have parse: "g_option_context_parse ?ctx3 (prg # args) m = Some (prg # args, m)"
    using flag by (intro g_option_context_parse_unrecognised)
  then have B: "?B = (0, ?ctx3, prg # args, m)"
    by (simp add: chassis_frontend_init_base_options_def chassis_options_to_g_option_entries_def
        Let_def)
  then have ctx: "fst (snd ?B) = ?ctx3" by simp
  show "?B = (0, fst (snd ?B), prg # args, m)" using B by simp
  show "ignore_unknown_options (fst (snd ?B))" using ctx flag by simp
  have all3: "list_all (unrecognised (context_entries ?ctx3 @ ?plug)) args"
    using all by (rule list_all_unrecognised_subset) (auto simp add: entries)
  note loop = init_plugins_loop_unrecognised [OF flag all3, of pf path_is_absolute _ base_dir prg m]
  show "fst (chassis_frontend_init_plugins pf path_is_absolute plugins (fst (snd ?B))
           (prg # args) None base_dir m) = 0"
    using loop [of None] by (simp add: ctx chassis_frontend_init_plugins_def)
  show "fst (snd (snd (chassis_frontend_init_plugins pf path_is_absolute plugins (fst (snd ?B))
           (prg # args) keyfile base_dir m))) = prg # args"
    using loop [of keyfile] by (simp add: ctx chassis_frontend_init_plugins_def)
  show "snd (snd (snd (snd (chassis_frontend_init_plugins pf path_is_absolute plugins
           (fst (snd ?B)) (prg # args) keyfile base_dir m)))) = []"
    using loop [of keyfile] by (simp add: ctx chassis_frontend_init_plugins_def)
qed

text \<open>
  C4, amended, on an \<open>argv\<close> with an option and a word that nothing recognises, and on
  an \<open>argv\<close> that mixes them with \<^verbatim>\<open>--defaults-file=/etc/x.cnf\<close>, which the base pass
  consumes, and \<^verbatim>\<open>--proxy-address=:3307\<close>, which the pass of the first plugin
  consumes: \<^verbatim>\<open>--bogus\<close> and \<^verbatim>\<open>extra\<close> stay.
\<close>

theorem unknown_options_tolerated_by_every_pass_witness:
  "chassis_frontend_init_base_options g_option_context_new
     [''mysql-proxy'', ''--no-such-option'', ''extra''] Map.empty 1 2 =
     (0,
      \<lparr>main_entries =
         [\<lparr>long_name = ''version'', short_name = Some (CHR ''V''), arg = G_OPTION_ARG_NONE,
            arg_data = 1\<rparr>,
          \<lparr>long_name = ''defaults-file'', short_name = None, arg = G_OPTION_ARG_STRING,
            arg_data = 2\<rparr>],
       option_groups = [], help_enabled = False, ignore_unknown_options = True\<rparr>,
      [''mysql-proxy'', ''--no-such-option'', ''extra''], Map.empty) \<and>
   fst (chassis_frontend_init_plugins unix_platform unix_path_is_absolute
          [plugin_proxy, plugin_admin]
          (fst (snd (chassis_frontend_init_base_options g_option_context_new
                       [''mysql-proxy'', ''--no-such-option'', ''extra''] Map.empty 1 2)))
          [''mysql-proxy'', ''--no-such-option'', ''extra''] None ''/opt/proxy'' Map.empty) = 0 \<and>
   fst (chassis_frontend_init_base_options g_option_context_new
          [''mysql-proxy'', ''--defaults-file=/etc/x.cnf'', ''--bogus'', ''--proxy-address=:3307'',
           ''extra''] Map.empty 1 2) = 0 \<and>
   fst (snd (snd (chassis_frontend_init_base_options g_option_context_new
          [''mysql-proxy'', ''--defaults-file=/etc/x.cnf'', ''--bogus'', ''--proxy-address=:3307'',
           ''extra''] Map.empty 1 2))) =
     [''mysql-proxy'', ''--bogus'', ''--proxy-address=:3307'', ''extra''] \<and>
   fst (chassis_frontend_init_plugins unix_platform unix_path_is_absolute
          [plugin_proxy, plugin_admin]
          (fst (snd (chassis_frontend_init_base_options g_option_context_new
             [''mysql-proxy'', ''--defaults-file=/etc/x.cnf'', ''--bogus'',
              ''--proxy-address=:3307'', ''extra''] Map.empty 1 2)))
          (fst (snd (snd (chassis_frontend_init_base_options g_option_context_new
             [''mysql-proxy'', ''--defaults-file=/etc/x.cnf'', ''--bogus'',
              ''--proxy-address=:3307'', ''extra''] Map.empty 1 2))))
          None ''/opt/proxy''
          (snd (snd (snd (chassis_frontend_init_base_options g_option_context_new
             [''mysql-proxy'', ''--defaults-file=/etc/x.cnf'', ''--bogus'',
              ''--proxy-address=:3307'', ''extra''] Map.empty 1 2))))) = 0 \<and>
   fst (snd (snd (chassis_frontend_init_plugins unix_platform unix_path_is_absolute
          [plugin_proxy, plugin_admin]
          (fst (snd (chassis_frontend_init_base_options g_option_context_new
             [''mysql-proxy'', ''--defaults-file=/etc/x.cnf'', ''--bogus'',
              ''--proxy-address=:3307'', ''extra''] Map.empty 1 2)))
          (fst (snd (snd (chassis_frontend_init_base_options g_option_context_new
             [''mysql-proxy'', ''--defaults-file=/etc/x.cnf'', ''--bogus'',
              ''--proxy-address=:3307'', ''extra''] Map.empty 1 2))))
          None ''/opt/proxy''
          (snd (snd (snd (chassis_frontend_init_base_options g_option_context_new
             [''mysql-proxy'', ''--defaults-file=/etc/x.cnf'', ''--bogus'',
              ''--proxy-address=:3307'', ''extra''] Map.empty 1 2))))))) =
     [''mysql-proxy'', ''--bogus'', ''extra'']"
proof -
  let ?cmd = "[''--defaults-file=/etc/x.cnf'', ''--bogus'', ''--proxy-address=:3307'', ''extra'']"
  let ?B = "chassis_frontend_init_base_options g_option_context_new (''mysql-proxy'' # ?cmd)
      Map.empty 1 2"
  let ?R = "chassis_frontend_init_plugins unix_platform unix_path_is_absolute
      [plugin_proxy, plugin_admin] (fst (snd ?B)) (fst (snd (snd ?B))) None ''/opt/proxy''
      (snd (snd (snd ?B)))"
  have un: "list_all
      (unrecognised
         (context_entries g_option_context_new @
          snd (chassis_options_set_cmdline_only_options chassis_options_new 1 2) @
          concat (List.map_filter chassis_plugin_get_options [plugin_proxy, plugin_admin])))
      [''--no-such-option'', ''extra'']"
    by (simp add: unrecognised_def List.map_filter_simps init_plugins_sample_defs
        base_options_sample_defs)
  have acc: "list_all
      (acceptable
         (main_entries g_option_context_new @
          snd (chassis_options_set_cmdline_only_options chassis_options_new 1 2) @
          concat (map snd (option_groups g_option_context_new)) @
          concat (List.map_filter chassis_plugin_get_options [plugin_proxy, plugin_admin])))
      ?cmd"
    by (simp add: acceptable_def List.map_filter_simps init_plugins_sample_defs
        base_options_sample_defs)
  note t = unknown_options_tolerated_by_every_pass
      [where ctx = g_option_context_new and print_version = 1 and config_file = 2
         and plugins = "[plugin_proxy, plugin_admin]" and prg = "''mysql-proxy''"
         and m = Map.empty and pf = unix_platform and path_is_absolute = unix_path_is_absolute
         and base_dir = "''/opt/proxy''" and keyfile = None
         and args = "[''--no-such-option'', ''extra'']" and cmd = ?cmd]
  note t1 = t [THEN conjunct1, rule_format, OF un]
  note t2 = t [THEN conjunct2, THEN conjunct1, rule_format, OF acc, unfolded Let_def]
  have ctx: "fst (snd (chassis_frontend_init_base_options g_option_context_new
     [''mysql-proxy'', ''--no-such-option'', ''extra''] Map.empty 1 2)) =
     \<lparr>main_entries =
         [\<lparr>long_name = ''version'', short_name = Some (CHR ''V''), arg = G_OPTION_ARG_NONE,
            arg_data = 1\<rparr>,
          \<lparr>long_name = ''defaults-file'', short_name = None, arg = G_OPTION_ARG_STRING,
            arg_data = 2\<rparr>],
       option_groups = [], help_enabled = False, ignore_unknown_options = True\<rparr>"
    by (simp add: init_plugins_sample_defs base_options_sample_defs Let_def)
  have left: "fst (snd (snd ?B)) =
      [''mysql-proxy'', ''--bogus'', ''--proxy-address=:3307'', ''extra'']"
    using t2 [THEN conjunct2, THEN conjunct1]
    by (simp add: unrecognised_def init_plugins_sample_defs base_options_sample_defs)
  have rc: "fst ?B = 0" "fst ?R = 0"
    using t2 [THEN conjunct1]
      t2 [THEN conjunct2, THEN conjunct2, THEN conjunct2, THEN conjunct2, THEN conjunct2,
          rule_format, OF refl]
    by blast+
  have final: "fst (snd (snd ?R)) = [''mysql-proxy'', ''--bogus'', ''extra'']"
    by (simp add: init_plugins_sample_defs base_options_sample_defs Let_def)
  have first: "chassis_frontend_init_base_options g_option_context_new
     [''mysql-proxy'', ''--no-such-option'', ''extra''] Map.empty 1 2 =
     (0,
      \<lparr>main_entries =
         [\<lparr>long_name = ''version'', short_name = Some (CHR ''V''), arg = G_OPTION_ARG_NONE,
            arg_data = 1\<rparr>,
          \<lparr>long_name = ''defaults-file'', short_name = None, arg = G_OPTION_ARG_STRING,
            arg_data = 2\<rparr>],
       option_groups = [], help_enabled = False, ignore_unknown_options = True\<rparr>,
      [''mysql-proxy'', ''--no-such-option'', ''extra''], Map.empty)"
    using t1 ctx by simp
  have second: "fst (chassis_frontend_init_plugins unix_platform unix_path_is_absolute
          [plugin_proxy, plugin_admin]
          (fst (snd (chassis_frontend_init_base_options g_option_context_new
                       [''mysql-proxy'', ''--no-such-option'', ''extra''] Map.empty 1 2)))
          [''mysql-proxy'', ''--no-such-option'', ''extra''] None ''/opt/proxy'' Map.empty) = 0"
    using t1 by simp
  show ?thesis
    by (rule conjI [OF first conjI [OF second conjI [OF rc(1) conjI [OF left
          conjI [OF rc(2) final]]]]])
qed

text \<open>
  What \<^verbatim>\<open>chassis_frontend_init_plugins\<close> reads of a key file is its list separator and
  its \<^verbatim>\<open>[mysql-proxy]\<close> section; the groups it adds to the context are named after
  the plugins.
\<close>

lemma keyfile_to_options_section_only:
  assumes "groups kf1 s = groups kf2 s" and "list_separator kf1 = list_separator kf2"
  shows "chassis_keyfile_to_options kf1 s es m = chassis_keyfile_to_options kf2 s es m"
  using assms by (simp add: chassis_keyfile_to_options_def split: option.splits)

lemma init_plugins_loop_section_only:
  assumes "groups kf1 ''mysql-proxy'' = groups kf2 ''mysql-proxy''"
    and "list_separator kf1 = list_separator kf2"
  shows "init_plugins_loop pf ia (Some kf1) base_dir ps ctx argv m =
         init_plugins_loop pf ia (Some kf2) base_dir ps ctx argv m"
proof (induction ps arbitrary: ctx argv m)
  case Nil
  show ?case by simp
next
  case (Cons p ps)
  show ?case
  proof (cases "chassis_plugin_get_options p")
    case None
    then show ?thesis using Cons.IH by simp
  next
    case (Some es)
    show ?thesis
    proof (cases "g_option_context_parse (g_option_context_add_group ctx (name p, es)) argv m")
      case None
      then show ?thesis using Some by simp
    next
      case (Some r)
      obtain argv' m' where r: "r = (argv', m')" by (cases r)
      have k: "chassis_keyfile_to_options kf1 ''mysql-proxy'' es m' =
               chassis_keyfile_to_options kf2 ''mysql-proxy'' es m'"
        using assms by (rule keyfile_to_options_section_only)
      show ?thesis
        using \<open>chassis_plugin_get_options p = Some es\<close> Some r k Cons.IH
        by (simp split: prod.splits)
    qed
  qed
qed

lemma init_plugins_loop_groups:
  "init_plugins_loop pf ia kf base_dir ps ctx argv m = (0, ctx', rest) \<Longrightarrow>
   option_groups ctx' =
     option_groups ctx @
     List.map_filter (\<lambda>p. map_option (Pair (name p)) (chassis_plugin_get_options p)) ps"
proof (induction ps arbitrary: ctx argv m)
  case Nil
  then show ?case by (simp add: List.map_filter_simps)
next
  case (Cons p ps)
  show ?case
  proof (cases "chassis_plugin_get_options p")
    case None
    then show ?thesis using Cons by (simp add: List.map_filter_simps)
  next
    case (Some es)
    let ?ctx = "g_option_context_add_group ctx (name p, es)"
    obtain argv' m'' where
      rec: "init_plugins_loop pf ia kf base_dir ps ?ctx argv' m'' = (0, ctx', rest)"
    proof (cases "g_option_context_parse ?ctx argv m")
      case None
      then show ?thesis using Cons.prems Some by simp
    next
      case (Some r)
      obtain argv1 m1 where r: "r = (argv1, m1)" by (cases r)
      obtain k m2 where o: "(case kf of None \<Rightarrow> (0, m1)
          | Some kf \<Rightarrow> chassis_keyfile_to_options kf ''mysql-proxy'' es m1) = (k, m2)"
        by (cases "(case kf of None \<Rightarrow> (0, m1)
          | Some kf \<Rightarrow> chassis_keyfile_to_options kf ''mysql-proxy'' es m1)")
      show ?thesis
      proof (cases "k = 0")
        case True
        then have "init_plugins_loop pf ia kf base_dir ps ?ctx argv1
            (chassis_keyfile_resolve_path pf ia base_dir es m2) = (0, ctx', rest)"
          using Cons.prems \<open>chassis_plugin_get_options p = Some es\<close> Some r o by simp
        then show ?thesis by (rule that)
      next
        case False
        then show ?thesis
          using Cons.prems \<open>chassis_plugin_get_options p = Some es\<close> Some r o by simp
      qed
    qed
    have "option_groups ctx' = option_groups ?ctx @
      List.map_filter (\<lambda>p. map_option (Pair (name p)) (chassis_plugin_get_options p)) ps"
      using rec by (rule Cons.IH)
    then show ?thesis using Some
      by (simp add: List.map_filter_simps g_option_context_add_group_def)
  qed
qed

text \<open>
  What a parse writes does not depend on the memory it starts from: the slots it sets
  are the same, and every other slot is left as it was.
\<close>

lemma parse_arg_frame:
  assumes "parse_arg e v started m = Some (s1, m1)"
  shows "\<exists>x. parse_arg e v started n = Some (s1, n(arg_data e \<mapsto> x))"
  using assms
  by (cases "arg e")
     (auto simp add: parse_arg_def split: option.splits if_splits slot_value.splits)

lemma parse_args_frame:
  assumes "parse_args es ign started args m = Some (rest, m')"
  shows "\<exists>W. \<forall>n. \<exists>n'. parse_args es ign started args n = Some (rest, n') \<and>
           (\<forall>a. if a \<in> W then n' a \<noteq> None else n' a = n a)"
  using assms
proof (induction args arbitrary: started m rest rule: length_induct)
  case (1 args)
  note IH = "1.IH" [rule_format]
  show ?case
  proof (cases args)
    case Nil
    then have "\<forall>n. \<exists>n'. parse_args es ign started args n = Some (rest, n') \<and>
           (\<forall>a. if a \<in> {} then n' a \<noteq> None else n' a = n a)"
      using "1.prems" by simp
    then show ?thesis by (rule exI)
  next
    case (Cons x as)
    have kept: ?thesis
      if k: "keep_argument x (parse_args es ign started as m) = Some (rest, m')"
        and eq: "\<And>n. parse_args es ign started args n =
                    keep_argument x (parse_args es ign started as n)"
    proof -
      obtain r where r: "rest = x # r" "parse_args es ign started as m = Some (r, m')"
        using keep_argument_Some [OF k] by blast
      from IH [of as, OF _ r(2)] Cons
      obtain W where W: "\<And>n. \<exists>n'. parse_args es ign started as n = Some (r, n') \<and>
           (\<forall>a. if a \<in> W then n' a \<noteq> None else n' a = n a)"
        by auto
      have "\<forall>n. \<exists>n'. parse_args es ign started args n = Some (rest, n') \<and>
           (\<forall>a. if a \<in> W then n' a \<noteq> None else n' a = n a)"
      proof
        fix n
        obtain n' where "parse_args es ign started as n = Some (r, n')"
          and "\<forall>a. if a \<in> W then n' a \<noteq> None else n' a = n a"
          using W [of n] by blast
        then show "\<exists>n'. parse_args es ign started args n = Some (rest, n') \<and>
           (\<forall>a. if a \<in> W then n' a \<noteq> None else n' a = n a)"
          using eq [of n] r(1) by (simp add: keep_argument_def)
      qed
      then show ?thesis by (rule exI)
    qed
    have written: ?thesis
      if rec: "parse_args es ign s1 as' (m(arg_data e \<mapsto> x0)) = Some (rest, m')"
        and len: "length as' < length args"
        and eq: "\<And>n. \<exists>y. parse_args es ign started args n =
                    parse_args es ign s1 as' (n(arg_data e \<mapsto> y))"
      for e x0 s1 as'
    proof -
      from IH [of as', OF len rec]
      obtain W where W: "\<And>n. \<exists>n'. parse_args es ign s1 as' n = Some (rest, n') \<and>
           (\<forall>a. if a \<in> W then n' a \<noteq> None else n' a = n a)"
        by auto
      have "\<forall>n. \<exists>n'. parse_args es ign started args n = Some (rest, n') \<and>
           (\<forall>a. if a \<in> insert (arg_data e) W then n' a \<noteq> None else n' a = n a)"
      proof
        fix n
        obtain y where y: "parse_args es ign started args n =
                    parse_args es ign s1 as' (n(arg_data e \<mapsto> y))"
          using eq [of n] by blast
        obtain n' where n': "parse_args es ign s1 as' (n(arg_data e \<mapsto> y)) = Some (rest, n')"
          and fr: "\<forall>a. if a \<in> W then n' a \<noteq> None else n' a = (n(arg_data e \<mapsto> y)) a"
          using W [of "n(arg_data e \<mapsto> y)"] by blast
        have "\<forall>a. if a \<in> insert (arg_data e) W then n' a \<noteq> None else n' a = n a"
        proof
          fix a
          show "if a \<in> insert (arg_data e) W then n' a \<noteq> None else n' a = n a"
            using fr [rule_format, of a] by (cases "a = arg_data e"; cases "a \<in> W") simp_all
        qed
        then show "\<exists>n'. parse_args es ign started args n = Some (rest, n') \<and>
           (\<forall>a. if a \<in> insert (arg_data e) W then n' a \<noteq> None else n' a = n a)"
          using y n' by simp
      qed
      then show ?thesis by (rule exI)
    qed
    show ?thesis
    proof (cases "classify es x")
      case Not_an_option
      show ?thesis
        using "1.prems" Cons Not_an_option by (intro kept) simp_all
    next
      case Unknown_option
      show ?thesis
      proof (cases ign)
        case True
        then show ?thesis
          using "1.prems" Cons Unknown_option by (intro kept) simp_all
      next
        case False
        then show ?thesis using "1.prems" Cons Unknown_option by simp
      qed
    next
      case (Option e inline)
      show ?thesis
      proof (cases "arg e = G_OPTION_ARG_NONE")
        case True
        show ?thesis
        proof (rule written [of started as e "Int_val 1"])
          show "parse_args es ign started as (m(arg_data e \<mapsto> Int_val 1)) = Some (rest, m')"
            using "1.prems" Cons Option True by simp
          show "length as < length args" using Cons by simp
          show "\<exists>y. parse_args es ign started args n =
                    parse_args es ign started as (n(arg_data e \<mapsto> y))" for n
            using Cons Option True by (intro exI [of _ "Int_val 1"]) simp
        qed
      next
        case False
        show ?thesis
        proof (cases inline)
          case (Some v)
          obtain s1 m1 where pa: "parse_arg e v started m = Some (s1, m1)"
            and rec: "parse_args es ign s1 as m1 = Some (rest, m')"
            using "1.prems" Cons Option False Some
            by (cases "parse_arg e v started m") auto
          obtain x0 where x0: "m1 = m(arg_data e \<mapsto> x0)"
            using parse_arg_frame [OF pa, of m] pa by auto
          show ?thesis
          proof (rule written [of s1 as e x0])
            show "parse_args es ign s1 as (m(arg_data e \<mapsto> x0)) = Some (rest, m')"
              using rec x0 by simp
            show "length as < length args" using Cons by simp
            show "\<exists>y. parse_args es ign started args n =
                    parse_args es ign s1 as (n(arg_data e \<mapsto> y))" for n
              using parse_arg_frame [OF pa, of n] Cons Option False Some by auto
          qed
        next
          case None
          show ?thesis
          proof (cases as)
            case Nil
            then show ?thesis using "1.prems" Cons Option False None by simp
          next
            case (Cons v as')
            obtain s1 m1 where pa: "parse_arg e v started m = Some (s1, m1)"
              and rec: "parse_args es ign s1 as' m1 = Some (rest, m')"
              using "1.prems" \<open>args = x # as\<close> Cons Option False None
              by (cases "parse_arg e v started m") auto
            obtain x0 where x0: "m1 = m(arg_data e \<mapsto> x0)"
              using parse_arg_frame [OF pa, of m] pa by auto
            show ?thesis
            proof (rule written [of s1 as' e x0])
              show "parse_args es ign s1 as' (m(arg_data e \<mapsto> x0)) = Some (rest, m')"
                using rec x0 by simp
              show "length as' < length args" using Cons \<open>args = x # as\<close> by simp
              show "\<exists>y. parse_args es ign started args n =
                      parse_args es ign s1 as' (n(arg_data e \<mapsto> y))" for n
                using parse_arg_frame [OF pa, of n] Cons \<open>args = x # as\<close> Option False None
                by auto
            qed
          qed
        qed
      qed
    qed
  qed
qed

lemma g_option_context_parse_frame:
  assumes "g_option_context_parse ctx argv m = Some (rest, m')"
  shows "\<exists>W. \<forall>n. \<exists>n'. g_option_context_parse ctx argv n = Some (rest, n') \<and>
           (\<forall>a. if a \<in> W then n' a \<noteq> None else n' a = n a)"
proof (cases argv)
  case Nil
  then have "\<forall>n. \<exists>n'. g_option_context_parse ctx argv n = Some (rest, n') \<and>
           (\<forall>a. if a \<in> {} then n' a \<noteq> None else n' a = n a)"
    using assms by (simp add: g_option_context_parse_def)
  then show ?thesis by (rule exI)
next
  case (Cons prg as)
  let ?es = "context_entries ctx" and ?ign = "ignore_unknown_options ctx"
  have "keep_argument prg (parse_args ?es ?ign [] as m) = Some (rest, m')"
    using assms Cons by (simp add: g_option_context_parse_def)
  then obtain r where r: "rest = prg # r" "parse_args ?es ?ign [] as m = Some (r, m')"
    using keep_argument_Some by blast
  from parse_args_frame [OF r(2)]
  obtain W where W: "\<And>n. \<exists>n'. parse_args ?es ?ign [] as n = Some (r, n') \<and>
           (\<forall>a. if a \<in> W then n' a \<noteq> None else n' a = n a)"
    by auto
  have "\<forall>n. \<exists>n'. g_option_context_parse ctx argv n = Some (rest, n') \<and>
           (\<forall>a. if a \<in> W then n' a \<noteq> None else n' a = n a)"
  proof
    fix n
    obtain n' where "parse_args ?es ?ign [] as n = Some (r, n')"
      and "\<forall>a. if a \<in> W then n' a \<noteq> None else n' a = n a"
      using W [of n] by blast
    then show "\<exists>n'. g_option_context_parse ctx argv n = Some (rest, n') \<and>
           (\<forall>a. if a \<in> W then n' a \<noteq> None else n' a = n a)"
      using Cons r(1) by (simp add: g_option_context_parse_def keep_argument_def)
  qed
  then show ?thesis by (rule exI)
qed

lemma g_option_context_parse_dom:
  assumes "g_option_context_parse ctx argv m = Some (rest, m')" and "m a \<noteq> None"
  shows "m' a \<noteq> None"
proof -
  from g_option_context_parse_frame [OF assms(1)]
  obtain W where W: "\<And>n. \<exists>n'. g_option_context_parse ctx argv n = Some (rest, n') \<and>
           (\<forall>a. if a \<in> W then n' a \<noteq> None else n' a = n a)"
    by auto
  from W [of m] assms(1) have "if a \<in> W then m' a \<noteq> None else m' a = m a" by auto
  then show ?thesis using assms(2) by (cases "a \<in> W") simp_all
qed

lemma g_option_context_parse_same:
  assumes "g_option_context_parse ctx argv m = Some (rest, m')" and "m' a = None"
    and "g_option_context_parse ctx argv n = Some (rest1, n')"
  shows "n' a = n a"
proof -
  from g_option_context_parse_frame [OF assms(1)]
  obtain W where W: "\<And>n. \<exists>n'. g_option_context_parse ctx argv n = Some (rest, n') \<and>
           (\<forall>a. if a \<in> W then n' a \<noteq> None else n' a = n a)"
    by auto
  from W [of m] assms(1) have "if a \<in> W then m' a \<noteq> None else m' a = m a" by auto
  then have "a \<notin> W" using assms(2) by (cases "a \<in> W") simp_all
  moreover from W [of n] assms(3) have "if a \<in> W then n' a \<noteq> None else n' a = n a" by auto
  ultimately show ?thesis by simp
qed

text \<open>
  The overlay and the resolution of paths change the slots of the entries they are given
  and no other; a slot that is unset and whose option is a key of the section takes the
  key's value.
\<close>

lemma keyfile_to_options_loop_other:
  "a \<notin> arg_data ` set es \<Longrightarrow> snd (keyfile_to_options_loop sep section es m) a = m a"
proof (induction es arbitrary: m)
  case Nil
  show ?case by simp
next
  case (Cons x es)
  then have rest: "\<And>m. snd (keyfile_to_options_loop sep section es m) a = m a"
    and ne: "arg_data x \<noteq> a"
    by auto
  show ?case
  proof (cases "m (arg_data x) \<noteq> None")
    case True
    then show ?thesis using rest by simp
  next
    case False
    show ?thesis
    proof (cases "section (long_name x)")
      case None
      then show ?thesis using False rest by simp
    next
      case (Some raw)
      show ?thesis
      proof (cases "keyfile_value sep (arg x) raw")
        case None
        then show ?thesis using False Some by simp
      next
        case (Some v)
        then show ?thesis
          using False \<open>section (long_name x) = Some raw\<close> rest [of "m(arg_data x \<mapsto> v)"] ne
          by simp
      qed
    qed
  qed
qed

lemma keyfile_to_options_loop_write:
  assumes "distinct (map arg_data es)" and "e \<in> set es" and "m (arg_data e) = None"
    and "section (long_name e) = Some raw"
    and "keyfile_to_options_loop sep section es m = (0, m')"
  shows "keyfile_value sep (arg e) raw \<noteq> None \<and>
         m' (arg_data e) = keyfile_value sep (arg e) raw"
  using assms
proof (induction es arbitrary: m)
  case Nil
  then show ?case by simp
next
  case (Cons x es)
  have d: "distinct (map arg_data es)" and nx: "arg_data x \<notin> arg_data ` set es"
    using Cons.prems(1) by simp_all
  show ?case
  proof (cases "x = e")
    case True
    show ?thesis
    proof (cases "keyfile_value sep (arg e) raw")
      case None
      then show ?thesis using Cons.prems True by simp
    next
      case (Some v)
      then have "keyfile_to_options_loop sep section es (m(arg_data e \<mapsto> v)) = (0, m')"
        using Cons.prems True by simp
      then have "m' (arg_data e) = (m(arg_data e \<mapsto> v)) (arg_data e)"
        using keyfile_to_options_loop_other [of "arg_data e" es sep "section" "m(arg_data e \<mapsto> v)"]
          nx True
        by simp
      then show ?thesis using Some by simp
    qed
  next
    case False
    then have e: "e \<in> set es" and ne: "arg_data x \<noteq> arg_data e"
      using Cons.prems(1,2) by auto
    note IH = Cons.IH [OF d e _ Cons.prems(4)]
    show ?thesis
    proof (cases "m (arg_data x) \<noteq> None")
      case True
      then show ?thesis using IH [of m] Cons.prems(3,5) by simp
    next
      case unset: False
      show ?thesis
      proof (cases "section (long_name x)")
        case None
        then show ?thesis using IH [of m] Cons.prems(3,5) unset by simp
      next
        case (Some rx)
        show ?thesis
        proof (cases "keyfile_value sep (arg x) rx")
          case None
          then show ?thesis using Cons.prems(5) unset Some by simp
        next
          case (Some v)
          have unset': "(m(arg_data x \<mapsto> v)) (arg_data e) = None"
            using Cons.prems(3) ne by simp
          have "keyfile_to_options_loop sep section es (m(arg_data x \<mapsto> v)) = (0, m')"
            using Cons.prems(5) unset \<open>section (long_name x) = Some rx\<close> Some by simp
          then show ?thesis
            by (rule IH [of "m(arg_data x \<mapsto> v)", OF unset'])
        qed
      qed
    qed
  qed
qed

lemma chassis_keyfile_to_options_other:
  "a \<notin> arg_data ` set es \<Longrightarrow> snd (chassis_keyfile_to_options kf grp es m) a = m a"
  by (simp add: chassis_keyfile_to_options_def keyfile_to_options_loop_other
      split: option.splits)

lemma resolve_path_dom:
  "chassis_keyfile_resolve_path pf ia base es m a = None \<longleftrightarrow> m a = None"
proof (induction es arbitrary: m)
  case Nil
  show ?case by simp
next
  case (Cons x es)
  show ?case
    by (simp add: Cons.IH split: option.splits slot_value.splits)
qed

lemma resolve_path_write:
  assumes "distinct (map arg_data es)" and "e \<in> set es"
  shows "chassis_keyfile_resolve_path pf ia base es m (arg_data e) =
         (if arg e = G_OPTION_ARG_FILENAME then
            (case m (arg_data e) of
               Some (Str_val p) \<Rightarrow> Some (Str_val (normalize_path pf ia p base))
             | other \<Rightarrow> other)
          else m (arg_data e))"
  using assms
proof (induction es arbitrary: m)
  case Nil
  then show ?case by simp
next
  case (Cons x es)
  have d: "distinct (map arg_data es)" and nx: "arg_data x \<notin> arg_data ` set es"
    using Cons.prems(1) by simp_all
  show ?case
  proof (cases "x = e")
    case True
    have "\<not> (\<exists>y\<in>set es. arg y = G_OPTION_ARG_FILENAME \<and> arg_data y = arg_data e)"
      using nx True by (metis image_eqI)
    then have rest: "\<And>m. chassis_keyfile_resolve_path pf ia base es m (arg_data e) =
        m (arg_data e)"
      by (rule resolve_path_other_slot)
    show ?thesis
      using True rest by (simp split: option.splits slot_value.splits)
  next
    case False
    then have e: "e \<in> set es" and ne: "arg_data x \<noteq> arg_data e"
      using Cons.prems nx by auto
    show ?thesis
      using Cons.IH [OF d e] ne by (simp split: option.splits slot_value.splits)
  qed
qed

lemma init_plugins_loop_Cons_Some:
  assumes "chassis_plugin_get_options p = Some es"
    and "g_option_context_parse (g_option_context_add_group ctx (name p, es)) argv m =
           Some (argv1, a)"
    and "(case kf of None \<Rightarrow> (0, a)
          | Some k \<Rightarrow> chassis_keyfile_to_options k ''mysql-proxy'' es a) = (0, b)"
  shows "init_plugins_loop pf ia kf base (p # ps) ctx argv m =
         init_plugins_loop pf ia kf base ps (g_option_context_add_group ctx (name p, es)) argv1
           (chassis_keyfile_resolve_path pf ia base es b)"
  using assms by simp

lemma init_plugins_loop_Cons_inv:
  assumes opts: "chassis_plugin_get_options p = Some es"
    and ok: "fst (init_plugins_loop pf ia kf base (p # ps) ctx argv m) = 0"
  shows "\<exists>argv1 a b.
           g_option_context_parse (g_option_context_add_group ctx (name p, es)) argv m =
             Some (argv1, a) \<and>
           (case kf of None \<Rightarrow> (0, a)
            | Some k \<Rightarrow> chassis_keyfile_to_options k ''mysql-proxy'' es a) = (0, b)"
proof (cases "g_option_context_parse (g_option_context_add_group ctx (name p, es)) argv m")
  case None
  then show ?thesis using opts ok by simp
next
  case (Some r)
  obtain argv1 a where r: "r = (argv1, a)" by (cases r)
  obtain k b where o: "(case kf of None \<Rightarrow> (0, a)
          | Some k \<Rightarrow> chassis_keyfile_to_options k ''mysql-proxy'' es a) = (k, b)"
    by (cases "(case kf of None \<Rightarrow> (0, a)
          | Some k \<Rightarrow> chassis_keyfile_to_options k ''mysql-proxy'' es a)")
  have "k = 0" using opts ok Some r o by (cases "k = 0") simp_all
  then show ?thesis using Some r o by simp
qed

lemma init_plugins_loop_dom:
  assumes "m a \<noteq> None"
  shows "fst (snd (snd (snd (init_plugins_loop pf ia kf base ps ctx argv m)))) a \<noteq> None"
  using assms
proof (induction ps arbitrary: ctx argv m)
  case Nil
  then show ?case by simp
next
  case (Cons p ps)
  show ?case
  proof (cases "chassis_plugin_get_options p")
    case None
    then show ?thesis using Cons by simp
  next
    case (Some es)
    let ?ctx = "g_option_context_add_group ctx (name p, es)"
    show ?thesis
    proof (cases "g_option_context_parse ?ctx argv m")
      case None
      then show ?thesis using Some Cons.prems by simp
    next
      case (Some r)
      obtain argv1 a1 where r: "r = (argv1, a1)" by (cases r)
      have a1: "a1 a \<noteq> None"
        using Some r Cons.prems g_option_context_parse_dom by blast
      obtain k b where o: "(case kf of None \<Rightarrow> (0, a1)
          | Some k \<Rightarrow> chassis_keyfile_to_options k ''mysql-proxy'' es a1) = (k, b)"
        by (cases "(case kf of None \<Rightarrow> (0, a1)
          | Some k \<Rightarrow> chassis_keyfile_to_options k ''mysql-proxy'' es a1)")
      have "a1 \<subseteq>\<^sub>m b"
        using o by (cases kf) (auto dest: chassis_keyfile_to_options_extends)
      then have b: "b a \<noteq> None" using a1 by (auto simp add: map_le_def dom_def)
      show ?thesis
      proof (cases "k = 0")
        case True
        have "chassis_keyfile_resolve_path pf ia base es b a \<noteq> None"
          using b by (simp add: resolve_path_dom)
        from Cons.IH [where m = "chassis_keyfile_resolve_path pf ia base es b", OF this]
        show ?thesis
          using \<open>chassis_plugin_get_options p = Some es\<close> Some r o True by simp
      next
        case False
        then show ?thesis
          using \<open>chassis_plugin_get_options p = Some es\<close> Some r o b by simp
      qed
    qed
  qed
qed

text \<open>
  An option of a plugin that the command line leaves unset and that is a key of the
  section \<^verbatim>\<open>[mysql-proxy]\<close> takes the section's value, and later plugins leave it.
\<close>

lemma init_plugins_loop_keep:
  assumes "fst (init_plugins_loop pf ia (Some kf) base ps ctx argv m1) = 0"
    and "m0 \<subseteq>\<^sub>m m1"
    and "fst (snd (snd (snd (init_plugins_loop pf ia None base ps ctx argv m0)))) a = None"
    and "a \<notin> arg_data ` set (concat (List.map_filter chassis_plugin_get_options ps))"
  shows "fst (snd (snd (snd (init_plugins_loop pf ia (Some kf) base ps ctx argv m1)))) a = m1 a"
  using assms
proof (induction ps arbitrary: ctx argv m0 m1)
  case Nil
  show ?case by simp
next
  case (Cons p ps)
  show ?case
  proof (cases "chassis_plugin_get_options p")
    case None
    have "fst (snd (snd (snd (init_plugins_loop pf ia (Some kf) base ps ctx argv m1)))) a = m1 a"
      using Cons.prems None
      by (intro Cons.IH [where ?m0.0 = m0]) (simp_all add: List.map_filter_simps)
    then show ?thesis using None by simp
  next
    case (Some es)
    let ?ctx = "g_option_context_add_group ctx (name p, es)"
    from init_plugins_loop_Cons_inv [OF Some Cons.prems(1)]
    obtain argv1 a1 b1 where p1: "g_option_context_parse ?ctx argv m1 = Some (argv1, a1)"
      and o1: "chassis_keyfile_to_options kf ''mysql-proxy'' es a1 = (0, b1)"
      by auto
    have o1': "(case Some kf of None \<Rightarrow> (0, a1)
          | Some k \<Rightarrow> chassis_keyfile_to_options k ''mysql-proxy'' es a1) = (0, b1)"
      using o1 by simp
    note step1 = init_plugins_loop_Cons_Some [OF Some p1 o1', of pf ia base ps]
    from g_option_context_parse_mono [OF Cons.prems(2), of ?ctx argv] p1
    obtain a0 where p0: "g_option_context_parse ?ctx argv m0 = Some (argv1, a0)"
      and le0: "a0 \<subseteq>\<^sub>m a1"
      by (cases "g_option_context_parse ?ctx argv m0") auto
    have o0': "(case None of None \<Rightarrow> (0, a0)
          | Some k \<Rightarrow> chassis_keyfile_to_options k ''mysql-proxy'' es a0) = (0, a0)"
      by simp
    note step0 = init_plugins_loop_Cons_Some [OF Some p0 o0', of pf ia base ps]
    let ?c0 = "chassis_keyfile_resolve_path pf ia base es a0"
    let ?c1 = "chassis_keyfile_resolve_path pf ia base es b1"
    have "a1 \<subseteq>\<^sub>m b1" using o1 by (rule chassis_keyfile_to_options_extends)
    then have "a0 \<subseteq>\<^sub>m b1" using le0 by (rule map_le_trans [rotated])
    then have le: "?c0 \<subseteq>\<^sub>m ?c1" by (rule chassis_keyfile_resolve_path_mono)
    have fin0: "fst (snd (snd (snd (init_plugins_loop pf ia None base ps ?ctx argv1 ?c0)))) a = None"
      using Cons.prems(3) unfolding step0 .
    have "?c0 a = None"
      using fin0 init_plugins_loop_dom [of ?c0 a pf ia None base ps ?ctx argv1] by blast
    then have "a0 a = None" by (simp add: resolve_path_dom)
    have a1: "a1 a = m1 a" using g_option_context_parse_same [OF p0 \<open>a0 a = None\<close> p1] .
    have nin: "a \<notin> arg_data ` set es"
      and nin': "a \<notin> arg_data ` set (concat (List.map_filter chassis_plugin_get_options ps))"
      using Cons.prems(4) Some by (auto simp add: List.map_filter_simps)
    have b1: "b1 a = a1 a"
      using chassis_keyfile_to_options_other [OF nin, of kf "''mysql-proxy''" a1] o1 by simp
    have "\<not> (\<exists>x\<in>set es. arg x = G_OPTION_ARG_FILENAME \<and> arg_data x = a)"
      using nin by auto
    then have c1: "?c1 a = b1 a" by (rule resolve_path_other_slot)
    have ok: "fst (init_plugins_loop pf ia (Some kf) base ps ?ctx argv1 ?c1) = 0"
      using Cons.prems(1) unfolding step1 .
    have "fst (snd (snd (snd (init_plugins_loop pf ia (Some kf) base ps ?ctx argv1 ?c1)))) a =
        ?c1 a"
      using ok le fin0 nin' by (rule Cons.IH)
    then show ?thesis unfolding step1 using c1 b1 a1 by simp
  qed
qed

lemma init_plugins_loop_reads_section:
  assumes "fst (init_plugins_loop pf ia (Some kf) base ps ctx argv m1) = 0"
    and "m0 \<subseteq>\<^sub>m m1"
    and "fst (snd (snd (snd (init_plugins_loop pf ia None base ps ctx argv m0)))) (arg_data e) =
           None"
    and "m1 (arg_data e) = None"
    and "e \<in> set (concat (List.map_filter chassis_plugin_get_options ps))"
    and "distinct (map arg_data (concat (List.map_filter chassis_plugin_get_options ps)))"
    and "groups kf ''mysql-proxy'' = Some sec"
    and "sec (long_name e) = Some raw"
  shows "keyfile_value (list_separator kf) (arg e) raw \<noteq> None \<and>
         fst (snd (snd (snd (init_plugins_loop pf ia (Some kf) base ps ctx argv m1))))
           (arg_data e) =
         (if arg e = G_OPTION_ARG_FILENAME
          then Some (Str_val (normalize_path pf ia raw base))
          else keyfile_value (list_separator kf) (arg e) raw)"
  using assms(1-6)
proof (induction ps arbitrary: ctx argv m0 m1)
  case Nil
  then show ?case by (simp add: List.map_filter_simps)
next
  case (Cons p ps)
  let ?a = "arg_data e"
  show ?case
  proof (cases "chassis_plugin_get_options p")
    case None
    have "keyfile_value (list_separator kf) (arg e) raw \<noteq> None \<and>
         fst (snd (snd (snd (init_plugins_loop pf ia (Some kf) base ps ctx argv m1))))
           (arg_data e) =
         (if arg e = G_OPTION_ARG_FILENAME
          then Some (Str_val (normalize_path pf ia raw base))
          else keyfile_value (list_separator kf) (arg e) raw)"
      using Cons.prems None
      by (intro Cons.IH [where ?m0.0 = m0]) (simp_all add: List.map_filter_simps)
    then show ?thesis using None by simp
  next
    case (Some es)
    let ?ctx = "g_option_context_add_group ctx (name p, es)"
    from init_plugins_loop_Cons_inv [OF Some Cons.prems(1)]
    obtain argv1 a1 b1 where p1: "g_option_context_parse ?ctx argv m1 = Some (argv1, a1)"
      and o1: "chassis_keyfile_to_options kf ''mysql-proxy'' es a1 = (0, b1)"
      by auto
    have o1': "(case Some kf of None \<Rightarrow> (0, a1)
          | Some k \<Rightarrow> chassis_keyfile_to_options k ''mysql-proxy'' es a1) = (0, b1)"
      using o1 by simp
    note step1 = init_plugins_loop_Cons_Some [OF Some p1 o1', of pf ia base ps]
    from g_option_context_parse_mono [OF Cons.prems(2), of ?ctx argv] p1
    obtain a0 where p0: "g_option_context_parse ?ctx argv m0 = Some (argv1, a0)"
      and le0: "a0 \<subseteq>\<^sub>m a1"
      by (cases "g_option_context_parse ?ctx argv m0") auto
    have o0': "(case None of None \<Rightarrow> (0, a0)
          | Some k \<Rightarrow> chassis_keyfile_to_options k ''mysql-proxy'' es a0) = (0, a0)"
      by simp
    note step0 = init_plugins_loop_Cons_Some [OF Some p0 o0', of pf ia base ps]
    let ?c0 = "chassis_keyfile_resolve_path pf ia base es a0"
    let ?c1 = "chassis_keyfile_resolve_path pf ia base es b1"
    have "a1 \<subseteq>\<^sub>m b1" using o1 by (rule chassis_keyfile_to_options_extends)
    then have "a0 \<subseteq>\<^sub>m b1" using le0 by (rule map_le_trans [rotated])
    then have le: "?c0 \<subseteq>\<^sub>m ?c1" by (rule chassis_keyfile_resolve_path_mono)
    have fin0: "fst (snd (snd (snd (init_plugins_loop pf ia None base ps ?ctx argv1 ?c0)))) ?a =
        None"
      using Cons.prems(3) unfolding step0 .
    have "?c0 ?a = None"
      using fin0 init_plugins_loop_dom [of ?c0 ?a pf ia None base ps ?ctx argv1] by blast
    then have "a0 ?a = None" by (simp add: resolve_path_dom)
    have "a1 ?a = m1 ?a" using g_option_context_parse_same [OF p0 \<open>a0 ?a = None\<close> p1] .
    then have a1: "a1 ?a = None" using Cons.prems(4) by simp
    have ok: "fst (init_plugins_loop pf ia (Some kf) base ps ?ctx argv1 ?c1) = 0"
      using Cons.prems(1) unfolding step1 .
    have cc: "concat (List.map_filter chassis_plugin_get_options (p # ps)) =
        es @ concat (List.map_filter chassis_plugin_get_options ps)"
      using Some by (simp add: List.map_filter_simps)
    have d: "distinct (map arg_data es)"
      and d': "distinct (map arg_data (concat (List.map_filter chassis_plugin_get_options ps)))"
      and disj: "arg_data ` set es \<inter>
          arg_data ` set (concat (List.map_filter chassis_plugin_get_options ps)) = {}"
      using Cons.prems(6) unfolding cc by simp_all
    show ?thesis
    proof (cases "e \<in> set es")
      case True
      have loop: "keyfile_to_options_loop (list_separator kf) sec es a1 = (0, b1)"
        using o1 assms(7) by (simp add: chassis_keyfile_to_options_def)
      from keyfile_to_options_loop_write [OF d True a1 assms(8) loop]
      have v: "keyfile_value (list_separator kf) (arg e) raw \<noteq> None"
        and b1: "b1 ?a = keyfile_value (list_separator kf) (arg e) raw"
        by simp_all
      have c1: "?c1 ?a =
         (if arg e = G_OPTION_ARG_FILENAME
          then Some (Str_val (normalize_path pf ia raw base))
          else keyfile_value (list_separator kf) (arg e) raw)"
        unfolding resolve_path_write [OF d True] b1
        by (simp add: keyfile_value_def)
      have nin': "?a \<notin> arg_data ` set (concat (List.map_filter chassis_plugin_get_options ps))"
        using disj True by auto
      have "fst (snd (snd (snd (init_plugins_loop pf ia (Some kf) base ps ?ctx argv1 ?c1)))) ?a =
          ?c1 ?a"
        using ok le fin0 nin' by (rule init_plugins_loop_keep)
      then show ?thesis unfolding step1 using c1 v by simp
    next
      case False
      then have e': "e \<in> set (concat (List.map_filter chassis_plugin_get_options ps))"
        using Cons.prems(5) unfolding cc by simp
      then have nin: "?a \<notin> arg_data ` set es" using disj by auto
      have b1: "b1 ?a = a1 ?a"
        using chassis_keyfile_to_options_other [OF nin, of kf "''mysql-proxy''" a1] o1 by simp
      have "\<not> (\<exists>x\<in>set es. arg x = G_OPTION_ARG_FILENAME \<and> arg_data x = ?a)"
        using nin by (metis image_eqI)
      then have "?c1 ?a = b1 ?a" by (rule resolve_path_other_slot)
      then have c1: "?c1 ?a = None" using b1 a1 by simp
      show ?thesis
        unfolding step1 using ok le fin0 c1 e' d' by (rule Cons.IH)
    qed
  qed
qed

lemma map_filter_member:
  "x \<in> set xs \<Longrightarrow> f x = Some y \<Longrightarrow> y \<in> set (List.map_filter f xs)"
  by (induction xs) (auto simp add: List.map_filter_simps split: option.splits)

text \<open>
  C5, as stated, fails: the key file gives \<^verbatim>\<open>proxy-address\<close> in the section
  \<^verbatim>\<open>[proxy]\<close> and \<^verbatim>\<open>admin-address\<close> in the section \<^verbatim>\<open>[admin]\<close>, and the two
  plugins' options get the values of the section \<^verbatim>\<open>[mysql-proxy]\<close> instead.
\<close>

theorem plugin_section_named_after_plugin_counterexample:
  "fst (snd (snd (snd (chassis_frontend_init_plugins unix_platform unix_path_is_absolute
      [plugin_proxy, plugin_admin] g_option_context_new [''mysql-proxy''] (Some sample_keyfile)
      ''/opt/proxy'' Map.empty)))) 10 = Some (Str_val '':4040'') \<and>
   fst (snd (snd (snd (chassis_frontend_init_plugins unix_platform unix_path_is_absolute
      [plugin_proxy, plugin_admin] g_option_context_new [''mysql-proxy''] (Some sample_keyfile)
      ''/opt/proxy'' Map.empty)))) 20 = Some (Str_val '':4041'') \<and>
   groups sample_keyfile ''proxy'' = Some [''proxy-address'' \<mapsto> '':5050''] \<and>
   groups sample_keyfile ''admin'' = Some [''admin-address'' \<mapsto> '':5051'']"
  by (simp add: init_plugins_sample_defs)

text \<open>
  C5, amended.  For every loaded plugin that exports options, the group added to the
  parser is named after the plugin, and the section of the key file consulted to
  overlay values is \<^verbatim>\<open>[mysql-proxy]\<close> whatever the plugin's name.

  \<^item> Two key files with the same list separator and the same \<^verbatim>\<open>[mysql-proxy]\<close>
    section give the same result, whatever their other sections hold.
  \<^item> After a run that returns 0 the groups of the context are those it had, followed by
    one group for each plugin with options, named after the plugin, in order.
  \<^item> The section \<^verbatim>\<open>[mysql-proxy]\<close> is read: when the run with a key file returns 0,
    the options of the plugins have slots of their own, and an option of one of the
    plugins is left unset by the command line (its slot is unset after the run without
    a key file) and is a key of the section \<^verbatim>\<open>[mysql-proxy]\<close>, then the key's text
    converts to the option's kind and the option's slot holds that value after the run,
    a file name resolved against the base directory.
\<close>

theorem plugin_options_read_from_mysql_proxy_section:
  "(groups kf1 ''mysql-proxy'' = groups kf2 ''mysql-proxy'' \<and>
    list_separator kf1 = list_separator kf2 \<longrightarrow>
      chassis_frontend_init_plugins pf path_is_absolute plugins ctx argv (Some kf1) base_dir m =
      chassis_frontend_init_plugins pf path_is_absolute plugins ctx argv (Some kf2) base_dir m) \<and>
   (fst (chassis_frontend_init_plugins pf path_is_absolute plugins ctx argv kf base_dir m) = 0 \<longrightarrow>
      option_groups
        (fst (snd (chassis_frontend_init_plugins pf path_is_absolute plugins ctx argv kf
                     base_dir m))) =
      option_groups ctx @
      List.map_filter (\<lambda>p. map_option (Pair (name p)) (chassis_plugin_get_options p)) plugins) \<and>
   (fst (chassis_frontend_init_plugins pf path_is_absolute plugins ctx argv (Some keyfile)
           base_dir m) = 0 \<and>
    p \<in> set plugins \<and> chassis_plugin_get_options p = Some entries \<and> e \<in> set entries \<and>
    distinct (map arg_data (concat (List.map_filter chassis_plugin_get_options plugins))) \<and>
    fst (snd (snd (snd (chassis_frontend_init_plugins pf path_is_absolute plugins ctx argv None
                          base_dir m)))) (arg_data e) = None \<and>
    groups keyfile ''mysql-proxy'' = Some sec \<and> sec (long_name e) = Some raw \<longrightarrow>
      keyfile_value (list_separator keyfile) (arg e) raw \<noteq> None \<and>
      fst (snd (snd (snd (chassis_frontend_init_plugins pf path_is_absolute plugins ctx argv
                            (Some keyfile) base_dir m)))) (arg_data e) =
        (if arg e = G_OPTION_ARG_FILENAME
         then Some (Str_val (normalize_path pf path_is_absolute raw base_dir))
         else keyfile_value (list_separator keyfile) (arg e) raw))"
proof (intro conjI impI)
  assume "groups kf1 ''mysql-proxy'' = groups kf2 ''mysql-proxy'' \<and>
    list_separator kf1 = list_separator kf2"
  then show "chassis_frontend_init_plugins pf path_is_absolute plugins ctx argv (Some kf1) base_dir m =
      chassis_frontend_init_plugins pf path_is_absolute plugins ctx argv (Some kf2) base_dir m"
    unfolding chassis_frontend_init_plugins_def
    by (intro init_plugins_loop_section_only) simp_all
next
  let ?r = "chassis_frontend_init_plugins pf path_is_absolute plugins ctx argv kf base_dir m"
  assume "fst ?r = 0"
  then have "init_plugins_loop pf path_is_absolute kf base_dir plugins ctx argv m =
    (0, fst (snd ?r), snd (snd ?r))"
    unfolding chassis_frontend_init_plugins_def
    by (metis prod.collapse)
  then show "option_groups (fst (snd ?r)) =
      option_groups ctx @
      List.map_filter (\<lambda>p. map_option (Pair (name p)) (chassis_plugin_get_options p)) plugins"
    by (rule init_plugins_loop_groups)
next
  assume a: "fst (chassis_frontend_init_plugins pf path_is_absolute plugins ctx argv (Some keyfile)
           base_dir m) = 0 \<and>
    p \<in> set plugins \<and> chassis_plugin_get_options p = Some entries \<and> e \<in> set entries \<and>
    distinct (map arg_data (concat (List.map_filter chassis_plugin_get_options plugins))) \<and>
    fst (snd (snd (snd (chassis_frontend_init_plugins pf path_is_absolute plugins ctx argv None
                          base_dir m)))) (arg_data e) = None \<and>
    groups keyfile ''mysql-proxy'' = Some sec \<and> sec (long_name e) = Some raw"
  have ok: "fst (init_plugins_loop pf path_is_absolute (Some keyfile) base_dir plugins ctx argv m) = 0"
    using a unfolding chassis_frontend_init_plugins_def by blast
  have fin0: "fst (snd (snd (snd (init_plugins_loop pf path_is_absolute None base_dir plugins ctx
      argv m)))) (arg_data e) = None"
    using a unfolding chassis_frontend_init_plugins_def by blast
  have unset: "m (arg_data e) = None"
    using fin0 init_plugins_loop_dom [of m "arg_data e" pf path_is_absolute None base_dir plugins
        ctx argv]
    by blast
  have "entries \<in> set (List.map_filter chassis_plugin_get_options plugins)"
    using a map_filter_member [of p plugins chassis_plugin_get_options entries] by blast
  then have mem: "e \<in> set (concat (List.map_filter chassis_plugin_get_options plugins))"
    using a by auto
  have d: "distinct (map arg_data (concat (List.map_filter chassis_plugin_get_options plugins)))"
    and sec: "groups keyfile ''mysql-proxy'' = Some sec" and raw: "sec (long_name e) = Some raw"
    using a by blast+
  have le: "m \<subseteq>\<^sub>m m" by simp
  from init_plugins_loop_reads_section [OF ok le fin0 unset mem d sec raw]
  show "keyfile_value (list_separator keyfile) (arg e) raw \<noteq> None"
    and "fst (snd (snd (snd (chassis_frontend_init_plugins pf path_is_absolute plugins ctx argv
                            (Some keyfile) base_dir m)))) (arg_data e) =
        (if arg e = G_OPTION_ARG_FILENAME
         then Some (Str_val (normalize_path pf path_is_absolute raw base_dir))
         else keyfile_value (list_separator keyfile) (arg e) raw)"
    unfolding chassis_frontend_init_plugins_def by blast+
qed

text \<open>
  C5, amended, on the two sample key files, which differ in the sections named after
  the plugins only: the option \<^verbatim>\<open>proxy-lua-script\<close> of the plugin \<^verbatim>\<open>proxy\<close> and the
  option \<^verbatim>\<open>admin-address\<close> of the plugin \<^verbatim>\<open>admin\<close> both take the values of the
  section \<^verbatim>\<open>[mysql-proxy]\<close>.
\<close>

theorem plugin_options_read_from_mysql_proxy_section_witness:
  "chassis_frontend_init_plugins unix_platform unix_path_is_absolute
      [plugin_proxy, plugin_admin] g_option_context_new [''mysql-proxy''] (Some sample_keyfile)
      ''/opt/proxy'' Map.empty =
   chassis_frontend_init_plugins unix_platform unix_path_is_absolute
      [plugin_proxy, plugin_admin] g_option_context_new [''mysql-proxy'']
      (Some sample_keyfile_main_only) ''/opt/proxy'' Map.empty \<and>
   option_groups (fst (snd (chassis_frontend_init_plugins unix_platform unix_path_is_absolute
      [plugin_proxy, plugin_admin] g_option_context_new [''mysql-proxy''] (Some sample_keyfile)
      ''/opt/proxy'' Map.empty))) =
   [(''proxy'',
     [\<lparr>long_name = ''proxy-address'', short_name = None, arg = G_OPTION_ARG_STRING,
        arg_data = 10\<rparr>,
      \<lparr>long_name = ''proxy-lua-script'', short_name = None, arg = G_OPTION_ARG_FILENAME,
        arg_data = 11\<rparr>]),
    (''admin'',
     [\<lparr>long_name = ''admin-address'', short_name = None, arg = G_OPTION_ARG_STRING,
        arg_data = 20\<rparr>])] \<and>
   fst (snd (snd (snd (chassis_frontend_init_plugins unix_platform unix_path_is_absolute
      [plugin_proxy, plugin_admin] g_option_context_new [''mysql-proxy''] (Some sample_keyfile)
      ''/opt/proxy'' Map.empty)))) 11 = Some (Str_val ''/opt/proxy/lua/rw.lua'') \<and>
   fst (snd (snd (snd (chassis_frontend_init_plugins unix_platform unix_path_is_absolute
      [plugin_proxy, plugin_admin] g_option_context_new [''mysql-proxy''] (Some sample_keyfile)
      ''/opt/proxy'' Map.empty)))) 20 = Some (Str_val '':4041'')"
proof -
  let ?script = "\<lparr>long_name = ''proxy-lua-script'', short_name = None,
      arg = G_OPTION_ARG_FILENAME, arg_data = 11\<rparr>"
  let ?address = "\<lparr>long_name = ''admin-address'', short_name = None, arg = G_OPTION_ARG_STRING,
      arg_data = 20\<rparr>"
  let ?proxy = "[\<lparr>long_name = ''proxy-address'', short_name = None, arg = G_OPTION_ARG_STRING,
      arg_data = 10\<rparr>, ?script]"
  let ?sec = "[''proxy-address'' \<mapsto> '':4040'', ''proxy-lua-script'' \<mapsto> ''lua/rw.lua'',
      ''admin-address'' \<mapsto> '':4041'']"
  let ?with = "chassis_frontend_init_plugins unix_platform unix_path_is_absolute
      [plugin_proxy, plugin_admin] g_option_context_new [''mysql-proxy''] (Some sample_keyfile)
      ''/opt/proxy'' Map.empty"
  let ?without = "chassis_frontend_init_plugins unix_platform unix_path_is_absolute
      [plugin_proxy, plugin_admin] g_option_context_new [''mysql-proxy''] None
      ''/opt/proxy'' Map.empty"
  have g: "groups sample_keyfile ''mysql-proxy'' = groups sample_keyfile_main_only ''mysql-proxy'' \<and>
    list_separator sample_keyfile = list_separator sample_keyfile_main_only"
    by (simp add: sample_keyfile_def sample_keyfile_main_only_def)
  have ok: "fst ?with = 0"
    by (simp add: init_plugins_sample_defs)
  have d: "distinct (map arg_data
      (concat (List.map_filter chassis_plugin_get_options [plugin_proxy, plugin_admin])))"
    by (simp add: List.map_filter_simps plugin_proxy_def plugin_admin_def)
  have unset: "fst (snd (snd (snd ?without))) 11 = None" "fst (snd (snd (snd ?without))) 20 = None"
    by (simp_all add: init_plugins_sample_defs)
  have sec: "groups sample_keyfile ''mysql-proxy'' = Some ?sec"
    by (simp add: sample_keyfile_def)
  note t = plugin_options_read_from_mysql_proxy_section
      [where ?kf1.0 = sample_keyfile and ?kf2.0 = sample_keyfile_main_only
         and pf = unix_platform and path_is_absolute = unix_path_is_absolute
         and plugins = "[plugin_proxy, plugin_admin]" and ctx = g_option_context_new
         and argv = "[''mysql-proxy'']" and base_dir = "''/opt/proxy''" and m = Map.empty
         and kf = "Some sample_keyfile" and keyfile = sample_keyfile and sec = ?sec]
  have 1: "?with =
   chassis_frontend_init_plugins unix_platform unix_path_is_absolute
      [plugin_proxy, plugin_admin] g_option_context_new [''mysql-proxy'']
      (Some sample_keyfile_main_only) ''/opt/proxy'' Map.empty"
    using t [THEN conjunct1] g by blast
  have "option_groups (fst (snd ?with)) =
      option_groups g_option_context_new @
      List.map_filter (\<lambda>p. map_option (Pair (name p)) (chassis_plugin_get_options p))
        [plugin_proxy, plugin_admin]"
    using t [THEN conjunct2, THEN conjunct1] ok by blast
  then have 2: "option_groups (fst (snd ?with)) =
   [(''proxy'', ?proxy), (''admin'', [?address])]"
    by (simp add: List.map_filter_simps plugin_proxy_def plugin_admin_def g_option_context_new_def)
  have h3: "fst ?with = 0 \<and>
    plugin_proxy \<in> set [plugin_proxy, plugin_admin] \<and>
    chassis_plugin_get_options plugin_proxy = Some ?proxy \<and> ?script \<in> set ?proxy \<and>
    distinct (map arg_data
      (concat (List.map_filter chassis_plugin_get_options [plugin_proxy, plugin_admin]))) \<and>
    fst (snd (snd (snd ?without))) (arg_data ?script) = None \<and>
    groups sample_keyfile ''mysql-proxy'' = Some ?sec \<and>
    ?sec (long_name ?script) = Some ''lua/rw.lua''"
    using ok d unset sec by (simp add: plugin_proxy_def)
  have 3: "fst (snd (snd (snd ?with))) 11 = Some (Str_val ''/opt/proxy/lua/rw.lua'')"
    using t [where p = plugin_proxy and entries = ?proxy and e = ?script
               and raw = "''lua/rw.lua''", THEN conjunct2, THEN conjunct2, rule_format, OF h3]
    by (simp add: normalize_path_def unix_platform_def unix_path_is_absolute_def)
  have h4: "fst ?with = 0 \<and>
    plugin_admin \<in> set [plugin_proxy, plugin_admin] \<and>
    chassis_plugin_get_options plugin_admin = Some [?address] \<and> ?address \<in> set [?address] \<and>
    distinct (map arg_data
      (concat (List.map_filter chassis_plugin_get_options [plugin_proxy, plugin_admin]))) \<and>
    fst (snd (snd (snd ?without))) (arg_data ?address) = None \<and>
    groups sample_keyfile ''mysql-proxy'' = Some ?sec \<and>
    ?sec (long_name ?address) = Some '':4041''"
    using ok d unset sec by (simp add: plugin_admin_def)
  have 4: "fst (snd (snd (snd ?with))) 20 = Some (Str_val '':4041'')"
    using t [where p = plugin_admin and entries = "[?address]" and e = ?address
               and raw = "'':4041''", THEN conjunct2, THEN conjunct2, rule_format, OF h4]
    by (simp add: keyfile_value_def)
  show ?thesis
    by (rule conjI [OF 1 conjI [OF 2 conjI [OF 3 4]]])
qed

end
